theory Spec2Isabelle
  imports Main "HOL-Library.Sublist"
begin

section \<open>Data model\<close>

text \<open>
  The development follows the TypeScript sources
  \<^verbatim>\<open>services/codeforcesService.ts\<close> (the remote client and the sync engine),
  \<^verbatim>\<open>services/cronJobService.ts\<close> (the scheduler) and the Mongoose models
  \<^verbatim>\<open>models/Student.ts\<close>, \<^verbatim>\<open>models/Submission.ts\<close> and
  \<^verbatim>\<open>models/RatingChange.ts\<close> (the schema validators and the pre-save hook).

  JavaScript numbers are modelled as \<^typ>\<open>int\<close>, an optional or nullable field as an
  \<^typ>\<open>'a option\<close>, a \<^verbatim>\<open>Date\<close> as its millisecond timestamp and a Mongo
  collection as the list of its documents in insertion order. An object id is the string
  it prints as. Strings are lists of 8-bit characters, so the statements speak of ASCII
  text. Field names carry a short prefix where the same name occurs in several
  interfaces.
\<close>

type_synonym objectId = string
type_synonym date = int

text \<open>\<^verbatim>\<open>IStudent\<close> (types/models.ts) with the document id. The two timestamps that
  Mongoose maintains, \<^verbatim>\<open>createdAt\<close> and \<^verbatim>\<open>updatedAt\<close>, are left out.\<close>

record student =
  sid :: objectId
  name :: string
  email :: string
  phoneNumber :: string
  codeforcesHandle :: string
  currentRating :: "int option"
  maxRating :: "int option"
  lastDataUpdate :: "date option"
  emailNotificationsEnabled :: bool
  reminderEmailCount :: int

text \<open>\<^verbatim>\<open>ISubmission\<close> and its two nested objects.\<close>

record problem =
  p_contestId :: "int option"
  p_index :: string
  p_name :: string
  p_type :: string
  p_rating :: "int option"
  p_tags :: "string list"

record author =
  a_contestId :: "int option"
  a_members :: "string list"
  a_participantType :: string
  a_ghost :: bool
  a_startTimeSeconds :: "int option"

record ISubmission =
  s_id :: int
  s_contestId :: "int option"
  s_creationTimeSeconds :: int
  s_relativeTimeSeconds :: int
  s_problem :: problem
  s_author :: author
  s_programmingLanguage :: string
  s_verdict :: string
  s_testset :: string
  s_passedTestCount :: int
  s_timeConsumedMillis :: int
  s_memoryConsumedBytes :: int

text \<open>\<^verbatim>\<open>ISubmissionDocument\<close> (models/Submission.ts).\<close>

record SubmissionDoc =
  d_studentId :: objectId
  d_codeforcesHandle :: string
  d_submissionId :: int
  d_contestId :: "int option"
  d_creationTimeSeconds :: int
  d_relativeTimeSeconds :: int
  d_problem :: problem
  d_author :: author
  d_programmingLanguage :: string
  d_verdict :: string
  d_testset :: string
  d_passedTestCount :: int
  d_timeConsumedMillis :: int
  d_memoryConsumedBytes :: int

text \<open>\<^verbatim>\<open>CodeforcesRatingChange\<close> and \<^verbatim>\<open>IRatingChangeDocument\<close>.\<close>

record CodeforcesRatingChange =
  rc_contestId :: int
  rc_contestName :: string
  rc_handle :: string
  rc_rank :: int
  rc_ratingUpdateTimeSeconds :: int
  rc_oldRating :: int
  rc_newRating :: int

record RatingChangeDoc =
  r_studentId :: objectId
  r_codeforcesHandle :: string
  r_contestId :: int
  r_contestName :: string
  r_handle :: string
  r_rank :: int
  r_ratingUpdateTimeSeconds :: int
  r_oldRating :: int
  r_newRating :: int

text \<open>\<^verbatim>\<open>IContest\<close>; the stored contest document has the same fields.\<close>

record IContest =
  c_contestId :: int
  c_contestName :: string
  c_phase :: string
  c_frozen :: bool
  c_durationSeconds :: int
  c_startTimeSeconds :: int
  c_relativeTimeSeconds :: "int option"

text \<open>\<^verbatim>\<open>CodeforcesUser\<close>: the handle and the two rating fields the engine reads.\<close>

record CodeforcesUser =
  u_handle :: string
  u_rating :: "int option"
  u_maxRating :: "int option"

section \<open>The world: document store, clock and event trace\<close>

text \<open>
  An event is either a completed wait of so many milliseconds or an HTTP GET that was
  issued. The clock advances with the waits only; waits that run side by side advance it
  once.
\<close>

datatype event = Delay nat | Get string

record world =
  students :: "student list"
  contests :: "IContest list"
  submissions :: "SubmissionDoc list"
  ratingChanges :: "RatingChangeDoc list"
  now :: date
  requests :: nat
  trace :: "event list"

definition delay :: "nat \<Rightarrow> world \<Rightarrow> world" where
  "delay ms w = w\<lparr>now := now w + int ms, trace := trace w @ [Delay ms]\<rparr>"

section \<open>Remote client\<close>

text \<open>
  What one HTTP GET can come back with: a 2xx response whose body carries
  \<^verbatim>\<open>status\<close>, \<^verbatim>\<open>comment\<close> and \<^verbatim>\<open>result\<close>, or an error raised by axios
  with the response status (if any), the error code (if any) and the message. The remote
  side is a family of such outcomes, one for every request number and endpoint, for each
  of the four API methods the client uses.
\<close>

datatype 'a http_outcome =
    HttpResponse string "string option" "'a option"
  | AxiosError "nat option" "string option" string

record remote =
  user_info :: "nat \<Rightarrow> string \<Rightarrow> CodeforcesUser list http_outcome"
  user_rating :: "nat \<Rightarrow> string \<Rightarrow> CodeforcesRatingChange list http_outcome"
  user_status :: "nat \<Rightarrow> string \<Rightarrow> ISubmission list http_outcome"
  contest_list :: "nat \<Rightarrow> string \<Rightarrow> IContest list http_outcome"

definition BASE_URL :: string where
  "BASE_URL = ''https://codeforces.com/api''"

definition REQUEST_DELAY :: nat where
  "REQUEST_DELAY = 200"

text \<open>\<^verbatim>\<open>String.prototype.includes\<close>.\<close>

fun str_includes :: "string \<Rightarrow> string \<Rightarrow> bool" where
  "str_includes [] p = (p = [])"
| "str_includes (c # cs) p = (prefix p (c # cs) \<or> str_includes cs p)"

text \<open>A handle between single quotes, as the template literals print it.\<close>

definition quoted :: "string \<Rightarrow> string" where
  "quoted h = CHR 0x27 # h @ [CHR 0x27]"

text \<open>Decimal digits of a natural number, for the query string.\<close>

fun show_nat :: "nat \<Rightarrow> string" where
  "show_nat n =
     (if n < 10 then [''0123456789'' ! n]
      else show_nat (n div 10) @ [''0123456789'' ! (n mod 10)])"

text \<open>What is thrown inside the \<^verbatim>\<open>try\<close> block of \<^verbatim>\<open>makeRequest\<close>: an axios
  error, or the plain \<^verbatim>\<open>Error\<close> raised for a status other than OK.\<close>

datatype thrown = Axios "nat option" "string option" string | Plain string

definition makeRequest_try :: "'a http_outcome \<Rightarrow> thrown + 'a option" where
  "makeRequest_try out =
     (case out of
        AxiosError st code msg \<Rightarrow> Inl (Axios st code msg)
      | HttpResponse status comment result \<Rightarrow>
          if status \<noteq> ''OK''
          then Inl (Plain (''Codeforces API error: '' @
                 (case comment of
                    None \<Rightarrow> ''Unknown error''
                  | Some c \<Rightarrow> if c = [] then ''Unknown error'' else c)))
          else Inr result)"

definition makeRequest_catch :: "thrown \<Rightarrow> string" where
  "makeRequest_catch e =
     (case e of
        Axios st code msg \<Rightarrow>
          if st = Some 400 then ''Invalid request parameters''
          else if st = Some 503 then ''Codeforces API is temporarily unavailable''
          else if code = Some ''ECONNABORTED''
            then ''Request timeout - Codeforces API is slow to respond''
          else if code = Some ''ENOTFOUND''
            then ''Cannot connect to Codeforces API - check your internet connection''
          else ''Failed to fetch data from Codeforces: '' @ msg
      | Plain msg \<Rightarrow> ''Failed to fetch data from Codeforces: '' @ msg)"

text \<open>\<^verbatim>\<open>makeRequest\<close>: wait \<^verbatim>\<open>REQUEST_DELAY\<close>, issue the GET, interpret the outcome.
  The result is the error message or the (possibly missing) \<^verbatim>\<open>result\<close> field.\<close>

definition makeRequest ::
  "(nat \<Rightarrow> string \<Rightarrow> 'a http_outcome) \<Rightarrow> string \<Rightarrow> world \<Rightarrow> (string + 'a option) \<times> world" where
  "makeRequest api endpoint w =
     (let w1 = delay REQUEST_DELAY w;
          out = api (requests w1) endpoint;
          w2 = w1\<lparr>requests := requests w1 + 1,
                  trace := trace w1 @ [Get (BASE_URL @ endpoint)]\<rparr>
      in (case makeRequest_try out of
            Inl e \<Rightarrow> Inl (makeRequest_catch e)
          | Inr result \<Rightarrow> Inr result, w2))"

definition getUserInfo :: "remote \<Rightarrow> string \<Rightarrow> world \<Rightarrow> (string + CodeforcesUser) \<times> world" where
  "getUserInfo r handle w =
     (case makeRequest (user_info r) (''/user.info?handles='' @ handle) w of
        (Inl e, w') \<Rightarrow> (Inl e, w')
      | (Inr None, w') \<Rightarrow> (Inl (''User '' @ quoted handle @ '' not found''), w')
      | (Inr (Some []), w') \<Rightarrow> (Inl (''User '' @ quoted handle @ '' not found''), w')
      | (Inr (Some (u # us)), w') \<Rightarrow> (Inr u, w'))"

definition getUserRatingChanges ::
  "remote \<Rightarrow> string \<Rightarrow> world \<Rightarrow> (string + CodeforcesRatingChange list) \<times> world" where
  "getUserRatingChanges r handle w =
     (case makeRequest (user_rating r) (''/user.rating?handle='' @ handle) w of
        (Inl e, w') \<Rightarrow>
          if str_includes e ''not found'' \<or> str_includes e ''rating'' then (Inr [], w')
          else (Inl e, w')
      | (Inr None, w') \<Rightarrow> (Inr [], w')
      | (Inr (Some changes), w') \<Rightarrow> (Inr changes, w'))"

definition getUserSubmissions ::
  "remote \<Rightarrow> string \<Rightarrow> nat option \<Rightarrow> nat option \<Rightarrow> world \<Rightarrow> (string + ISubmission list) \<times> world"
where
  "getUserSubmissions r handle from count w =
     (let endpoint = ''/user.status?handle='' @ handle
            @ (case from of None \<Rightarrow> [] | Some f \<Rightarrow> ''&from='' @ show_nat f)
            @ (case count of None \<Rightarrow> [] | Some c \<Rightarrow> ''&count='' @ show_nat c)
      in case makeRequest (user_status r) endpoint w of
           (Inl e, w') \<Rightarrow>
             if str_includes e ''not found'' then (Inr [], w') else (Inl e, w')
         | (Inr None, w') \<Rightarrow> (Inr [], w')
         | (Inr (Some subs), w') \<Rightarrow> (Inr subs, w'))"

definition getContests ::
  "remote \<Rightarrow> bool option \<Rightarrow> world \<Rightarrow> (string + IContest list) \<times> world" where
  "getContests r gym w =
     (let endpoint = ''/contest.list''
            @ (case gym of None \<Rightarrow> []
               | Some g \<Rightarrow> ''?gym='' @ (if g then ''true'' else ''false''))
      in case makeRequest (contest_list r) endpoint w of
           (Inl e, w') \<Rightarrow> (Inl e, w')
         | (Inr None, w') \<Rightarrow> (Inr [], w')
         | (Inr (Some cs), w') \<Rightarrow> (Inr cs, w'))"

definition validateHandle :: "remote \<Rightarrow> string \<Rightarrow> world \<Rightarrow> bool \<times> world" where
  "validateHandle r handle w =
     (case getUserInfo r handle w of
        (Inr u, w') \<Rightarrow> (True, w')
      | (Inl e, w') \<Rightarrow> (False, w'))"

record UserStats =
  st_user :: CodeforcesUser
  st_ratingChanges :: "CodeforcesRatingChange list"
  st_submissionsCount :: nat

text \<open>\<^verbatim>\<open>getUserStats\<close>. The three requests of \<^verbatim>\<open>Promise.allSettled\<close> are all
  issued, each after its own wait, in the order in which they are started; a rejected
  one does not stop the others. Their timers are started together, so each of the three
  begins its wait at the time of the call, and the clock stands at that time plus
  \<^verbatim>\<open>REQUEST_DELAY\<close> when all three have settled.\<close>

definition getUserStats :: "remote \<Rightarrow> string \<Rightarrow> world \<Rightarrow> (string + UserStats) \<times> world" where
  "getUserStats r handle w =
     (let t0 = now w;
          (user, w1) = getUserInfo r handle w;
          (changes, w2) = getUserRatingChanges r handle (w1\<lparr>now := t0\<rparr>);
          (subs, w3) = getUserSubmissions r handle (Some 1) (Some 1) (w2\<lparr>now := t0\<rparr>);
          ratingData = (case changes of Inr v \<Rightarrow> v | Inl e \<Rightarrow> [])
      in case user of
           Inl e \<Rightarrow> (Inl (''User '' @ quoted handle @ '' not found''), w3)
         | Inr userData \<Rightarrow>
             (let (allSubmissions, w4) = getUserSubmissions r handle None None w3;
                  totalSubmissions =
                    (case allSubmissions of Inr all \<Rightarrow> length all | Inl e \<Rightarrow> 0)
              in (Inr \<lparr> st_user = userData, st_ratingChanges = ratingData,
                        st_submissionsCount = totalSubmissions \<rparr>, w4)))"

section \<open>Schema validation\<close>

text \<open>
  \<^verbatim>\<open>Model.create\<close> and \<^verbatim>\<open>doc.save()\<close> run the validators of the schema and reject
  with a validation error when one fails. A \<^verbatim>\<open>required\<close> string must be non-empty;
  numbers and booleans of the interfaces are always present here, and
  \<^verbatim>\<open>studentId\<close> is the \<^verbatim>\<open>ObjectId\<close> of a loaded student document, so
  their \<^verbatim>\<open>required\<close> validators hold. The unique indexes are on the keys
  the loops test with \<^verbatim>\<open>exists\<close> before they create, so no create meets a
  duplicate key. Of the error message only the leading
  \<^verbatim>\<open><Model> validation failed\<close> is kept; the list of failing paths after it is not.
\<close>

definition SubmissionValidationFailed :: string where
  "SubmissionValidationFailed = ''Submission validation failed''"

definition RatingChangeValidationFailed :: string where
  "RatingChangeValidationFailed = ''RatingChange validation failed''"

definition StudentValidationFailed :: string where
  "StudentValidationFailed = ''Student validation failed''"

text \<open>The validators of \<^verbatim>\<open>SubmissionSchema\<close>.\<close>

definition Submission_validate :: "SubmissionDoc \<Rightarrow> bool" where
  "Submission_validate d =
     (d_codeforcesHandle d \<noteq> []
      \<and> p_index (d_problem d) \<noteq> [] \<and> p_name (d_problem d) \<noteq> [] \<and> p_type (d_problem d) \<noteq> []
      \<and> list_all (\<lambda>m. m \<noteq> []) (a_members (d_author d))
      \<and> a_participantType (d_author d) \<noteq> []
      \<and> d_programmingLanguage d \<noteq> [] \<and> d_verdict d \<noteq> [] \<and> d_testset d \<noteq> [])"

text \<open>The validators of \<^verbatim>\<open>RatingChangeSchema\<close>.\<close>

definition RatingChange_validate :: "RatingChangeDoc \<Rightarrow> bool" where
  "RatingChange_validate d =
     (r_codeforcesHandle d \<noteq> [] \<and> r_contestName d \<noteq> [] \<and> r_handle d \<noteq> [])"

text \<open>The validators of \<^verbatim>\<open>StudentSchema\<close>. The three regular expressions are
  \<^verbatim>\<open>/^[^\s@]+@[^\s@]+\.[^\s@]+$/\<close> for the email,
  \<^verbatim>\<open>/^[\+]?[1-9][\d]{0,15}$/\<close> for the phone number and
  \<^verbatim>\<open>/^[a-zA-Z0-9_-]+$/\<close> for the handle.\<close>

definition digits :: string where
  "digits = ''0123456789''"

definition letters :: string where
  "letters = ''abcdefghijklmnopqrstuvwxyzABCDEFGHIJKLMNOPQRSTUVWXYZ''"

definition whitespace :: string where
  "whitespace = [CHR 0x09, CHR 0x0A, CHR 0x0B, CHR 0x0C, CHR 0x0D, CHR 0x20, CHR 0xA0]"

definition matches_email :: "string \<Rightarrow> bool" where
  "matches_email e =
     (let local = takeWhile (\<lambda>c. c \<noteq> CHR ''@'') e;
          domain = drop 1 (dropWhile (\<lambda>c. c \<noteq> CHR ''@'') e)
      in list_all (\<lambda>c. \<not> List.member whitespace c) e
         \<and> length (filter (\<lambda>c. c = CHR ''@'') e) = 1
         \<and> local \<noteq> []
         \<and> list_ex (\<lambda>k. domain ! k = CHR ''.'') [1 ..< length domain - 1])"

definition matches_phone :: "string \<Rightarrow> bool" where
  "matches_phone p =
     (case (case p of c # cs \<Rightarrow> if c = CHR ''+'' then cs else p | [] \<Rightarrow> p) of
        [] \<Rightarrow> False
      | d # ds \<Rightarrow>
          List.member ''123456789'' d \<and> length ds \<le> 15 \<and> list_all (List.member digits) ds)"

definition matches_handle :: "string \<Rightarrow> bool" where
  "matches_handle h = (h \<noteq> [] \<and> list_all (List.member (letters @ digits @ ''_-'')) h)"

definition rating_in_range :: "int option \<Rightarrow> bool" where
  "rating_in_range v = (case v of None \<Rightarrow> True | Some n \<Rightarrow> 0 \<le> n \<and> n \<le> 5000)"

definition Student_validate :: "student \<Rightarrow> bool" where
  "Student_validate d =
     (name d \<noteq> [] \<and> 2 \<le> length (name d) \<and> length (name d) \<le> 100
      \<and> email d \<noteq> [] \<and> matches_email (email d)
      \<and> phoneNumber d \<noteq> [] \<and> matches_phone (phoneNumber d)
      \<and> codeforcesHandle d \<noteq> [] \<and> 3 \<le> length (codeforcesHandle d)
      \<and> length (codeforcesHandle d) \<le> 24 \<and> matches_handle (codeforcesHandle d)
      \<and> rating_in_range (currentRating d) \<and> rating_in_range (maxRating d)
      \<and> 0 \<le> reminderEmailCount d)"

text \<open>Casting a string to an ObjectId succeeds on 24 hexadecimal digits; on any other
  string the query rejects with a \<^verbatim>\<open>CastError\<close>.\<close>

definition isObjectId :: "string \<Rightarrow> bool" where
  "isObjectId s = (length s = 24 \<and> list_all (List.member ''0123456789abcdefABCDEF'') s)"

definition CastError :: "string \<Rightarrow> string" where
  "CastError v =
     ''Cast to ObjectId failed for value '' @ [CHR 0x22] @ v @ [CHR 0x22]
       @ '' (type string) at path '' @ [CHR 0x22] @ ''_id'' @ [CHR 0x22]
       @ '' for model '' @ [CHR 0x22] @ ''Student'' @ [CHR 0x22]"

section \<open>Sync engine: record reconciliation\<close>

definition Submission_exists :: "int \<Rightarrow> SubmissionDoc list \<Rightarrow> bool" where
  "Submission_exists i store = list_ex (\<lambda>d. d_submissionId d = i) store"

text \<open>The document \<^verbatim>\<open>Submission.create\<close> is called with, and the call itself, which
  validates the document before it is inserted.\<close>

definition Submission_doc :: "string \<Rightarrow> objectId \<Rightarrow> ISubmission \<Rightarrow> SubmissionDoc" where
  "Submission_doc handle studentId s =
     \<lparr> d_studentId = studentId,
       d_codeforcesHandle = handle,
       d_submissionId = s_id s,
       d_contestId = s_contestId s,
       d_creationTimeSeconds = s_creationTimeSeconds s,
       d_relativeTimeSeconds = s_relativeTimeSeconds s,
       d_problem = s_problem s,
       d_author = s_author s,
       d_programmingLanguage = s_programmingLanguage s,
       d_verdict = s_verdict s,
       d_testset = s_testset s,
       d_passedTestCount = s_passedTestCount s,
       d_timeConsumedMillis = s_timeConsumedMillis s,
       d_memoryConsumedBytes = s_memoryConsumedBytes s \<rparr>"

definition Submission_create :: "string \<Rightarrow> objectId \<Rightarrow> ISubmission \<Rightarrow> string + SubmissionDoc" where
  "Submission_create handle studentId s =
     (if Submission_validate (Submission_doc handle studentId s)
      then Inr (Submission_doc handle studentId s)
      else Inl SubmissionValidationFailed)"

text \<open>The \<^verbatim>\<open>for (const s of submissions)\<close> loop of \<^verbatim>\<open>syncSubmissions\<close>: the
  collection and the counter \<^verbatim>\<open>added\<close> are threaded through. When
  \<^verbatim>\<open>Submission.create\<close> throws, the loop ends there: the result is the error, and the
  collection keeps what was inserted before.\<close>

fun syncSubmissions_loop ::
  "string \<Rightarrow> objectId \<Rightarrow> ISubmission list \<Rightarrow> SubmissionDoc list \<Rightarrow> nat
     \<Rightarrow> (string + nat) \<times> SubmissionDoc list"
where
  "syncSubmissions_loop handle studentId [] store added = (Inr added, store)"
| "syncSubmissions_loop handle studentId (s # ss) store added =
     (if Submission_exists (s_id s) store
      then syncSubmissions_loop handle studentId ss store added
      else (case Submission_create handle studentId s of
              Inl e \<Rightarrow> (Inl e, store)
            | Inr d \<Rightarrow> syncSubmissions_loop handle studentId ss (store @ [d]) (added + 1)))"

definition RatingChange_exists :: "string \<Rightarrow> int \<Rightarrow> RatingChangeDoc list \<Rightarrow> bool" where
  "RatingChange_exists handle cid store =
     list_ex (\<lambda>d. r_codeforcesHandle d = handle \<and> r_contestId d = cid) store"

definition RatingChange_doc ::
  "string \<Rightarrow> objectId \<Rightarrow> CodeforcesRatingChange \<Rightarrow> RatingChangeDoc" where
  "RatingChange_doc handle studentId rc =
     \<lparr> r_studentId = studentId,
       r_codeforcesHandle = handle,
       r_contestId = rc_contestId rc,
       r_contestName = rc_contestName rc,
       r_handle = rc_handle rc,
       r_rank = rc_rank rc,
       r_ratingUpdateTimeSeconds = rc_ratingUpdateTimeSeconds rc,
       r_oldRating = rc_oldRating rc,
       r_newRating = rc_newRating rc \<rparr>"

definition RatingChange_create ::
  "string \<Rightarrow> objectId \<Rightarrow> CodeforcesRatingChange \<Rightarrow> string + RatingChangeDoc" where
  "RatingChange_create handle studentId rc =
     (if RatingChange_validate (RatingChange_doc handle studentId rc)
      then Inr (RatingChange_doc handle studentId rc)
      else Inl RatingChangeValidationFailed)"

fun syncRatingChanges_loop ::
  "string \<Rightarrow> objectId \<Rightarrow> CodeforcesRatingChange list \<Rightarrow> RatingChangeDoc list \<Rightarrow> nat
     \<Rightarrow> (string + nat) \<times> RatingChangeDoc list"
where
  "syncRatingChanges_loop handle studentId [] store added = (Inr added, store)"
| "syncRatingChanges_loop handle studentId (rc # rcs) store added =
     (if RatingChange_exists handle (rc_contestId rc) store
      then syncRatingChanges_loop handle studentId rcs store added
      else (case RatingChange_create handle studentId rc of
              Inl e \<Rightarrow> (Inl e, store)
            | Inr d \<Rightarrow> syncRatingChanges_loop handle studentId rcs (store @ [d]) (added + 1)))"

definition syncRatingChanges ::
  "string \<Rightarrow> objectId \<Rightarrow> CodeforcesRatingChange list \<Rightarrow> world \<Rightarrow> (string + nat) \<times> world" where
  "syncRatingChanges handle studentId changes w =
     (let (res, store) = syncRatingChanges_loop handle studentId changes (ratingChanges w) 0
      in (res, w\<lparr>ratingChanges := store\<rparr>))"

definition syncSubmissions ::
  "remote \<Rightarrow> string \<Rightarrow> objectId \<Rightarrow> world \<Rightarrow> (string + nat) \<times> world" where
  "syncSubmissions r handle studentId w =
     (case getUserSubmissions r handle None None w of
        (Inl e, w1) \<Rightarrow> (Inl e, w1)
      | (Inr subs, w1) \<Rightarrow>
          (let (res, store) = syncSubmissions_loop handle studentId subs (submissions w1) 0
           in (res, w1\<lparr>submissions := store\<rparr>)))"

text \<open>Replace the first element that satisfies the filter, as \<^verbatim>\<open>updateOne\<close> does.\<close>

fun updateFirst :: "('a \<Rightarrow> bool) \<Rightarrow> ('a \<Rightarrow> 'a) \<Rightarrow> 'a list \<Rightarrow> 'a list" where
  "updateFirst P f [] = []"
| "updateFirst P f (x # xs) = (if P x then f x # xs else x # updateFirst P f xs)"

text \<open>\<^verbatim>\<open>Contest.updateOne({ contestId }, c, { upsert: true })\<close>: the fields \<^verbatim>\<open>c\<close>
  defines are set on the first contest with that id; without a match \<^verbatim>\<open>c\<close> is
  inserted. The second component is \<^verbatim>\<open>upsertedCount\<close>.\<close>

definition Contest_upsert :: "IContest \<Rightarrow> IContest list \<Rightarrow> IContest list \<times> nat" where
  "Contest_upsert c store =
     (if list_ex (\<lambda>d. c_contestId d = c_contestId c) store
      then (updateFirst (\<lambda>d. c_contestId d = c_contestId c)
              (\<lambda>d. c\<lparr>c_relativeTimeSeconds :=
                       (case c_relativeTimeSeconds c of
                          None \<Rightarrow> c_relativeTimeSeconds d
                        | Some v \<Rightarrow> Some v)\<rparr>) store, 0)
      else (store @ [c], 1))"

fun syncContests_loop :: "IContest list \<Rightarrow> IContest list \<Rightarrow> nat \<Rightarrow> IContest list \<times> nat" where
  "syncContests_loop [] store inserted = (store, inserted)"
| "syncContests_loop (c # cs) store inserted =
     (let (store', upsertedCount) = Contest_upsert c store
      in syncContests_loop cs store'
           (if upsertedCount \<noteq> 0 then inserted + 1 else inserted))"

text \<open>\<^verbatim>\<open>syncContests\<close>: an error of the contest-list request is caught, logged and
  turned into the count 0.\<close>

definition syncContests :: "remote \<Rightarrow> world \<Rightarrow> nat \<times> world" where
  "syncContests r w =
     (case getContests r (Some False) w of
        (Inl e, w1) \<Rightarrow> (0, w1)
      | (Inr cs, w1) \<Rightarrow>
          (let (store, inserted) = syncContests_loop cs (contests w1) 0
           in (inserted, w1\<lparr>contests := store\<rparr>)))"

text \<open>\<^verbatim>\<open>updateStudentRatings\<close>: only the fields present in the remote profile enter
  the update document; an empty update document issues no \<^verbatim>\<open>updateOne\<close>.\<close>

definition updateStudentRatings :: "objectId \<Rightarrow> CodeforcesUser \<Rightarrow> world \<Rightarrow> world" where
  "updateStudentRatings studentId user w =
     (if u_rating user = None \<and> u_maxRating user = None then w
      else w\<lparr>students :=
             updateFirst (\<lambda>s. sid s = studentId)
               (\<lambda>s. s\<lparr>currentRating :=
                        (case u_rating user of None \<Rightarrow> currentRating s | Some v \<Rightarrow> Some v),
                      maxRating :=
                        (case u_maxRating user of None \<Rightarrow> maxRating s | Some v \<Rightarrow> Some v)\<rparr>)
               (students w)\<rparr>)"

section \<open>Student documents: pre-save hook and save\<close>

text \<open>JavaScript truthiness of a rating (\<^verbatim>\<open>null\<close> and \<^verbatim>\<open>0\<close> are falsy) and its
  value in a numeric comparison (\<^verbatim>\<open>null\<close> counts as 0).\<close>

definition truthy :: "int option \<Rightarrow> bool" where
  "truthy v = (case v of None \<Rightarrow> False | Some n \<Rightarrow> n \<noteq> 0)"

text \<open>The hook of models/Student.ts:
  \<^verbatim>\<open>if (this.currentRating && (!this.maxRating || this.currentRating > this.maxRating))
    this.maxRating = this.currentRating\<close>.\<close>

definition js_num :: "int option \<Rightarrow> int" where
  "js_num v = (case v of None \<Rightarrow> 0 | Some n \<Rightarrow> n)"

definition preSave :: "student \<Rightarrow> student" where
  "preSave d =
     (if truthy (currentRating d) \<and>
         (\<not> truthy (maxRating d) \<or> js_num (currentRating d) > js_num (maxRating d))
      then d\<lparr>maxRating := currentRating d\<rparr>
      else d)"

text \<open>
  \<^verbatim>\<open>doc.save()\<close> on a document that was loaded from the store as \<open>loaded\<close> and
  has since been changed in memory to \<open>doc\<close>. Validation comes first and looks at
  the in-memory document; then the hook runs on it; then the paths whose value differs
  from the loaded one are written to the stored document with the same id. Saving a
  document that is no longer stored is an error.
\<close>

definition DocumentNotFound :: string where
  "DocumentNotFound = ''No document found for query''"

definition Student_save :: "student \<Rightarrow> student \<Rightarrow> world \<Rightarrow> string + world" where
  "Student_save loaded doc w =
     (if \<not> Student_validate doc then Inl StudentValidationFailed
      else
        (let d = preSave doc
         in if list_ex (\<lambda>s. sid s = sid d) (students w)
            then Inr (w\<lparr>students :=
                   updateFirst (\<lambda>s. sid s = sid d)
                     (\<lambda>s. s\<lparr>name := (if name d \<noteq> name loaded then name d else name s),
                            email := (if email d \<noteq> email loaded then email d else email s),
                            phoneNumber :=
                              (if phoneNumber d \<noteq> phoneNumber loaded
                               then phoneNumber d else phoneNumber s),
                            codeforcesHandle :=
                              (if codeforcesHandle d \<noteq> codeforcesHandle loaded
                               then codeforcesHandle d else codeforcesHandle s),
                            currentRating :=
                              (if currentRating d \<noteq> currentRating loaded
                               then currentRating d else currentRating s),
                            maxRating :=
                              (if maxRating d \<noteq> maxRating loaded
                               then maxRating d else maxRating s),
                            lastDataUpdate :=
                              (if lastDataUpdate d \<noteq> lastDataUpdate loaded
                               then lastDataUpdate d else lastDataUpdate s),
                            emailNotificationsEnabled :=
                              (if emailNotificationsEnabled d \<noteq> emailNotificationsEnabled loaded
                               then emailNotificationsEnabled d else emailNotificationsEnabled s),
                            reminderEmailCount :=
                              (if reminderEmailCount d \<noteq> reminderEmailCount loaded
                               then reminderEmailCount d else reminderEmailCount s)\<rparr>)
                     (students w)\<rparr>)
            else Inl DocumentNotFound))"

section \<open>Sync engine: one user, all users\<close>

record SyncSummary =
  submissionsAdded :: nat
  ratingChangesAdded :: nat
  contestsAdded :: nat
  sum_currentRating :: "int option"
  sum_maxRating :: "int option"

record SyncResult =
  success :: bool
  message :: string
  data :: "SyncSummary option"
  error :: "string option"

text \<open>\<^verbatim>\<open>Student.findById\<close> and \<^verbatim>\<open>Student.findOne({ codeforcesHandle })\<close>.\<close>

definition Student_findById :: "string \<Rightarrow> world \<Rightarrow> string + student option" where
  "Student_findById studentId w =
     (if isObjectId studentId then Inr (find (\<lambda>s. sid s = studentId) (students w))
      else Inl (CastError studentId))"

definition Student_findOne :: "string \<Rightarrow> world \<Rightarrow> student option" where
  "Student_findOne handle w = find (\<lambda>s. codeforcesHandle s = handle) (students w)"

text \<open>The \<^verbatim>\<open>catch\<close> block of \<^verbatim>\<open>syncHandle\<close>.\<close>

definition syncFailed :: "string \<Rightarrow> string \<Rightarrow> SyncResult" where
  "syncFailed handle err =
     \<lparr> success = False, message = ''Sync failed for '' @ quoted handle,
       data = None, error = Some err \<rparr>"

text \<open>Steps 1 to 4 of \<^verbatim>\<open>syncHandle\<close>, once the student document is at hand.\<close>

definition syncHandle_steps :: "remote \<Rightarrow> string \<Rightarrow> student \<Rightarrow> world \<Rightarrow> SyncResult \<times> world" where
  "syncHandle_steps r handle st w =
     (case validateHandle r handle w of
        (False, w1) \<Rightarrow>
          (\<lparr> success = False, message = ''Invalid handle '' @ quoted handle,
             data = None, error = None \<rparr>, w1)
      | (True, w1) \<Rightarrow>
          (case getUserStats r handle w1 of
             (Inl e, w2) \<Rightarrow> (syncFailed handle e, w2)
           | (Inr stats, w2) \<Rightarrow>
               (let (contestsAdded', w3) = syncContests r w2
                in case syncSubmissions r handle (sid st) w3 of
                     (Inl e, w4) \<Rightarrow> (syncFailed handle e, w4)
                   | (Inr submissionsAdded', w4) \<Rightarrow>
                       (case syncRatingChanges handle (sid st) (st_ratingChanges stats) w4 of
                          (Inl e, w5) \<Rightarrow> (syncFailed handle e, w5)
                        | (Inr ratingChangesAdded', w5) \<Rightarrow>
                            (let w6 = updateStudentRatings (sid st) (st_user stats) w5
                             in case Student_save st (st\<lparr>lastDataUpdate := Some (now w6)\<rparr>) w6 of
                                  Inl e \<Rightarrow> (syncFailed handle e, w6)
                                | Inr w7 \<Rightarrow>
                                    (\<lparr> success = True,
                                       message = ''Synced '' @ quoted handle @ '' successfully'',
                                       data = Some
                                         \<lparr> submissionsAdded = submissionsAdded',
                                           ratingChangesAdded = ratingChangesAdded',
                                           contestsAdded = contestsAdded',
                                           sum_currentRating = u_rating (st_user stats),
                                           sum_maxRating = u_maxRating (st_user stats) \<rparr>,
                                       error = None \<rparr>, w7))))))"

definition syncHandle ::
  "remote \<Rightarrow> string \<Rightarrow> student option \<Rightarrow> world \<Rightarrow> SyncResult \<times> world" where
  "syncHandle r handle student w =
     (case student of
        Some st \<Rightarrow> syncHandle_steps r handle st w
      | None \<Rightarrow>
          (case Student_findOne handle w of
             None \<Rightarrow>
               (\<lparr> success = False, message = ''No student with handle '' @ handle,
                  data = None, error = None \<rparr>, w)
           | Some st \<Rightarrow> syncHandle_steps r handle st w))"

text \<open>\<^verbatim>\<open>syncStudentData\<close> has no \<^verbatim>\<open>try\<close>: when \<^verbatim>\<open>findById\<close> rejects, so does
  the call (\<open>Inl\<close>).\<close>

definition syncStudentData ::
  "remote \<Rightarrow> string \<Rightarrow> world \<Rightarrow> (string + SyncResult) \<times> world" where
  "syncStudentData r studentId w =
     (case Student_findById studentId w of
        Inl e \<Rightarrow> (Inl e, w)
      | Inr None \<Rightarrow>
          (Inr \<lparr> success = False, message = ''Student not found'', data = None, error = None \<rparr>,
           w)
      | Inr (Some st) \<Rightarrow>
          (let (result, w') = syncHandle r (codeforcesHandle st) (Some st) w
           in (Inr result, w')))"

definition STUDENT_DELAY_MS :: nat where
  "STUDENT_DELAY_MS = 1000"

record SyncEntry =
  e_studentId :: string
  e_handle :: string
  e_result :: SyncResult

record GlobalSyncStats =
  totalStudents :: nat
  successfulSyncs :: nat
  failedSyncs :: nat
  results :: "SyncEntry list"

text \<open>The \<^verbatim>\<open>for (const student of students)\<close> loop of \<^verbatim>\<open>syncAllStudents\<close>; the
  accumulator holds \<^verbatim>\<open>results\<close>, \<^verbatim>\<open>successfulSyncs\<close> and \<^verbatim>\<open>failedSyncs\<close>.\<close>

fun syncAllStudents_loop ::
  "remote \<Rightarrow> student list \<Rightarrow> SyncEntry list \<times> nat \<times> nat \<Rightarrow> world
     \<Rightarrow> (SyncEntry list \<times> nat \<times> nat) \<times> world"
where
  "syncAllStudents_loop r [] acc w = (acc, w)"
| "syncAllStudents_loop r (st # sts) (res, ok, failed) w =
     (let (x, w1) = syncHandle r (codeforcesHandle st) (Some st) w;
          res' = res @ [\<lparr> e_studentId = sid st, e_handle = codeforcesHandle st, e_result = x \<rparr>];
          w2 = delay STUDENT_DELAY_MS w1
      in syncAllStudents_loop r sts
           (res', if success x then ok + 1 else ok, if success x then failed else failed + 1) w2)"

definition syncAllStudents :: "remote \<Rightarrow> world \<Rightarrow> GlobalSyncStats \<times> world" where
  "syncAllStudents r w =
     (let sts = students w;
          ((res, ok, failed), w') = syncAllStudents_loop r sts ([], 0, 0) w
      in (\<lparr> totalStudents = length sts, successfulSyncs = ok, failedSyncs = failed,
            results = res \<rparr>, w'))"

section \<open>Scheduler\<close>

text \<open>
  \<^verbatim>\<open>CronJobStatus\<close> without \<^verbatim>\<open>nextRun\<close>, which is a display value computed from
  the schedule string. The scheduler state holds the store, the job status and the error,
  if any, with which the scheduler's \<^verbatim>\<open>Student.find\<close> rejects.
\<close>

record SyncRunResult =
  lr_success :: bool
  studentsProcessed :: nat
  errors :: nat
  duration :: int

record CronJobStatus =
  isRunning :: bool
  lastRun :: "date option"
  lastResult :: "SyncRunResult option"
  schedule :: string
  enabled :: bool

record scheduler =
  db :: world
  jobStatus :: CronJobStatus
  findError :: "string option"

definition getAllStudents :: "scheduler \<Rightarrow> string + student list" where
  "getAllStudents sys =
     (case findError sys of Some e \<Rightarrow> Inl e | None \<Rightarrow> Inr (students (db sys)))"

text \<open>\<^verbatim>\<open>getStudentsNeedingUpdate\<close>; \<open>hoursThreshold\<close> is the parsed
  \<^verbatim>\<open>SYNC_THRESHOLD_HOURS\<close>.\<close>

definition getStudentsNeedingUpdate :: "int \<Rightarrow> scheduler \<Rightarrow> string + student list" where
  "getStudentsNeedingUpdate hoursThreshold sys =
     (let thresholdTime = now (db sys) - hoursThreshold * 60 * 60 * 1000
      in case findError sys of
           Some e \<Rightarrow> Inl e
         | None \<Rightarrow>
             Inr (filter (\<lambda>s. case lastDataUpdate s of
                                None \<Rightarrow> True
                              | Some t \<Rightarrow> t < thresholdTime) (students (db sys))))"

text \<open>
  \<^verbatim>\<open>executeSync\<close> is an asynchronous function: between its start and its return it
  is suspended at every \<^verbatim>\<open>await\<close>, and other callbacks, a second \<^verbatim>\<open>executeSync\<close>
  among them, run on the state it has left. Its model therefore yields the list of the
  states in which it is suspended, in order, followed by the state in which it returns.

  The loop over the selected students threads \<^verbatim>\<open>processed\<close> and \<^verbatim>\<open>errors\<close> and
  lists the stores in which it resumes: after each awaited \<^verbatim>\<open>syncStudentData\<close> and
  after each awaited delay. When \<^verbatim>\<open>syncStudentData\<close> throws, the inner \<^verbatim>\<open>catch\<close>
  counts an error and the delay of that round is skipped.
\<close>

fun executeSync_loop ::
  "remote \<Rightarrow> student list \<Rightarrow> nat \<times> nat \<Rightarrow> world \<Rightarrow> (nat \<times> nat) \<times> world list" where
  "executeSync_loop r [] acc w = (acc, [])"
| "executeSync_loop r (st # sts) (processed, errs) w =
     (case syncStudentData r (sid st) w of
        (Inl e, w1) \<Rightarrow>
          (let (acc, ws) = executeSync_loop r sts (processed, errs + 1) w1
           in (acc, w1 # ws))
      | (Inr result, w1) \<Rightarrow>
          (let w2 = delay 1000 w1;
               (acc, ws) = executeSync_loop r sts
                             (if success result then (processed + 1, errs)
                              else (processed, errs + 1)) w2
           in (acc, w1 # w2 # ws)))"

text \<open>The \<^verbatim>\<open>finally\<close> block.\<close>

definition executeSync_finally :: "scheduler \<Rightarrow> scheduler" where
  "executeSync_finally sys = sys\<lparr>jobStatus := (jobStatus sys)\<lparr>isRunning := False\<rparr>\<rparr>"

definition executeSync :: "remote \<Rightarrow> int \<Rightarrow> bool \<Rightarrow> scheduler \<Rightarrow> scheduler list" where
  "executeSync r hoursThreshold forceAll sys =
     (if isRunning (jobStatus sys) then [sys]
      else
        (let startTime = now (db sys);
             sys1 = sys\<lparr>jobStatus := (jobStatus sys)\<lparr>isRunning := True, lastRun := Some startTime\<rparr>\<rparr>
         in sys1 #
            (case (if forceAll then getAllStudents sys1
                   else getStudentsNeedingUpdate hoursThreshold sys1) of
               Inl e \<Rightarrow>
                 [executeSync_finally
                    (sys1\<lparr>jobStatus := (jobStatus sys1)\<lparr>lastResult := Some
                       \<lparr> lr_success = False, studentsProcessed = 0, errors = 1,
                         duration = now (db sys1) - startTime \<rparr>\<rparr>\<rparr>)]
             | Inr studentsNeedingUpdate \<Rightarrow>
                 if length studentsNeedingUpdate = 0
                 then [executeSync_finally
                         (sys1\<lparr>jobStatus := (jobStatus sys1)\<lparr>lastResult := Some
                            \<lparr> lr_success = True, studentsProcessed = 0, errors = 0,
                              duration = now (db sys1) - startTime \<rparr>\<rparr>\<rparr>)]
                 else
                   (let ((processed, errs), ws) =
                          executeSync_loop r studentsNeedingUpdate (0, 0) (db sys1);
                        w' = last (db sys1 # ws)
                    in map (\<lambda>w. sys1\<lparr>db := w\<rparr>) ws @
                       [executeSync_finally
                          (sys1\<lparr>db := w',
                                jobStatus := (jobStatus sys1)\<lparr>lastResult := Some
                                  \<lparr> lr_success = (errs = 0), studentsProcessed = processed,
                                    errors = errs, duration = now w' - startTime \<rparr>\<rparr>\<rparr>)]))))"



section \<open>Notions used in the statements\<close>

text \<open>The world after one request to \<open>endpoint\<close> has been made from \<open>w\<close>.\<close>

definition issued :: "string \<Rightarrow> world \<Rightarrow> world" where
  "issued endpoint w =
     w\<lparr>now := now w + int REQUEST_DELAY, requests := requests w + 1,
       trace := trace w @ [Delay REQUEST_DELAY, Get (BASE_URL @ endpoint)]\<rparr>"

text \<open>The dedup key of a stored rating change.\<close>

definition rc_key :: "RatingChangeDoc \<Rightarrow> string \<times> int" where
  "rc_key d = (r_codeforcesHandle d, r_contestId d)"

subsection \<open>Pacing of a trace\<close>

text \<open>A list of events is paced when every GET in it comes directly after a wait of
  \<^verbatim>\<open>REQUEST_DELAY\<close> milliseconds; \<open>paced_step w w'\<close> says that the trace of
  \<open>w'\<close> continues the trace of \<open>w\<close> by a paced list of events.\<close>

fun paced :: "event list \<Rightarrow> bool" where
  "paced [] = True"
| "paced (Delay d # Get u # es) = (d = REQUEST_DELAY \<and> paced es)"
| "paced (Delay d # es) = paced es"
| "paced (Get u # es) = False"

definition paced_step :: "world \<Rightarrow> world \<Rightarrow> bool" where
  "paced_step w w' =
     (take (length (trace w)) (trace w') = trace w \<and> paced (drop (length (trace w)) (trace w')))"

subsection \<open>Sample data\<close>

definition ex_id :: objectId where
  "ex_id = ''64b7f0000000000000000001''"


definition ex_problem :: problem where
  "ex_problem = \<lparr> p_contestId = Some 1, p_index = ''A'', p_name = ''Theatre Square'',
       p_type = ''PROGRAMMING'', p_rating = Some 1000, p_tags = [''math''] \<rparr>"

definition ex_author :: author where
  "ex_author = \<lparr> a_contestId = Some 1, a_members = [''tourist''],
       a_participantType = ''PRACTICE'', a_ghost = False, a_startTimeSeconds = None \<rparr>"

definition ex_submission :: "int \<Rightarrow> ISubmission" where
  "ex_submission i = \<lparr> s_id = i, s_contestId = Some 1, s_creationTimeSeconds = 1700000000,
       s_relativeTimeSeconds = 2147483647, s_problem = ex_problem, s_author = ex_author,
       s_programmingLanguage = ''GNU C++17'', s_verdict = ''OK'', s_testset = ''TESTS'',
       s_passedTestCount = 20, s_timeConsumedMillis = 15, s_memoryConsumedBytes = 0 \<rparr>"

definition ex_change :: "int \<Rightarrow> CodeforcesRatingChange" where
  "ex_change c = \<lparr> rc_contestId = c, rc_contestName = ''Round'', rc_handle = ''tourist'',
       rc_rank = 1, rc_ratingUpdateTimeSeconds = 1700000000, rc_oldRating = 1500,
       rc_newRating = 1600 \<rparr>"

definition ex_contest :: IContest where
  "ex_contest = \<lparr> c_contestId = 1, c_contestName = ''Round'', c_phase = ''FINISHED'',
       c_frozen = False, c_durationSeconds = 7200, c_startTimeSeconds = 1700000000,
       c_relativeTimeSeconds = None \<rparr>"

definition ex_user :: CodeforcesUser where
  "ex_user = \<lparr> u_handle = ''tourist'', u_rating = Some 1600, u_maxRating = Some 1700 \<rparr>"

definition ex_remote :: remote where
  "ex_remote = \<lparr> user_info = (\<lambda>n ep. HttpResponse ''OK'' None (Some [ex_user])),
       user_rating = (\<lambda>n ep. HttpResponse ''OK'' None (Some [ex_change 1])),
       user_status = (\<lambda>n ep. HttpResponse ''OK'' None (Some [ex_submission 10, ex_submission 11])),
       contest_list = (\<lambda>n ep. HttpResponse ''OK'' None (Some [ex_contest])) \<rparr>"

definition ex_student :: student where
  "ex_student = \<lparr> sid = ex_id, name = ''Gennady'', email = ''gennady@example.com'',
       phoneNumber = ''+375291234567'', codeforcesHandle = ''tourist'',
       currentRating = None, maxRating = None, lastDataUpdate = None,
       emailNotificationsEnabled = True, reminderEmailCount = 0 \<rparr>"

definition ex_world :: world where
  "ex_world = \<lparr> students = [ex_student], contests = [],
       submissions = [Submission_doc ''tourist'' ex_id (ex_submission 10)],
       ratingChanges = [], now = 1700000000000, requests = 0, trace = [] \<rparr>"

text \<open>Remote sides on which one kind of request fails with HTTP status 503.\<close>

definition unavailable :: "'a http_outcome" where
  "unavailable = AxiosError (Some 503) None ''Request failed with status code 503''"

definition no_contests_remote :: remote where
  "no_contests_remote = ex_remote\<lparr>contest_list := (\<lambda>n ep. unavailable)\<rparr>"

definition no_profile_remote :: remote where
  "no_profile_remote = ex_remote\<lparr>user_info := (\<lambda>n ep. unavailable)\<rparr>"

definition late_profile_remote :: remote where
  "late_profile_remote =
     ex_remote\<lparr>user_info := (\<lambda>n ep. if n = 0 then user_info ex_remote n ep else unavailable)\<rparr>"

definition no_status_remote :: remote where
  "no_status_remote =
     ex_remote\<lparr>user_status := (\<lambda>n ep. if n = 6 then unavailable else user_status ex_remote n ep)\<rparr>"

text \<open>A student whose stored current rating has no stored maximum beside it, and a student
  whose data was refreshed at the very moment the clock shows.\<close>

definition stale_student :: student where
  "stale_student = ex_student\<lparr>currentRating := Some 1500\<rparr>"

definition stale_world :: world where
  "stale_world = ex_world\<lparr>students := [stale_student]\<rparr>"

definition fresh_student :: student where
  "fresh_student = ex_student\<lparr>lastDataUpdate := Some 1700000000000\<rparr>"

definition fresh_world :: world where
  "fresh_world = ex_world\<lparr>students := [fresh_student]\<rparr>"

text \<open>Scheduler states: idle, in the middle of a run, and with a failing student query.\<close>

definition idle :: CronJobStatus where
  "idle = \<lparr> isRunning = False, lastRun = None, lastResult = None,
            schedule = ''0 2 * * *'', enabled = True \<rparr>"

definition fresh_sys :: scheduler where
  "fresh_sys = \<lparr> db = fresh_world, jobStatus = idle, findError = None \<rparr>"

definition busy_sys :: scheduler where
  "busy_sys = fresh_sys\<lparr>jobStatus := idle\<lparr>isRunning := True\<rparr>\<rparr>"

definition faulty_sys :: scheduler where
  "faulty_sys = fresh_sys\<lparr>findError := Some ''connection lost''\<rparr>"

text \<open>A remote whose submission list holds a record without a verdict before a complete
  one.\<close>

definition unjudged_remote :: remote where
  "unjudged_remote =
     ex_remote\<lparr>user_status := (\<lambda>n ep. HttpResponse ''OK'' None
        (Some [(ex_submission 11)\<lparr>s_verdict := []\<rparr>, ex_submission 12]))\<rparr>"

section \<open>Properties of the remote client\<close>

lemma issued_simps [simp]:
  "students (issued ep w) = students w"
  "contests (issued ep w) = contests w"
  "submissions (issued ep w) = submissions w"
  "ratingChanges (issued ep w) = ratingChanges w"
  "requests (issued ep w) = Suc (requests w)"
  "now (issued ep w) = now w + int REQUEST_DELAY"
  "trace (issued ep w) = trace w @ [Delay REQUEST_DELAY, Get (BASE_URL @ ep)]"
  by (simp_all add: issued_def)

lemma makeRequest_world: "snd (makeRequest api ep w) = issued ep w"
  by (simp add: makeRequest_def issued_def delay_def Let_def)

lemma makeRequest_eq:
  "makeRequest api ep w =
     (case makeRequest_try (api (requests w) ep) of
        Inl e \<Rightarrow> Inl (makeRequest_catch e) | Inr x \<Rightarrow> Inr x, issued ep w)"
  by (simp add: makeRequest_def issued_def delay_def Let_def)

lemma getUserInfo_world: "snd (getUserInfo r h w) = issued (''/user.info?handles='' @ h) w"
  using makeRequest_world [of "user_info r" "''/user.info?handles='' @ h" w]
  by (auto simp: getUserInfo_def split: prod.splits sum.splits option.splits list.splits)

lemma getUserRatingChanges_world:
  "snd (getUserRatingChanges r h w) = issued (''/user.rating?handle='' @ h) w"
  using makeRequest_world [of "user_rating r" "''/user.rating?handle='' @ h" w]
  by (auto simp: getUserRatingChanges_def split: prod.splits sum.splits option.splits)

lemma getUserSubmissions_world:
  "snd (getUserSubmissions r h None None w) = issued (''/user.status?handle='' @ h) w"
  using makeRequest_world [of "user_status r" "''/user.status?handle='' @ h" w]
  by (auto simp: getUserSubmissions_def split: prod.splits sum.splits option.splits)

lemma getUserSubmissions_world11:
  "snd (getUserSubmissions r h (Some 1) (Some 1) w) = issued (''/user.status?handle='' @ h @ ''&from=1&count=1'') w"
  using makeRequest_world [of "user_status r" "''/user.status?handle='' @ h @ ''&from=1&count=1''" w]
  by (auto simp: getUserSubmissions_def split: prod.splits sum.splits option.splits)

lemma getContests_world:
  "snd (getContests r (Some False) w) = issued ''/contest.list?gym=false'' w"
  using makeRequest_world [of "contest_list r" "''/contest.list?gym=false''" w]
  by (auto simp: getContests_def split: prod.splits sum.splits option.splits)

lemma getUserInfo_fst:
  "fst (getUserInfo r h w) =
     (case makeRequest_try (user_info r (requests w) (''/user.info?handles='' @ h)) of
        Inl e \<Rightarrow> Inl (makeRequest_catch e)
      | Inr None \<Rightarrow> Inl (''User '' @ quoted h @ '' not found'')
      | Inr (Some []) \<Rightarrow> Inl (''User '' @ quoted h @ '' not found'')
      | Inr (Some (u # us)) \<Rightarrow> Inr u)"
  by (simp add: getUserInfo_def makeRequest_eq split: sum.splits option.splits list.splits)

lemma getUserSubmissions_fst:
  "fst (getUserSubmissions r h None None w) =
     (case makeRequest_try (user_status r (requests w) (''/user.status?handle='' @ h)) of
        Inl e \<Rightarrow> if str_includes (makeRequest_catch e) ''not found'' then Inr []
                  else Inl (makeRequest_catch e)
      | Inr None \<Rightarrow> Inr []
      | Inr (Some subs) \<Rightarrow> Inr subs)"
  by (simp add: getUserSubmissions_def makeRequest_eq split: sum.splits option.splits)

lemma getContests_fst:
  "fst (getContests r (Some False) w) =
     (case makeRequest_try (contest_list r (requests w) ''/contest.list?gym=false'') of
        Inl e \<Rightarrow> Inl (makeRequest_catch e)
      | Inr None \<Rightarrow> Inr []
      | Inr (Some cs) \<Rightarrow> Inr cs)"
  by (simp add: getContests_def makeRequest_eq split: sum.splits option.splits)

lemma ok_try [simp]: "makeRequest_try (HttpResponse ''OK'' c res) = Inr res"
  by (simp add: makeRequest_try_def)

lemma unavailable_try [simp]:
  "makeRequest_try unavailable = Inl (Axios (Some 503) None ''Request failed with status code 503'')"
  by (simp add: unavailable_def makeRequest_try_def)

lemma unavailable_catch [simp]:
  "makeRequest_catch (Axios (Some 503) None m) = ''Codeforces API is temporarily unavailable''"
  by (simp add: makeRequest_catch_def)

section \<open>Properties of the record reconciliation\<close>

lemma Submission_exists_iff: "Submission_exists i store \<longleftrightarrow> i \<in> d_submissionId ` set store"
  by (auto simp: Submission_exists_def list_ex_iff)

lemma Submission_create_Inr:
  "Submission_create h i s = Inr d \<Longrightarrow>
     d = Submission_doc h i s \<and> d_submissionId d = s_id s \<and> Submission_validate d"
  by (auto simp: Submission_create_def Submission_doc_def split: if_splits)

lemma Submission_create_isl:
  "isl (Submission_create h i s) \<longleftrightarrow> \<not> Submission_validate (Submission_doc h i s)"
  by (simp add: Submission_create_def)

lemma syncSubmissions_loop_append:
  "syncSubmissions_loop h i (xs @ ys) store n =
     (case syncSubmissions_loop h i xs store n of
        (Inl e, st) \<Rightarrow> (Inl e, st)
      | (Inr a, st) \<Rightarrow> syncSubmissions_loop h i ys st a)"
  by (induction xs arbitrary: store n) (simp_all split: sum.splits)

lemma syncSubmissions_loop_snoc:
  "syncSubmissions_loop h i (pre @ [s]) store n =
     (case syncSubmissions_loop h i pre store n of
        (Inl e, st) \<Rightarrow> (Inl e, st)
      | (Inr a, st) \<Rightarrow>
          if Submission_exists (s_id s) st then (Inr a, st)
          else (case Submission_create h i s of
                  Inl e \<Rightarrow> (Inl e, st)
                | Inr d \<Rightarrow> (Inr (a + 1), st @ [d])))"
  by (simp add: syncSubmissions_loop_append split: prod.splits sum.splits)

lemma syncSubmissions_loop_inserted:
  "\<exists>ins. snd (syncSubmissions_loop h i xs store n) = store @ ins
       \<and> set ins \<subseteq> Submission_doc h i ` set xs
       \<and> d_submissionId ` set ins \<subseteq> s_id ` set xs - d_submissionId ` set store
       \<and> distinct (map d_submissionId ins)
       \<and> (\<forall>a. fst (syncSubmissions_loop h i xs store n) = Inr a \<longrightarrow>
             a = n + length ins
             \<and> d_submissionId ` set ins = s_id ` set xs - d_submissionId ` set store)"
proof (induction xs arbitrary: store n)
  case Nil
  then show ?case by simp
next
  case (Cons s ss)
  show ?case
  proof (cases "Submission_exists (s_id s) store")
    case True
    have step: "syncSubmissions_loop h i (s # ss) store n = syncSubmissions_loop h i ss store n"
      using True by simp
    obtain ins where ins: "snd (syncSubmissions_loop h i ss store n) = store @ ins"
        "set ins \<subseteq> Submission_doc h i ` set ss"
        "d_submissionId ` set ins \<subseteq> s_id ` set ss - d_submissionId ` set store"
        "distinct (map d_submissionId ins)"
        "\<forall>a. fst (syncSubmissions_loop h i ss store n) = Inr a \<longrightarrow>
             a = n + length ins
             \<and> d_submissionId ` set ins = s_id ` set ss - d_submissionId ` set store"
      using Cons.IH [of store n] by blast
    have old: "s_id s \<in> d_submissionId ` set store"
      using True by (simp add: Submission_exists_iff)
    have "set ins \<subseteq> Submission_doc h i ` set (s # ss)"
      using ins(2) by auto
    moreover have "d_submissionId ` set ins \<subseteq> s_id ` set (s # ss) - d_submissionId ` set store"
      using ins(3) by auto
    moreover have "\<forall>a. fst (syncSubmissions_loop h i (s # ss) store n) = Inr a \<longrightarrow>
             a = n + length ins
             \<and> d_submissionId ` set ins = s_id ` set (s # ss) - d_submissionId ` set store"
      unfolding step using ins(5) old by auto
    ultimately show ?thesis
      unfolding step using ins(1,4) by blast
  next
    case False
    have fresh: "s_id s \<notin> d_submissionId ` set store"
      using False by (simp add: Submission_exists_iff)
    show ?thesis
    proof (cases "Submission_create h i s")
      case (Inl e)
      then have "syncSubmissions_loop h i (s # ss) store n = (Inl e, store @ [])"
        using False by simp
      then show ?thesis by (intro exI [of _ "[]"]) simp
    next
      case (Inr d)
      have d: "d = Submission_doc h i s" "d_submissionId d = s_id s"
        using Submission_create_Inr [OF Inr] by blast+
      have step: "syncSubmissions_loop h i (s # ss) store n
                    = syncSubmissions_loop h i ss (store @ [d]) (n + 1)"
        using False Inr by simp
      obtain ins where ins:
          "snd (syncSubmissions_loop h i ss (store @ [d]) (n + 1)) = (store @ [d]) @ ins"
          "set ins \<subseteq> Submission_doc h i ` set ss"
          "d_submissionId ` set ins \<subseteq> s_id ` set ss - d_submissionId ` set (store @ [d])"
          "distinct (map d_submissionId ins)"
          "\<forall>a. fst (syncSubmissions_loop h i ss (store @ [d]) (n + 1)) = Inr a \<longrightarrow>
               a = (n + 1) + length ins
               \<and> d_submissionId ` set ins = s_id ` set ss - d_submissionId ` set (store @ [d])"
        using Cons.IH [of "store @ [d]" "n + 1"] by blast
      have "snd (syncSubmissions_loop h i (s # ss) store n) = store @ (d # ins)"
        unfolding step using ins(1) by simp
      moreover have "set (d # ins) \<subseteq> Submission_doc h i ` set (s # ss)"
        using ins(2) d(1) by auto
      moreover have "d_submissionId ` set (d # ins)
                       \<subseteq> s_id ` set (s # ss) - d_submissionId ` set store"
        using ins(3) d(2) fresh by auto
      moreover have "distinct (map d_submissionId (d # ins))"
        using ins(3,4) d(2) by auto
      moreover have "\<forall>a. fst (syncSubmissions_loop h i (s # ss) store n) = Inr a \<longrightarrow>
             a = n + length (d # ins)
             \<and> d_submissionId ` set (d # ins) = s_id ` set (s # ss) - d_submissionId ` set store"
        unfolding step using ins(5) d(2) fresh by auto
      ultimately show ?thesis by blast
    qed
  qed
qed

lemma syncSubmissions_loop_valid:
  "list_all (\<lambda>s. Submission_validate (Submission_doc h i s)) xs \<Longrightarrow>
     \<not> isl (fst (syncSubmissions_loop h i xs store n))"
  by (induction xs arbitrary: store n) (simp_all add: Submission_create_def)

lemma syncSubmissions_loop_thrown:
  "fst (syncSubmissions_loop h i xs store n) = Inl e \<Longrightarrow>
     \<exists>pre s post. xs = pre @ s # post
       \<and> \<not> isl (fst (syncSubmissions_loop h i pre store n))
       \<and> \<not> Submission_exists (s_id s) (snd (syncSubmissions_loop h i pre store n))
       \<and> Submission_create h i s = Inl e
       \<and> snd (syncSubmissions_loop h i xs store n) = snd (syncSubmissions_loop h i pre store n)"
proof (induction xs arbitrary: store n)
  case Nil
  then show ?case by simp
next
  case (Cons s ss)
  show ?case
  proof (cases "Submission_exists (s_id s) store")
    case True
    then have step: "\<And>ys. syncSubmissions_loop h i (s # ys) store n = syncSubmissions_loop h i ys store n"
      by simp
    obtain pre t post where IH: "ss = pre @ t # post"
        "\<not> isl (fst (syncSubmissions_loop h i pre store n))"
        "\<not> Submission_exists (s_id t) (snd (syncSubmissions_loop h i pre store n))"
        "Submission_create h i t = Inl e"
        "snd (syncSubmissions_loop h i ss store n) = snd (syncSubmissions_loop h i pre store n)"
      using Cons.IH [of store n] Cons.prems step by auto
    have "s # ss = (s # pre) @ t # post" using IH(1) by simp
    then show ?thesis
      using IH(2,3,4,5) step by metis
  next
    case False
    show ?thesis
    proof (cases "Submission_create h i s")
      case (Inl e')
      then have "e' = e" using Cons.prems False by simp
      then have "s # ss = [] @ s # ss"
          "\<not> isl (fst (syncSubmissions_loop h i [] store n))"
          "\<not> Submission_exists (s_id s) (snd (syncSubmissions_loop h i [] store n))"
          "Submission_create h i s = Inl e"
          "snd (syncSubmissions_loop h i (s # ss) store n) = snd (syncSubmissions_loop h i [] store n)"
        using False Inl by simp_all
      then show ?thesis by blast
    next
      case (Inr d)
      then have step: "\<And>ys. syncSubmissions_loop h i (s # ys) store n
                          = syncSubmissions_loop h i ys (store @ [d]) (n + 1)"
        using False by simp
      obtain pre t post where IH: "ss = pre @ t # post"
          "\<not> isl (fst (syncSubmissions_loop h i pre (store @ [d]) (n + 1)))"
          "\<not> Submission_exists (s_id t) (snd (syncSubmissions_loop h i pre (store @ [d]) (n + 1)))"
          "Submission_create h i t = Inl e"
          "snd (syncSubmissions_loop h i ss (store @ [d]) (n + 1))
             = snd (syncSubmissions_loop h i pre (store @ [d]) (n + 1))"
        using Cons.IH [of "store @ [d]" "n + 1"] Cons.prems step by auto
      have "s # ss = (s # pre) @ t # post" using IH(1) by simp
      then show ?thesis
        using IH(2,3,4,5) step by metis
    qed
  qed
qed

lemma syncSubmissions_loop_again:
  "syncSubmissions_loop h i xs store a = (res, store') \<Longrightarrow>
     syncSubmissions_loop h i xs store' b
       = (case res of Inl e \<Rightarrow> Inl e | Inr n \<Rightarrow> Inr b, store')"
proof (induction xs arbitrary: store a)
  case Nil
  then show ?case by auto
next
  case (Cons s ss)
  obtain ins where ext: "store' = store @ ins"
    using syncSubmissions_loop_inserted [of h i "s # ss" store a] Cons.prems by auto
  show ?case
  proof (cases "Submission_exists (s_id s) store")
    case True
    then have "Submission_exists (s_id s) store'"
      unfolding ext by (auto simp: Submission_exists_iff)
    moreover have "syncSubmissions_loop h i ss store a = (res, store')"
      using Cons.prems True by simp
    ultimately show ?thesis using Cons.IH by simp
  next
    case False
    show ?thesis
    proof (cases "Submission_create h i s")
      case (Inl e)
      then show ?thesis using Cons.prems False by auto
    next
      case (Inr d)
      then have run: "syncSubmissions_loop h i ss (store @ [d]) (a + 1) = (res, store')"
        using Cons.prems False by simp
      obtain ins' where "store' = (store @ [d]) @ ins'"
        using syncSubmissions_loop_inserted [of h i ss "store @ [d]" "a + 1"] run by auto
      then have "Submission_exists (s_id s) store'"
        using Submission_create_Inr [OF Inr] by (auto simp: Submission_exists_iff)
      then show ?thesis using Cons.IH [OF run] by simp
    qed
  qed
qed

lemma RatingChange_exists_iff:
  "RatingChange_exists h c store \<longleftrightarrow> (h, c) \<in> rc_key ` set store"
  by (auto simp: RatingChange_exists_def list_ex_iff rc_key_def)

lemma RatingChange_create_Inr:
  "RatingChange_create h i s = Inr d \<Longrightarrow>
     d = RatingChange_doc h i s \<and> rc_key d = (h, rc_contestId s) \<and> RatingChange_validate d"
  by (auto simp: RatingChange_create_def RatingChange_doc_def rc_key_def split: if_splits)

lemma RatingChange_create_isl:
  "isl (RatingChange_create h i s) \<longleftrightarrow> \<not> RatingChange_validate (RatingChange_doc h i s)"
  by (simp add: RatingChange_create_def)

lemma syncRatingChanges_loop_append:
  "syncRatingChanges_loop h i (xs @ ys) store n =
     (case syncRatingChanges_loop h i xs store n of
        (Inl e, st) \<Rightarrow> (Inl e, st)
      | (Inr a, st) \<Rightarrow> syncRatingChanges_loop h i ys st a)"
  by (induction xs arbitrary: store n) (simp_all split: sum.splits)

lemma syncRatingChanges_loop_snoc:
  "syncRatingChanges_loop h i (pre @ [s]) store n =
     (case syncRatingChanges_loop h i pre store n of
        (Inl e, st) \<Rightarrow> (Inl e, st)
      | (Inr a, st) \<Rightarrow>
          if RatingChange_exists h (rc_contestId s) st then (Inr a, st)
          else (case RatingChange_create h i s of
                  Inl e \<Rightarrow> (Inl e, st)
                | Inr d \<Rightarrow> (Inr (a + 1), st @ [d])))"
  by (simp add: syncRatingChanges_loop_append split: prod.splits sum.splits)

lemma syncRatingChanges_loop_inserted:
  "\<exists>ins. snd (syncRatingChanges_loop h i xs store n) = store @ ins
       \<and> set ins \<subseteq> RatingChange_doc h i ` set xs
       \<and> rc_key ` set ins \<subseteq> (\<lambda>rc. (h, rc_contestId rc)) ` set xs - rc_key ` set store
       \<and> distinct (map rc_key ins)
       \<and> (\<forall>a. fst (syncRatingChanges_loop h i xs store n) = Inr a \<longrightarrow>
             a = n + length ins
             \<and> rc_key ` set ins = (\<lambda>rc. (h, rc_contestId rc)) ` set xs - rc_key ` set store)"
proof (induction xs arbitrary: store n)
  case Nil
  then show ?case by simp
next
  case (Cons s ss)
  show ?case
  proof (cases "RatingChange_exists h (rc_contestId s) store")
    case True
    have step: "syncRatingChanges_loop h i (s # ss) store n = syncRatingChanges_loop h i ss store n"
      using True by simp
    obtain ins where ins: "snd (syncRatingChanges_loop h i ss store n) = store @ ins"
        "set ins \<subseteq> RatingChange_doc h i ` set ss"
        "rc_key ` set ins \<subseteq> (\<lambda>rc. (h, rc_contestId rc)) ` set ss - rc_key ` set store"
        "distinct (map rc_key ins)"
        "\<forall>a. fst (syncRatingChanges_loop h i ss store n) = Inr a \<longrightarrow>
             a = n + length ins
             \<and> rc_key ` set ins = (\<lambda>rc. (h, rc_contestId rc)) ` set ss - rc_key ` set store"
      using Cons.IH [of store n] by blast
    have old: "(h, rc_contestId s) \<in> rc_key ` set store"
      using True by (simp add: RatingChange_exists_iff)
    have "set ins \<subseteq> RatingChange_doc h i ` set (s # ss)"
      using ins(2) by auto
    moreover have "rc_key ` set ins \<subseteq> (\<lambda>rc. (h, rc_contestId rc)) ` set (s # ss) - rc_key ` set store"
      using ins(3) by auto
    moreover have "\<forall>a. fst (syncRatingChanges_loop h i (s # ss) store n) = Inr a \<longrightarrow>
             a = n + length ins
             \<and> rc_key ` set ins = (\<lambda>rc. (h, rc_contestId rc)) ` set (s # ss) - rc_key ` set store"
      unfolding step using ins(5) old by auto
    ultimately show ?thesis
      unfolding step using ins(1,4) by blast
  next
    case False
    have fresh: "(h, rc_contestId s) \<notin> rc_key ` set store"
      using False by (simp add: RatingChange_exists_iff)
    show ?thesis
    proof (cases "RatingChange_create h i s")
      case (Inl e)
      then have "syncRatingChanges_loop h i (s # ss) store n = (Inl e, store @ [])"
        using False by simp
      then show ?thesis by (intro exI [of _ "[]"]) simp
    next
      case (Inr d)
      have d: "d = RatingChange_doc h i s" "rc_key d = (h, rc_contestId s)"
        using RatingChange_create_Inr [OF Inr] by blast+
      have step: "syncRatingChanges_loop h i (s # ss) store n
                    = syncRatingChanges_loop h i ss (store @ [d]) (n + 1)"
        using False Inr by simp
      obtain ins where ins:
          "snd (syncRatingChanges_loop h i ss (store @ [d]) (n + 1)) = (store @ [d]) @ ins"
          "set ins \<subseteq> RatingChange_doc h i ` set ss"
          "rc_key ` set ins \<subseteq> (\<lambda>rc. (h, rc_contestId rc)) ` set ss - rc_key ` set (store @ [d])"
          "distinct (map rc_key ins)"
          "\<forall>a. fst (syncRatingChanges_loop h i ss (store @ [d]) (n + 1)) = Inr a \<longrightarrow>
               a = (n + 1) + length ins
               \<and> rc_key ` set ins = (\<lambda>rc. (h, rc_contestId rc)) ` set ss - rc_key ` set (store @ [d])"
        using Cons.IH [of "store @ [d]" "n + 1"] by blast
      have "snd (syncRatingChanges_loop h i (s # ss) store n) = store @ (d # ins)"
        unfolding step using ins(1) by simp
      moreover have "set (d # ins) \<subseteq> RatingChange_doc h i ` set (s # ss)"
        using ins(2) d(1) by auto
      moreover have "rc_key ` set (d # ins)
                       \<subseteq> (\<lambda>rc. (h, rc_contestId rc)) ` set (s # ss) - rc_key ` set store"
        using ins(3) d(2) fresh by auto
      moreover have "distinct (map rc_key (d # ins))"
        using ins(3,4) d(2) by auto
      moreover have "\<forall>a. fst (syncRatingChanges_loop h i (s # ss) store n) = Inr a \<longrightarrow>
             a = n + length (d # ins)
             \<and> rc_key ` set (d # ins) = (\<lambda>rc. (h, rc_contestId rc)) ` set (s # ss) - rc_key ` set store"
        unfolding step using ins(5) d(2) fresh by auto
      ultimately show ?thesis by blast
    qed
  qed
qed

lemma syncRatingChanges_loop_valid:
  "list_all (\<lambda>s. RatingChange_validate (RatingChange_doc h i s)) xs \<Longrightarrow>
     \<not> isl (fst (syncRatingChanges_loop h i xs store n))"
  by (induction xs arbitrary: store n) (simp_all add: RatingChange_create_def)

lemma syncRatingChanges_loop_thrown:
  "fst (syncRatingChanges_loop h i xs store n) = Inl e \<Longrightarrow>
     \<exists>pre s post. xs = pre @ s # post
       \<and> \<not> isl (fst (syncRatingChanges_loop h i pre store n))
       \<and> \<not> RatingChange_exists h (rc_contestId s) (snd (syncRatingChanges_loop h i pre store n))
       \<and> RatingChange_create h i s = Inl e
       \<and> snd (syncRatingChanges_loop h i xs store n) = snd (syncRatingChanges_loop h i pre store n)"
proof (induction xs arbitrary: store n)
  case Nil
  then show ?case by simp
next
  case (Cons s ss)
  show ?case
  proof (cases "RatingChange_exists h (rc_contestId s) store")
    case True
    then have step: "\<And>ys. syncRatingChanges_loop h i (s # ys) store n = syncRatingChanges_loop h i ys store n"
      by simp
    obtain pre t post where IH: "ss = pre @ t # post"
        "\<not> isl (fst (syncRatingChanges_loop h i pre store n))"
        "\<not> RatingChange_exists h (rc_contestId t) (snd (syncRatingChanges_loop h i pre store n))"
        "RatingChange_create h i t = Inl e"
        "snd (syncRatingChanges_loop h i ss store n) = snd (syncRatingChanges_loop h i pre store n)"
      using Cons.IH [of store n] Cons.prems step by auto
    have "s # ss = (s # pre) @ t # post" using IH(1) by simp
    then show ?thesis
      using IH(2,3,4,5) step by metis
  next
    case False
    show ?thesis
    proof (cases "RatingChange_create h i s")
      case (Inl e')
      then have "e' = e" using Cons.prems False by simp
      then have "s # ss = [] @ s # ss"
          "\<not> isl (fst (syncRatingChanges_loop h i [] store n))"
          "\<not> RatingChange_exists h (rc_contestId s) (snd (syncRatingChanges_loop h i [] store n))"
          "RatingChange_create h i s = Inl e"
          "snd (syncRatingChanges_loop h i (s # ss) store n) = snd (syncRatingChanges_loop h i [] store n)"
        using False Inl by simp_all
      then show ?thesis by blast
    next
      case (Inr d)
      then have step: "\<And>ys. syncRatingChanges_loop h i (s # ys) store n
                          = syncRatingChanges_loop h i ys (store @ [d]) (n + 1)"
        using False by simp
      obtain pre t post where IH: "ss = pre @ t # post"
          "\<not> isl (fst (syncRatingChanges_loop h i pre (store @ [d]) (n + 1)))"
          "\<not> RatingChange_exists h (rc_contestId t) (snd (syncRatingChanges_loop h i pre (store @ [d]) (n + 1)))"
          "RatingChange_create h i t = Inl e"
          "snd (syncRatingChanges_loop h i ss (store @ [d]) (n + 1))
             = snd (syncRatingChanges_loop h i pre (store @ [d]) (n + 1))"
        using Cons.IH [of "store @ [d]" "n + 1"] Cons.prems step by auto
      have "s # ss = (s # pre) @ t # post" using IH(1) by simp
      then show ?thesis
        using IH(2,3,4,5) step by metis
    qed
  qed
qed

lemma syncRatingChanges_loop_again:
  "syncRatingChanges_loop h i xs store a = (res, store') \<Longrightarrow>
     syncRatingChanges_loop h i xs store' b
       = (case res of Inl e \<Rightarrow> Inl e | Inr n \<Rightarrow> Inr b, store')"
proof (induction xs arbitrary: store a)
  case Nil
  then show ?case by auto
next
  case (Cons s ss)
  obtain ins where ext: "store' = store @ ins"
    using syncRatingChanges_loop_inserted [of h i "s # ss" store a] Cons.prems by auto
  show ?case
  proof (cases "RatingChange_exists h (rc_contestId s) store")
    case True
    then have "RatingChange_exists h (rc_contestId s) store'"
      unfolding ext by (auto simp: RatingChange_exists_iff)
    moreover have "syncRatingChanges_loop h i ss store a = (res, store')"
      using Cons.prems True by simp
    ultimately show ?thesis using Cons.IH by simp
  next
    case False
    show ?thesis
    proof (cases "RatingChange_create h i s")
      case (Inl e)
      then show ?thesis using Cons.prems False by auto
    next
      case (Inr d)
      then have run: "syncRatingChanges_loop h i ss (store @ [d]) (a + 1) = (res, store')"
        using Cons.prems False by simp
      obtain ins' where "store' = (store @ [d]) @ ins'"
        using syncRatingChanges_loop_inserted [of h i ss "store @ [d]" "a + 1"] run by auto
      then have "RatingChange_exists h (rc_contestId s) store'"
        using RatingChange_create_Inr [OF Inr] by (auto simp: RatingChange_exists_iff)
      then show ?thesis using Cons.IH [OF run] by simp
    qed
  qed
qed

lemma syncSubmissions_loop_report:
  "\<exists>res ins. syncSubmissions_loop h i xs store 0 = (res, store @ ins)
       \<and> set ins \<subseteq> Submission_doc h i ` set xs
       \<and> d_submissionId ` set ins \<subseteq> s_id ` set xs - d_submissionId ` set store
       \<and> distinct (map d_submissionId ins)
       \<and> (\<forall>a. res = Inr a \<longrightarrow>
             a = length ins \<and> d_submissionId ` set ins = s_id ` set xs - d_submissionId ` set store)
       \<and> (list_all (\<lambda>s. Submission_validate (Submission_doc h i s)) xs \<longrightarrow> \<not> isl res)
       \<and> (\<forall>e. res = Inl e \<longrightarrow>
             (\<exists>pre s post. xs = pre @ s # post
                \<and> Submission_create h i s = Inl e
                \<and> \<not> Submission_exists (s_id s) (store @ ins)
                \<and> syncSubmissions_loop h i pre store 0 = (Inr (length ins), store @ ins)))"
proof -
  obtain res st where run: "syncSubmissions_loop h i xs store 0 = (res, st)"
    by (cases "syncSubmissions_loop h i xs store 0")
  obtain ins where ins0: "snd (syncSubmissions_loop h i xs store 0) = store @ ins"
      "set ins \<subseteq> Submission_doc h i ` set xs"
      "d_submissionId ` set ins \<subseteq> s_id ` set xs - d_submissionId ` set store"
      "distinct (map d_submissionId ins)"
      "\<forall>a. fst (syncSubmissions_loop h i xs store 0) = Inr a \<longrightarrow>
         a = 0 + length ins \<and> d_submissionId ` set ins = s_id ` set xs - d_submissionId ` set store"
    using syncSubmissions_loop_inserted [of h i xs store 0] by (elim exE conjE)
  have ins: "st = store @ ins"
      "set ins \<subseteq> Submission_doc h i ` set xs"
      "d_submissionId ` set ins \<subseteq> s_id ` set xs - d_submissionId ` set store"
      "distinct (map d_submissionId ins)"
      "\<forall>a. res = Inr a \<longrightarrow>
         a = 0 + length ins \<and> d_submissionId ` set ins = s_id ` set xs - d_submissionId ` set store"
    using ins0 unfolding run by simp_all
  have valid: "list_all (\<lambda>s. Submission_validate (Submission_doc h i s)) xs \<longrightarrow> \<not> isl res"
    using syncSubmissions_loop_valid [of h i xs store 0] run by simp
  have thrown: "\<forall>e. res = Inl e \<longrightarrow>
             (\<exists>pre s post. xs = pre @ s # post
                \<and> Submission_create h i s = Inl e
                \<and> \<not> Submission_exists (s_id s) (store @ ins)
                \<and> syncSubmissions_loop h i pre store 0 = (Inr (length ins), store @ ins))"
  proof (intro allI impI)
    fix e assume "res = Inl e"
    then have "fst (syncSubmissions_loop h i xs store 0) = Inl e" using run by simp
    then have "\<exists>pre s post. xs = pre @ s # post
       \<and> \<not> isl (fst (syncSubmissions_loop h i pre store 0))
       \<and> \<not> Submission_exists (s_id s) (snd (syncSubmissions_loop h i pre store 0))
       \<and> Submission_create h i s = Inl e
       \<and> snd (syncSubmissions_loop h i xs store 0) = snd (syncSubmissions_loop h i pre store 0)"
      by (rule syncSubmissions_loop_thrown)
    then obtain pre s post where p: "xs = pre @ s # post"
        "\<not> isl (fst (syncSubmissions_loop h i pre store 0))"
        "\<not> Submission_exists (s_id s) (snd (syncSubmissions_loop h i pre store 0))"
        "Submission_create h i s = Inl e"
        "snd (syncSubmissions_loop h i xs store 0) = snd (syncSubmissions_loop h i pre store 0)"
      by (elim exE conjE)
    have s1: "snd (syncSubmissions_loop h i pre store 0) = store @ ins"
      using p(5) run ins(1) by simp
    obtain a where a: "fst (syncSubmissions_loop h i pre store 0) = Inr a"
      using p(2) by (cases "fst (syncSubmissions_loop h i pre store 0)") simp_all
    obtain ins' where i': "snd (syncSubmissions_loop h i pre store 0) = store @ ins'"
        "set ins' \<subseteq> Submission_doc h i ` set pre"
        "d_submissionId ` set ins' \<subseteq> s_id ` set pre - d_submissionId ` set store"
        "distinct (map d_submissionId ins')"
        "\<forall>a. fst (syncSubmissions_loop h i pre store 0) = Inr a \<longrightarrow>
           a = 0 + length ins'
           \<and> d_submissionId ` set ins' = s_id ` set pre - d_submissionId ` set store"
      using syncSubmissions_loop_inserted [of h i pre store 0] by (elim exE conjE)
    have "ins' = ins" using i'(1) s1 by simp
    then have "a = length ins" using i'(5) a by simp
    then have L: "syncSubmissions_loop h i pre store 0 = (Inr (length ins), store @ ins)"
      using a s1 by (simp add: prod_eq_iff)
    have ne: "\<not> Submission_exists (s_id s) (store @ ins)"
      using p(3) s1 by simp
    show "\<exists>pre s post. xs = pre @ s # post
                \<and> Submission_create h i s = Inl e
                \<and> \<not> Submission_exists (s_id s) (store @ ins)
                \<and> syncSubmissions_loop h i pre store 0 = (Inr (length ins), store @ ins)"
      by (rule exI [of _ pre], rule exI [of _ s], rule exI [of _ post])
         (intro conjI p(1) p(4) ne L)
  qed
  have R: "syncSubmissions_loop h i xs store 0 = (res, store @ ins)"
    using run ins(1) by simp
  have cnt: "\<forall>a. res = Inr a \<longrightarrow>
             a = length ins \<and> d_submissionId ` set ins = s_id ` set xs - d_submissionId ` set store"
    using ins(5) by simp
  show ?thesis
    by (rule exI [of _ res], rule exI [of _ ins])
       (intro conjI R ins(2) ins(3) ins(4) cnt valid thrown)
qed

lemma syncRatingChanges_loop_report:
  "\<exists>res ins. syncRatingChanges_loop h i xs store 0 = (res, store @ ins)
       \<and> set ins \<subseteq> RatingChange_doc h i ` set xs
       \<and> rc_key ` set ins \<subseteq> (\<lambda>rc. (h, rc_contestId rc)) ` set xs - rc_key ` set store
       \<and> distinct (map rc_key ins)
       \<and> (\<forall>a. res = Inr a \<longrightarrow>
             a = length ins \<and> rc_key ` set ins = (\<lambda>rc. (h, rc_contestId rc)) ` set xs - rc_key ` set store)
       \<and> (list_all (\<lambda>s. RatingChange_validate (RatingChange_doc h i s)) xs \<longrightarrow> \<not> isl res)
       \<and> (\<forall>e. res = Inl e \<longrightarrow>
             (\<exists>pre s post. xs = pre @ s # post
                \<and> RatingChange_create h i s = Inl e
                \<and> \<not> RatingChange_exists h (rc_contestId s) (store @ ins)
                \<and> syncRatingChanges_loop h i pre store 0 = (Inr (length ins), store @ ins)))"
proof -
  obtain res st where run: "syncRatingChanges_loop h i xs store 0 = (res, st)"
    by (cases "syncRatingChanges_loop h i xs store 0")
  obtain ins where ins0: "snd (syncRatingChanges_loop h i xs store 0) = store @ ins"
      "set ins \<subseteq> RatingChange_doc h i ` set xs"
      "rc_key ` set ins \<subseteq> (\<lambda>rc. (h, rc_contestId rc)) ` set xs - rc_key ` set store"
      "distinct (map rc_key ins)"
      "\<forall>a. fst (syncRatingChanges_loop h i xs store 0) = Inr a \<longrightarrow>
         a = 0 + length ins \<and> rc_key ` set ins = (\<lambda>rc. (h, rc_contestId rc)) ` set xs - rc_key ` set store"
    using syncRatingChanges_loop_inserted [of h i xs store 0] by (elim exE conjE)
  have ins: "st = store @ ins"
      "set ins \<subseteq> RatingChange_doc h i ` set xs"
      "rc_key ` set ins \<subseteq> (\<lambda>rc. (h, rc_contestId rc)) ` set xs - rc_key ` set store"
      "distinct (map rc_key ins)"
      "\<forall>a. res = Inr a \<longrightarrow>
         a = 0 + length ins \<and> rc_key ` set ins = (\<lambda>rc. (h, rc_contestId rc)) ` set xs - rc_key ` set store"
    using ins0 unfolding run by simp_all
  have valid: "list_all (\<lambda>s. RatingChange_validate (RatingChange_doc h i s)) xs \<longrightarrow> \<not> isl res"
    using syncRatingChanges_loop_valid [of h i xs store 0] run by simp
  have thrown: "\<forall>e. res = Inl e \<longrightarrow>
             (\<exists>pre s post. xs = pre @ s # post
                \<and> RatingChange_create h i s = Inl e
                \<and> \<not> RatingChange_exists h (rc_contestId s) (store @ ins)
                \<and> syncRatingChanges_loop h i pre store 0 = (Inr (length ins), store @ ins))"
  proof (intro allI impI)
    fix e assume "res = Inl e"
    then have "fst (syncRatingChanges_loop h i xs store 0) = Inl e" using run by simp
    then have "\<exists>pre s post. xs = pre @ s # post
       \<and> \<not> isl (fst (syncRatingChanges_loop h i pre store 0))
       \<and> \<not> RatingChange_exists h (rc_contestId s) (snd (syncRatingChanges_loop h i pre store 0))
       \<and> RatingChange_create h i s = Inl e
       \<and> snd (syncRatingChanges_loop h i xs store 0) = snd (syncRatingChanges_loop h i pre store 0)"
      by (rule syncRatingChanges_loop_thrown)
    then obtain pre s post where p: "xs = pre @ s # post"
        "\<not> isl (fst (syncRatingChanges_loop h i pre store 0))"
        "\<not> RatingChange_exists h (rc_contestId s) (snd (syncRatingChanges_loop h i pre store 0))"
        "RatingChange_create h i s = Inl e"
        "snd (syncRatingChanges_loop h i xs store 0) = snd (syncRatingChanges_loop h i pre store 0)"
      by (elim exE conjE)
    have s1: "snd (syncRatingChanges_loop h i pre store 0) = store @ ins"
      using p(5) run ins(1) by simp
    obtain a where a: "fst (syncRatingChanges_loop h i pre store 0) = Inr a"
      using p(2) by (cases "fst (syncRatingChanges_loop h i pre store 0)") simp_all
    obtain ins' where i': "snd (syncRatingChanges_loop h i pre store 0) = store @ ins'"
        "set ins' \<subseteq> RatingChange_doc h i ` set pre"
        "rc_key ` set ins' \<subseteq> (\<lambda>rc. (h, rc_contestId rc)) ` set pre - rc_key ` set store"
        "distinct (map rc_key ins')"
        "\<forall>a. fst (syncRatingChanges_loop h i pre store 0) = Inr a \<longrightarrow>
           a = 0 + length ins'
           \<and> rc_key ` set ins' = (\<lambda>rc. (h, rc_contestId rc)) ` set pre - rc_key ` set store"
      using syncRatingChanges_loop_inserted [of h i pre store 0] by (elim exE conjE)
    have "ins' = ins" using i'(1) s1 by simp
    then have "a = length ins" using i'(5) a by simp
    then have L: "syncRatingChanges_loop h i pre store 0 = (Inr (length ins), store @ ins)"
      using a s1 by (simp add: prod_eq_iff)
    have ne: "\<not> RatingChange_exists h (rc_contestId s) (store @ ins)"
      using p(3) s1 by simp
    show "\<exists>pre s post. xs = pre @ s # post
                \<and> RatingChange_create h i s = Inl e
                \<and> \<not> RatingChange_exists h (rc_contestId s) (store @ ins)
                \<and> syncRatingChanges_loop h i pre store 0 = (Inr (length ins), store @ ins)"
      by (rule exI [of _ pre], rule exI [of _ s], rule exI [of _ post])
         (intro conjI p(1) p(4) ne L)
  qed
  have R: "syncRatingChanges_loop h i xs store 0 = (res, store @ ins)"
    using run ins(1) by simp
  have cnt: "\<forall>a. res = Inr a \<longrightarrow>
             a = length ins \<and> rc_key ` set ins = (\<lambda>rc. (h, rc_contestId rc)) ` set xs - rc_key ` set store"
    using ins(5) by simp
  show ?thesis
    by (rule exI [of _ res], rule exI [of _ ins])
       (intro conjI R ins(2) ins(3) ins(4) cnt valid thrown)
qed

text \<open>
  C1, amended. Let the fetch of the submissions yield \<open>subs\<close>.
  \<^verbatim>\<open>syncSubmissions\<close> appends documents of fetched records to the collection, at
  most one per submission id and none under an id that is already stored. It goes through
  the fetched records in order (the equation for a list extended by one record): a record
  whose id is stored at that moment is skipped, any other is created and counted, and when
  the validators of the schema reject it, the function throws that error with the
  collection as it stands, the records before it inserted and those after it not looked
  at. When the function returns a number, this is the number of documents inserted, and
  the ids inserted are exactly the fetched ids that were not stored; it does return a
  number when every fetched record passes the validators. The same holds for
  \<^verbatim>\<open>syncRatingChanges\<close> with the pair of handle and contest id as the key.
\<close>

theorem sync_inserts_exactly_the_absent:
  assumes "getUserSubmissions r handle None None w = (Inr subs, w1)"
  shows "(\<exists>res ins.
            syncSubmissions r handle studentId w = (res, w1\<lparr>submissions := submissions w1 @ ins\<rparr>)
          \<and> set ins \<subseteq> Submission_doc handle studentId ` set subs
          \<and> d_submissionId ` set ins \<subseteq> s_id ` set subs - d_submissionId ` set (submissions w1)
          \<and> distinct (map d_submissionId ins)
          \<and> (\<forall>a. res = Inr a \<longrightarrow>
                a = length ins
                \<and> d_submissionId ` set ins
                    = s_id ` set subs - d_submissionId ` set (submissions w1))
          \<and> (list_all (\<lambda>s. Submission_validate (Submission_doc handle studentId s)) subs
                \<longrightarrow> \<not> isl res)
          \<and> (\<forall>e. res = Inl e \<longrightarrow>
                (\<exists>pre s post. subs = pre @ s # post
                   \<and> Submission_create handle studentId s = Inl e
                   \<and> \<not> Submission_exists (s_id s) (submissions w1 @ ins)
                   \<and> syncSubmissions_loop handle studentId pre (submissions w1) 0
                       = (Inr (length ins), submissions w1 @ ins))))
       \<and> (\<forall>pre s store n.
             syncSubmissions_loop handle studentId (pre @ [s]) store n =
               (case syncSubmissions_loop handle studentId pre store n of
                  (Inl e, st) \<Rightarrow> (Inl e, st)
                | (Inr a, st) \<Rightarrow>
                    if Submission_exists (s_id s) st then (Inr a, st)
                    else (case Submission_create handle studentId s of
                            Inl e \<Rightarrow> (Inl e, st)
                          | Inr d \<Rightarrow> (Inr (a + 1), st @ [d]))))
       \<and> (\<exists>res ins.
            syncRatingChanges handle studentId changes w
              = (res, w\<lparr>ratingChanges := ratingChanges w @ ins\<rparr>)
          \<and> set ins \<subseteq> RatingChange_doc handle studentId ` set changes
          \<and> rc_key ` set ins
              \<subseteq> (\<lambda>rc. (handle, rc_contestId rc)) ` set changes - rc_key ` set (ratingChanges w)
          \<and> distinct (map rc_key ins)
          \<and> (\<forall>a. res = Inr a \<longrightarrow>
                a = length ins
                \<and> rc_key ` set ins
                    = (\<lambda>rc. (handle, rc_contestId rc)) ` set changes
                        - rc_key ` set (ratingChanges w))
          \<and> (list_all (\<lambda>s. RatingChange_validate (RatingChange_doc handle studentId s)) changes
                \<longrightarrow> \<not> isl res)
          \<and> (\<forall>e. res = Inl e \<longrightarrow>
                (\<exists>pre s post. changes = pre @ s # post
                   \<and> RatingChange_create handle studentId s = Inl e
                   \<and> \<not> RatingChange_exists handle (rc_contestId s) (ratingChanges w @ ins)
                   \<and> syncRatingChanges_loop handle studentId pre (ratingChanges w) 0
                       = (Inr (length ins), ratingChanges w @ ins))))
       \<and> (\<forall>pre s store n.
             syncRatingChanges_loop handle studentId (pre @ [s]) store n =
               (case syncRatingChanges_loop handle studentId pre store n of
                  (Inl e, st) \<Rightarrow> (Inl e, st)
                | (Inr a, st) \<Rightarrow>
                    if RatingChange_exists handle (rc_contestId s) st then (Inr a, st)
                    else (case RatingChange_create handle studentId s of
                            Inl e \<Rightarrow> (Inl e, st)
                          | Inr d \<Rightarrow> (Inr (a + 1), st @ [d]))))"
proof -
  obtain res ins where S:
      "syncSubmissions_loop handle studentId subs (submissions w1) 0 = (res, submissions w1 @ ins)"
      "set ins \<subseteq> Submission_doc handle studentId ` set subs"
      "d_submissionId ` set ins \<subseteq> s_id ` set subs - d_submissionId ` set (submissions w1)"
      "distinct (map d_submissionId ins)"
      "\<forall>a. res = Inr a \<longrightarrow>
                a = length ins
                \<and> d_submissionId ` set ins
                    = s_id ` set subs - d_submissionId ` set (submissions w1)"
      "list_all (\<lambda>s. Submission_validate (Submission_doc handle studentId s)) subs
                \<longrightarrow> \<not> isl res"
      "\<forall>e. res = Inl e \<longrightarrow>
                (\<exists>pre s post. subs = pre @ s # post
                   \<and> Submission_create handle studentId s = Inl e
                   \<and> \<not> Submission_exists (s_id s) (submissions w1 @ ins)
                   \<and> syncSubmissions_loop handle studentId pre (submissions w1) 0
                       = (Inr (length ins), submissions w1 @ ins))"
    using syncSubmissions_loop_report [of handle studentId subs "submissions w1"]
    by (elim exE conjE)
  have S0: "syncSubmissions r handle studentId w = (res, w1\<lparr>submissions := submissions w1 @ ins\<rparr>)"
    using assms S(1) by (simp add: syncSubmissions_def)
  have A: "\<exists>res ins.
            syncSubmissions r handle studentId w = (res, w1\<lparr>submissions := submissions w1 @ ins\<rparr>)
          \<and> set ins \<subseteq> Submission_doc handle studentId ` set subs
          \<and> d_submissionId ` set ins \<subseteq> s_id ` set subs - d_submissionId ` set (submissions w1)
          \<and> distinct (map d_submissionId ins)
          \<and> (\<forall>a. res = Inr a \<longrightarrow>
                a = length ins
                \<and> d_submissionId ` set ins
                    = s_id ` set subs - d_submissionId ` set (submissions w1))
          \<and> (list_all (\<lambda>s. Submission_validate (Submission_doc handle studentId s)) subs
                \<longrightarrow> \<not> isl res)
          \<and> (\<forall>e. res = Inl e \<longrightarrow>
                (\<exists>pre s post. subs = pre @ s # post
                   \<and> Submission_create handle studentId s = Inl e
                   \<and> \<not> Submission_exists (s_id s) (submissions w1 @ ins)
                   \<and> syncSubmissions_loop handle studentId pre (submissions w1) 0
                       = (Inr (length ins), submissions w1 @ ins)))"
    by (rule exI [of _ res], rule exI [of _ ins])
       (intro conjI S0 S(2) S(3) S(4) S(5) S(6) S(7))
  obtain resR insR where R:
      "syncRatingChanges_loop handle studentId changes (ratingChanges w) 0
         = (resR, ratingChanges w @ insR)"
      "set insR \<subseteq> RatingChange_doc handle studentId ` set changes"
      "rc_key ` set insR
         \<subseteq> (\<lambda>rc. (handle, rc_contestId rc)) ` set changes - rc_key ` set (ratingChanges w)"
      "distinct (map rc_key insR)"
      "\<forall>a. resR = Inr a \<longrightarrow>
                a = length insR
                \<and> rc_key ` set insR
                    = (\<lambda>rc. (handle, rc_contestId rc)) ` set changes
                        - rc_key ` set (ratingChanges w)"
      "list_all (\<lambda>s. RatingChange_validate (RatingChange_doc handle studentId s)) changes
                \<longrightarrow> \<not> isl resR"
      "\<forall>e. resR = Inl e \<longrightarrow>
                (\<exists>pre s post. changes = pre @ s # post
                   \<and> RatingChange_create handle studentId s = Inl e
                   \<and> \<not> RatingChange_exists handle (rc_contestId s) (ratingChanges w @ insR)
                   \<and> syncRatingChanges_loop handle studentId pre (ratingChanges w) 0
                       = (Inr (length insR), ratingChanges w @ insR))"
    using syncRatingChanges_loop_report [of handle studentId changes "ratingChanges w"]
    by (elim exE conjE)
  have R0: "syncRatingChanges handle studentId changes w
              = (resR, w\<lparr>ratingChanges := ratingChanges w @ insR\<rparr>)"
    using R(1) by (simp add: syncRatingChanges_def)
  have B: "\<exists>res ins.
            syncRatingChanges handle studentId changes w
              = (res, w\<lparr>ratingChanges := ratingChanges w @ ins\<rparr>)
          \<and> set ins \<subseteq> RatingChange_doc handle studentId ` set changes
          \<and> rc_key ` set ins
              \<subseteq> (\<lambda>rc. (handle, rc_contestId rc)) ` set changes - rc_key ` set (ratingChanges w)
          \<and> distinct (map rc_key ins)
          \<and> (\<forall>a. res = Inr a \<longrightarrow>
                a = length ins
                \<and> rc_key ` set ins
                    = (\<lambda>rc. (handle, rc_contestId rc)) ` set changes
                        - rc_key ` set (ratingChanges w))
          \<and> (list_all (\<lambda>s. RatingChange_validate (RatingChange_doc handle studentId s)) changes
                \<longrightarrow> \<not> isl res)
          \<and> (\<forall>e. res = Inl e \<longrightarrow>
                (\<exists>pre s post. changes = pre @ s # post
                   \<and> RatingChange_create handle studentId s = Inl e
                   \<and> \<not> RatingChange_exists handle (rc_contestId s) (ratingChanges w @ ins)
                   \<and> syncRatingChanges_loop handle studentId pre (ratingChanges w) 0
                       = (Inr (length ins), ratingChanges w @ ins)))"
    by (rule exI [of _ resR], rule exI [of _ insR])
       (intro conjI R0 R(2) R(3) R(4) R(5) R(6) R(7))
  have C: "\<forall>pre s store n.
             syncSubmissions_loop handle studentId (pre @ [s]) store n =
               (case syncSubmissions_loop handle studentId pre store n of
                  (Inl e, st) \<Rightarrow> (Inl e, st)
                | (Inr a, st) \<Rightarrow>
                    if Submission_exists (s_id s) st then (Inr a, st)
                    else (case Submission_create handle studentId s of
                            Inl e \<Rightarrow> (Inl e, st)
                          | Inr d \<Rightarrow> (Inr (a + 1), st @ [d])))"
    by (intro allI) (rule syncSubmissions_loop_snoc)
  have D: "\<forall>pre s store n.
             syncRatingChanges_loop handle studentId (pre @ [s]) store n =
               (case syncRatingChanges_loop handle studentId pre store n of
                  (Inl e, st) \<Rightarrow> (Inl e, st)
                | (Inr a, st) \<Rightarrow>
                    if RatingChange_exists handle (rc_contestId s) st then (Inr a, st)
                    else (case RatingChange_create handle studentId s of
                            Inl e \<Rightarrow> (Inl e, st)
                          | Inr d \<Rightarrow> (Inr (a + 1), st @ [d])))"
    by (intro allI) (rule syncRatingChanges_loop_snoc)
  show ?thesis
    by (rule conjI [OF A conjI [OF C conjI [OF B D]]])
qed

lemma ex_fetch:
  "getUserSubmissions ex_remote ''tourist'' None None w =
     (Inr [ex_submission 10, ex_submission 11], issued ''/user.status?handle=tourist'' w)"
  by (simp add: getUserSubmissions_def makeRequest_eq makeRequest_try_def ex_remote_def)

lemma unjudged_fetch:
  "getUserSubmissions unjudged_remote ''tourist'' None None w =
     (Inr [(ex_submission 11)\<lparr>s_verdict := []\<rparr>, ex_submission 12],
      issued ''/user.status?handle=tourist'' w)"
  by (simp add: getUserSubmissions_def makeRequest_eq makeRequest_try_def unjudged_remote_def
        ex_remote_def)

lemma ex_submission_valid:
  "Submission_validate (Submission_doc ''tourist'' i (ex_submission n))"
  by (simp add: Submission_validate_def Submission_doc_def ex_submission_def ex_problem_def
        ex_author_def)

text \<open>
  C1, as stated, fails: when a fetched submission that is not yet stored has no verdict,
  \<^verbatim>\<open>Submission.create\<close> rejects with a validation error,
  \<^verbatim>\<open>syncSubmissions\<close> throws instead of returning a count, and the complete record
  after it, which is not stored either, is not inserted.
\<close>

theorem record_without_verdict_stops_the_sync:
  "fst (getUserSubmissions unjudged_remote ''tourist'' None None ex_world)
     = Inr [(ex_submission 11)\<lparr>s_verdict := []\<rparr>, ex_submission 12]
   \<and> \<not> Submission_exists 11 (submissions ex_world)
   \<and> \<not> Submission_exists 12 (submissions ex_world)
   \<and> fst (syncSubmissions unjudged_remote ''tourist'' ex_id ex_world)
       = Inl SubmissionValidationFailed
   \<and> submissions (snd (syncSubmissions unjudged_remote ''tourist'' ex_id ex_world))
       = submissions ex_world"
proof -
  have sub: "submissions ex_world = [Submission_doc ''tourist'' ex_id (ex_submission 10)]"
    by (simp add: ex_world_def)
  have ne: "\<not> Submission_exists 11 (submissions ex_world)"
      "\<not> Submission_exists 12 (submissions ex_world)"
    by (simp_all add: sub Submission_exists_def Submission_doc_def ex_submission_def)
  have bad: "Submission_create ''tourist'' ex_id ((ex_submission 11)\<lparr>s_verdict := []\<rparr>)
               = Inl SubmissionValidationFailed"
    by (simp add: Submission_create_def Submission_validate_def Submission_doc_def)
  have "syncSubmissions_loop ''tourist'' ex_id
          [(ex_submission 11)\<lparr>s_verdict := []\<rparr>, ex_submission 12] (submissions ex_world) 0
        = (Inl SubmissionValidationFailed, submissions ex_world)"
    using ne(1) bad by (simp add: ex_submission_def)
  then have "fst (syncSubmissions unjudged_remote ''tourist'' ex_id ex_world)
       = Inl SubmissionValidationFailed
   \<and> submissions (snd (syncSubmissions unjudged_remote ''tourist'' ex_id ex_world))
       = submissions ex_world"
    by (simp add: syncSubmissions_def unjudged_fetch del: syncSubmissions_loop.simps)
  then show ?thesis
    using ne by (simp add: unjudged_fetch)
qed

theorem sync_inserts_exactly_the_absent_witness:
  "getUserSubmissions ex_remote ''tourist'' None None ex_world =
     (Inr [ex_submission 10, ex_submission 11], issued ''/user.status?handle=tourist'' ex_world)
   \<and> fst (syncSubmissions ex_remote ''tourist'' ex_id ex_world) = Inr 1"
proof -
  let ?w1 = "issued ''/user.status?handle=tourist'' ex_world"
  have h: "getUserSubmissions ex_remote ''tourist'' None None ex_world =
     (Inr [ex_submission 10, ex_submission 11], ?w1)"
    by (rule ex_fetch)
  have "\<exists>res ins.
            syncSubmissions ex_remote ''tourist'' ex_id ex_world
              = (res, ?w1\<lparr>submissions := submissions ?w1 @ ins\<rparr>)
          \<and> set ins \<subseteq> Submission_doc ''tourist'' ex_id ` set [ex_submission 10, ex_submission 11]
          \<and> d_submissionId ` set ins
              \<subseteq> s_id ` set [ex_submission 10, ex_submission 11] - d_submissionId ` set (submissions ?w1)
          \<and> distinct (map d_submissionId ins)
          \<and> (\<forall>a. res = Inr a \<longrightarrow>
                a = length ins
                \<and> d_submissionId ` set ins
                    = s_id ` set [ex_submission 10, ex_submission 11]
                        - d_submissionId ` set (submissions ?w1))
          \<and> (list_all (\<lambda>s. Submission_validate (Submission_doc ''tourist'' ex_id s))
                 [ex_submission 10, ex_submission 11]
                \<longrightarrow> \<not> isl res)
          \<and> (\<forall>e. res = Inl e \<longrightarrow>
                (\<exists>pre s post. [ex_submission 10, ex_submission 11] = pre @ s # post
                   \<and> Submission_create ''tourist'' ex_id s = Inl e
                   \<and> \<not> Submission_exists (s_id s) (submissions ?w1 @ ins)
                   \<and> syncSubmissions_loop ''tourist'' ex_id pre (submissions ?w1) 0
                       = (Inr (length ins), submissions ?w1 @ ins)))"
    by (rule conjunct1 [OF sync_inserts_exactly_the_absent [OF h, where studentId = ex_id
          and changes = "[]"]])
  then obtain res ins where ins:
      "syncSubmissions ex_remote ''tourist'' ex_id ex_world
         = (res, ?w1\<lparr>submissions := submissions ?w1 @ ins\<rparr>)"
      "distinct (map d_submissionId ins)"
      "\<forall>a. res = Inr a \<longrightarrow>
                a = length ins
                \<and> d_submissionId ` set ins
                    = s_id ` set [ex_submission 10, ex_submission 11]
                        - d_submissionId ` set (submissions ?w1)"
      "list_all (\<lambda>s. Submission_validate (Submission_doc ''tourist'' ex_id s))
                 [ex_submission 10, ex_submission 11]
                \<longrightarrow> \<not> isl res"
    by (elim exE conjE)
  have "\<not> isl res"
    using ins(4) by (simp add: ex_submission_valid)
  then obtain a where a: "res = Inr a"
    by (cases res) simp_all
  have "d_submissionId ` set ins = {11}"
    using ins(3) a
    by (simp add: ex_world_def ex_submission_def Submission_doc_def)
  then have "card (set (map d_submissionId ins)) = 1"
    by simp
  then have "length ins = 1"
    using distinct_card [OF ins(2)] by simp
  then have "a = 1" using ins(3) a by simp
  then show ?thesis
    using h ins(1) a by simp
qed

text \<open>
  C6. Let both runs fetch the same submissions. The second run of
  \<^verbatim>\<open>syncSubmissions\<close>, started in the store the first one left, leaves the
  submissions collection as it is; it returns 0 when the first run returned a number, and
  throws the error of the first run again when that one threw: a record the validators
  reject is not stored, and is rejected again. The same holds for
  \<^verbatim>\<open>syncRatingChanges\<close>.
\<close>

theorem sync_twice_adds_nothing:
  assumes first: "getUserSubmissions r handle None None w = (Inr subs, w1)"
      and again: "getUserSubmissions r handle None None (snd (syncSubmissions r handle studentId w))
                    = (Inr subs, w3)"
  shows "syncSubmissions r handle studentId (snd (syncSubmissions r handle studentId w))
           = (case fst (syncSubmissions r handle studentId w) of
                Inl e \<Rightarrow> Inl e | Inr a \<Rightarrow> Inr 0, w3)
       \<and> submissions w3 = submissions (snd (syncSubmissions r handle studentId w))
       \<and> syncRatingChanges handle studentId changes
            (snd (syncRatingChanges handle studentId changes w))
           = (case fst (syncRatingChanges handle studentId changes w) of
                Inl e \<Rightarrow> Inl e | Inr a \<Rightarrow> Inr 0,
              snd (syncRatingChanges handle studentId changes w))"
proof -
  obtain w2 where w2: "w2 = snd (syncSubmissions r handle studentId w)" by simp
  obtain res store where run: "syncSubmissions_loop handle studentId subs (submissions w1) 0 = (res, store)"
    by (cases "syncSubmissions_loop handle studentId subs (submissions w1) 0")
  have one: "syncSubmissions r handle studentId w = (res, w1\<lparr>submissions := store\<rparr>)"
    using first run by (simp add: syncSubmissions_def)
  then have s2: "submissions w2 = store" "fst (syncSubmissions r handle studentId w) = res"
    unfolding w2 by simp_all
  have again': "getUserSubmissions r handle None None w2 = (Inr subs, w3)"
    using again w2 by simp
  then have "w3 = snd (getUserSubmissions r handle None None w2)"
    by simp
  then have s3: "submissions w3 = submissions w2"
    by (simp add: getUserSubmissions_world)
  have "syncSubmissions_loop handle studentId subs store 0
          = (case res of Inl e \<Rightarrow> Inl e | Inr n \<Rightarrow> Inr 0, store)"
    using run by (rule syncSubmissions_loop_again)
  then have "syncSubmissions r handle studentId w2
          = (case res of Inl e \<Rightarrow> Inl e | Inr n \<Rightarrow> Inr 0, w3)"
    using again' s3 s2(1) by (simp add: syncSubmissions_def)
  then have A: "syncSubmissions r handle studentId (snd (syncSubmissions r handle studentId w))
           = (case fst (syncSubmissions r handle studentId w) of
                Inl e \<Rightarrow> Inl e | Inr a \<Rightarrow> Inr 0, w3)"
    using s2(2) w2 by simp
  have B: "submissions w3 = submissions (snd (syncSubmissions r handle studentId w))"
    using s3 w2 by simp
  obtain resR storeR where runR:
      "syncRatingChanges_loop handle studentId changes (ratingChanges w) 0 = (resR, storeR)"
    by (cases "syncRatingChanges_loop handle studentId changes (ratingChanges w) 0")
  have oneR: "syncRatingChanges handle studentId changes w = (resR, w\<lparr>ratingChanges := storeR\<rparr>)"
    using runR by (simp add: syncRatingChanges_def)
  have "syncRatingChanges_loop handle studentId changes storeR 0
          = (case resR of Inl e \<Rightarrow> Inl e | Inr n \<Rightarrow> Inr 0, storeR)"
    using runR by (rule syncRatingChanges_loop_again)
  then have C: "syncRatingChanges handle studentId changes
            (snd (syncRatingChanges handle studentId changes w))
           = (case fst (syncRatingChanges handle studentId changes w) of
                Inl e \<Rightarrow> Inl e | Inr a \<Rightarrow> Inr 0,
              snd (syncRatingChanges handle studentId changes w))"
    unfolding oneR by (simp add: syncRatingChanges_def)
  show ?thesis
    by (rule conjI [OF A conjI [OF B C]])
qed

lemma ex_run_ok: "\<exists>a. fst (syncSubmissions ex_remote ''tourist'' ex_id w) = Inr a"
proof -
  have "\<not> isl (fst (syncSubmissions_loop ''tourist'' ex_id [ex_submission 10, ex_submission 11]
            (submissions (issued ''/user.status?handle=tourist'' w)) 0))"
    by (rule syncSubmissions_loop_valid) (simp add: ex_submission_valid)
  then have "\<not> isl (fst (syncSubmissions ex_remote ''tourist'' ex_id w))"
    by (simp add: syncSubmissions_def ex_fetch split_beta del: syncSubmissions_loop.simps)
  then show ?thesis
    by (cases "fst (syncSubmissions ex_remote ''tourist'' ex_id w)") simp_all
qed

theorem sync_twice_adds_nothing_witness:
  "getUserSubmissions unjudged_remote ''tourist'' None None ex_world =
     (Inr [(ex_submission 11)\<lparr>s_verdict := []\<rparr>, ex_submission 12],
      issued ''/user.status?handle=tourist'' ex_world)
   \<and> getUserSubmissions unjudged_remote ''tourist'' None None
         (snd (syncSubmissions unjudged_remote ''tourist'' ex_id ex_world))
       = (Inr [(ex_submission 11)\<lparr>s_verdict := []\<rparr>, ex_submission 12],
          issued ''/user.status?handle=tourist''
            (snd (syncSubmissions unjudged_remote ''tourist'' ex_id ex_world)))
   \<and> submissions (snd (syncSubmissions unjudged_remote ''tourist'' ex_id
         (snd (syncSubmissions unjudged_remote ''tourist'' ex_id ex_world))))
       = submissions (snd (syncSubmissions unjudged_remote ''tourist'' ex_id ex_world))
   \<and> getUserSubmissions ex_remote ''tourist'' None None ex_world =
       (Inr [ex_submission 10, ex_submission 11], issued ''/user.status?handle=tourist'' ex_world)
   \<and> getUserSubmissions ex_remote ''tourist'' None None
         (snd (syncSubmissions ex_remote ''tourist'' ex_id ex_world))
       = (Inr [ex_submission 10, ex_submission 11],
          issued ''/user.status?handle=tourist''
            (snd (syncSubmissions ex_remote ''tourist'' ex_id ex_world)))
   \<and> fst (syncSubmissions ex_remote ''tourist'' ex_id
         (snd (syncSubmissions ex_remote ''tourist'' ex_id ex_world))) = Inr 0"
proof -
  obtain a where ok: "fst (syncSubmissions ex_remote ''tourist'' ex_id ex_world) = Inr a"
    using ex_run_ok by blast
  show ?thesis
    using ok unjudged_fetch [of ex_world]
      unjudged_fetch [of "snd (syncSubmissions unjudged_remote ''tourist'' ex_id ex_world)"]
      ex_fetch [of ex_world]
      ex_fetch [of "snd (syncSubmissions ex_remote ''tourist'' ex_id ex_world)"]
      sync_twice_adds_nothing [OF unjudged_fetch unjudged_fetch, of ex_id ex_world "[]"]
      sync_twice_adds_nothing [OF ex_fetch ex_fetch, of ex_id ex_world "[]"]
    by simp
qed

section \<open>Properties of one user's sync\<close>

lemma validateHandle_eq:
  "validateHandle r h w = (\<not> isl (fst (getUserInfo r h w)), issued (''/user.info?handles='' @ h) w)"
  using getUserInfo_world [of r h w]
  by (cases "getUserInfo r h w") (auto simp: validateHandle_def split: sum.splits)

lemma validateHandle_students [simp]: "students (snd (validateHandle r h w)) = students w"
  by (simp add: validateHandle_eq)

lemma validateHandle_requests [simp]: "requests (snd (validateHandle r h w)) = Suc (requests w)"
  by (simp add: validateHandle_eq)

lemma validateHandle_now [simp]:
  "now (snd (validateHandle r h w)) = now w + int REQUEST_DELAY"
  by (simp add: validateHandle_eq)

lemma getUserStats_fst:
  "fst (getUserStats r h w) =
     (case fst (getUserInfo r h w) of
        Inl e \<Rightarrow> Inl (''User '' @ quoted h @ '' not found'')
      | Inr u \<Rightarrow> Inr \<lparr> st_user = u,
          st_ratingChanges =
            (case fst (getUserRatingChanges r h ((snd (getUserInfo r h w))\<lparr>now := now w\<rparr>)) of
               Inr v \<Rightarrow> v | Inl e \<Rightarrow> []),
          st_submissionsCount =
            (case fst (getUserSubmissions r h None None
                    (snd (getUserSubmissions r h (Some 1) (Some 1)
                       ((snd (getUserRatingChanges r h
                           ((snd (getUserInfo r h w))\<lparr>now := now w\<rparr>)))\<lparr>now := now w\<rparr>)))) of
               Inr all \<Rightarrow> length all | Inl e \<Rightarrow> 0) \<rparr>)"
proof -
  obtain a w1 where a: "getUserInfo r h w = (a, w1)" by (cases "getUserInfo r h w")
  obtain b w2 where b: "getUserRatingChanges r h (w1\<lparr>now := now w\<rparr>) = (b, w2)"
    by (cases "getUserRatingChanges r h (w1\<lparr>now := now w\<rparr>)")
  obtain c w3 where c: "getUserSubmissions r h (Some 1) (Some 1) (w2\<lparr>now := now w\<rparr>) = (c, w3)"
    by (cases "getUserSubmissions r h (Some 1) (Some 1) (w2\<lparr>now := now w\<rparr>)")
  obtain d w4 where d: "getUserSubmissions r h None None w3 = (d, w4)"
    by (cases "getUserSubmissions r h None None w3")
  show ?thesis
    using a b c d by (cases a) (simp_all add: getUserStats_def Let_def)
qed

lemma getUserStats_snd:
  "snd (getUserStats r h w) =
     (let w3 = issued (''/user.status?handle='' @ h @ ''&from=1&count=1'')
                ((issued (''/user.rating?handle='' @ h)
                   ((issued (''/user.info?handles='' @ h) w)\<lparr>now := now w\<rparr>))\<lparr>now := now w\<rparr>)
      in if isl (fst (getUserInfo r h w)) then w3
         else issued (''/user.status?handle='' @ h) w3)"
proof -
  obtain a w1 where a: "getUserInfo r h w = (a, w1)" by (cases "getUserInfo r h w")
  obtain b w2 where b: "getUserRatingChanges r h (w1\<lparr>now := now w\<rparr>) = (b, w2)"
    by (cases "getUserRatingChanges r h (w1\<lparr>now := now w\<rparr>)")
  obtain c w3 where c: "getUserSubmissions r h (Some 1) (Some 1) (w2\<lparr>now := now w\<rparr>) = (c, w3)"
    by (cases "getUserSubmissions r h (Some 1) (Some 1) (w2\<lparr>now := now w\<rparr>)")
  obtain d w4 where d: "getUserSubmissions r h None None w3 = (d, w4)"
    by (cases "getUserSubmissions r h None None w3")
  have w1: "w1 = issued (''/user.info?handles='' @ h) w"
    using getUserInfo_world [of r h w] a by simp
  have w2: "w2 = issued (''/user.rating?handle='' @ h) (w1\<lparr>now := now w\<rparr>)"
    using getUserRatingChanges_world [of r h "w1\<lparr>now := now w\<rparr>"] b by simp
  have w3: "w3 = issued (''/user.status?handle='' @ h @ ''&from=1&count=1'') (w2\<lparr>now := now w\<rparr>)"
    using getUserSubmissions_world11 [of r h "w2\<lparr>now := now w\<rparr>"] c by simp
  have w4: "w4 = issued (''/user.status?handle='' @ h) w3"
    using getUserSubmissions_world [of r h w3] d by simp
  show ?thesis
    using a b c d w1 w2 w3 w4
    by (cases a) (simp_all add: getUserStats_def Let_def)
qed

lemma getUserStats_frame [simp]:
  "students (snd (getUserStats r h w)) = students w"
  "contests (snd (getUserStats r h w)) = contests w"
  "submissions (snd (getUserStats r h w)) = submissions w"
  "ratingChanges (snd (getUserStats r h w)) = ratingChanges w"
  by (simp_all add: getUserStats_snd Let_def)

lemma getUserStats_requests:
  "requests (snd (getUserStats r h w)) =
     (if isl (fst (getUserInfo r h w)) then requests w + 3 else requests w + 4)"
  by (simp add: getUserStats_snd Let_def)

lemma getUserStats_now:
  "now (snd (getUserStats r h w)) =
     (if isl (fst (getUserInfo r h w)) then now w + int REQUEST_DELAY
      else now w + 2 * int REQUEST_DELAY)"
  by (simp add: getUserStats_snd Let_def)

lemma syncContests_snd:
  "\<exists>store. snd (syncContests r w) = (issued ''/contest.list?gym=false'' w)\<lparr>contests := store\<rparr>"
proof -
  obtain a w1 where a: "getContests r (Some False) w = (a, w1)"
    by (cases "getContests r (Some False) w")
  have w1: "w1 = issued ''/contest.list?gym=false'' w"
    using getContests_world [of r w] a by simp
  show ?thesis
  proof (cases a)
    case (Inl e)
    then have "snd (syncContests r w) = w1\<lparr>contests := contests w1\<rparr>"
      using a by (simp add: syncContests_def)
    then show ?thesis unfolding w1 by blast
  next
    case (Inr cs)
    then show ?thesis
      using a w1 by (auto simp: syncContests_def split: prod.splits)
  qed
qed

lemma syncContests_frame [simp]:
  "students (snd (syncContests r w)) = students w"
  "submissions (snd (syncContests r w)) = submissions w"
  "ratingChanges (snd (syncContests r w)) = ratingChanges w"
  "requests (snd (syncContests r w)) = Suc (requests w)"
  "now (snd (syncContests r w)) = now w + int REQUEST_DELAY"
  "trace (snd (syncContests r w)) = trace w @ [Delay REQUEST_DELAY, Get (BASE_URL @ ''/contest.list?gym=false'')]"
  using syncContests_snd [of r w] by auto

lemma syncSubmissions_error:
  "fst (getUserSubmissions r h None None w) = Inl e \<Longrightarrow>
     syncSubmissions r h i w = (Inl e, issued (''/user.status?handle='' @ h) w)"
  using getUserSubmissions_world [of r h w]
  by (cases "getUserSubmissions r h None None w") (auto simp: syncSubmissions_def)

lemma syncSubmissions_snd:
  "\<exists>store. snd (syncSubmissions r h i w) = (issued (''/user.status?handle='' @ h) w)\<lparr>submissions := store\<rparr>"
proof -
  obtain a w1 where a: "getUserSubmissions r h None None w = (a, w1)"
    by (cases "getUserSubmissions r h None None w")
  have w1: "w1 = issued (''/user.status?handle='' @ h) w"
    using getUserSubmissions_world [of r h w] a by simp
  show ?thesis
  proof (cases a)
    case (Inl e)
    then have "snd (syncSubmissions r h i w) = w1\<lparr>submissions := submissions w1\<rparr>"
      using a by (simp add: syncSubmissions_def)
    then show ?thesis unfolding w1 by blast
  next
    case (Inr cs)
    then show ?thesis
      using a w1 by (auto simp: syncSubmissions_def split: prod.splits)
  qed
qed

lemma syncSubmissions_frame [simp]:
  "students (snd (syncSubmissions r h i w)) = students w"
  "contests (snd (syncSubmissions r h i w)) = contests w"
  "ratingChanges (snd (syncSubmissions r h i w)) = ratingChanges w"
  "requests (snd (syncSubmissions r h i w)) = Suc (requests w)"
  "now (snd (syncSubmissions r h i w)) = now w + int REQUEST_DELAY"
  "trace (snd (syncSubmissions r h i w)) = trace w @ [Delay REQUEST_DELAY, Get (BASE_URL @ ''/user.status?handle='' @ h)]"
  using syncSubmissions_snd [of r h i w] by auto

lemma syncSubmissions_fst:
  "fst (syncSubmissions r h i w) =
     (case fst (getUserSubmissions r h None None w) of
        Inl e \<Rightarrow> Inl e
      | Inr subs \<Rightarrow> fst (syncSubmissions_loop h i subs (submissions w) 0))"
proof -
  obtain a w1 where a: "getUserSubmissions r h None None w = (a, w1)"
    by (cases "getUserSubmissions r h None None w")
  have "w1 = issued (''/user.status?handle='' @ h) w"
    using getUserSubmissions_world [of r h w] a by simp
  then have "submissions w1 = submissions w" by simp
  then show ?thesis
    using a by (cases a) (simp_all add: syncSubmissions_def split_beta)
qed

lemma syncRatingChanges_fst:
  "fst (syncRatingChanges h i cs w) = fst (syncRatingChanges_loop h i cs (ratingChanges w) 0)"
  by (simp add: syncRatingChanges_def split_beta)

lemma syncRatingChanges_frame [simp]:
  "students (snd (syncRatingChanges h i cs w)) = students w"
  "contests (snd (syncRatingChanges h i cs w)) = contests w"
  "submissions (snd (syncRatingChanges h i cs w)) = submissions w"
  "requests (snd (syncRatingChanges h i cs w)) = requests w"
  "now (snd (syncRatingChanges h i cs w)) = now w"
  "trace (snd (syncRatingChanges h i cs w)) = trace w"
  by (simp_all add: syncRatingChanges_def split: prod.splits)

lemma updateFirst_map_key:
  "(\<And>x. k (f x) = k x) \<Longrightarrow> map k (updateFirst P f xs) = map k xs"
  by (induction xs) auto

lemma updateStudentRatings_frame [simp]:
  "map sid (students (updateStudentRatings i u w)) = map sid (students w)"
  "contests (updateStudentRatings i u w) = contests w"
  "submissions (updateStudentRatings i u w) = submissions w"
  "ratingChanges (updateStudentRatings i u w) = ratingChanges w"
  "requests (updateStudentRatings i u w) = requests w"
  "now (updateStudentRatings i u w) = now w"
  "trace (updateStudentRatings i u w) = trace w"
  by (simp_all add: updateStudentRatings_def updateFirst_map_key)

lemma sid_preSave [simp]: "sid (preSave d) = sid d"
  by (simp add: preSave_def)

lemma Student_validate_lastDataUpdate [simp]:
  "Student_validate (d\<lparr>lastDataUpdate := t\<rparr>) = Student_validate d"
  by (simp add: Student_validate_def)

lemma Student_save_isl:
  "isl (Student_save loaded doc w) \<longleftrightarrow>
     \<not> Student_validate doc \<or> sid doc \<notin> set (map sid (students w))"
proof -
  have "list_ex (\<lambda>s. sid s = sid doc) (students w) \<longleftrightarrow> sid doc \<in> set (map sid (students w))"
    unfolding list_ex_iff by (simp add: image_iff) metis
  then show ?thesis
    by (simp add: Student_save_def Let_def)
qed


lemma Student_save_students:
  assumes "Student_save loaded doc w = Inr w'"
  shows "students w' =
     updateFirst (\<lambda>s. sid s = sid doc)
       (\<lambda>s. s\<lparr>name := (if name (preSave doc) \<noteq> name loaded then name (preSave doc) else name s),
              email := (if email (preSave doc) \<noteq> email loaded then email (preSave doc) else email s),
              phoneNumber :=
                (if phoneNumber (preSave doc) \<noteq> phoneNumber loaded
                 then phoneNumber (preSave doc) else phoneNumber s),
              codeforcesHandle :=
                (if codeforcesHandle (preSave doc) \<noteq> codeforcesHandle loaded
                 then codeforcesHandle (preSave doc) else codeforcesHandle s),
              currentRating :=
                (if currentRating (preSave doc) \<noteq> currentRating loaded
                 then currentRating (preSave doc) else currentRating s),
              maxRating :=
                (if maxRating (preSave doc) \<noteq> maxRating loaded
                 then maxRating (preSave doc) else maxRating s),
              lastDataUpdate :=
                (if lastDataUpdate (preSave doc) \<noteq> lastDataUpdate loaded
                 then lastDataUpdate (preSave doc) else lastDataUpdate s),
              emailNotificationsEnabled :=
                (if emailNotificationsEnabled (preSave doc) \<noteq> emailNotificationsEnabled loaded
                 then emailNotificationsEnabled (preSave doc) else emailNotificationsEnabled s),
              reminderEmailCount :=
                (if reminderEmailCount (preSave doc) \<noteq> reminderEmailCount loaded
                 then reminderEmailCount (preSave doc) else reminderEmailCount s)\<rparr>)
       (students w)"
  using assms by (auto simp: Student_save_def Let_def split: if_splits)

text \<open>The ways in which the four steps of \<^verbatim>\<open>syncHandle\<close> can end.\<close>

lemma syncHandle_steps_cases:
  obtains
    (invalid)
      "isl (fst (getUserInfo r h w))"
      "syncHandle_steps r h st w =
         (\<lparr> success = False, message = ''Invalid handle '' @ quoted h, data = None, error = None \<rparr>,
          snd (validateHandle r h w))"
  | (no_stats) e where
      "\<not> isl (fst (getUserInfo r h w))"
      "fst (getUserStats r h (snd (validateHandle r h w))) = Inl e"
      "syncHandle_steps r h st w = (syncFailed h e, snd (getUserStats r h (snd (validateHandle r h w))))"
  | (no_subs) stats e where
      "\<not> isl (fst (getUserInfo r h w))"
      "fst (getUserStats r h (snd (validateHandle r h w))) = Inr stats"
      "fst (syncSubmissions r h (sid st)
         (snd (syncContests r (snd (getUserStats r h (snd (validateHandle r h w))))))) = Inl e"
      "syncHandle_steps r h st w =
         (syncFailed h e,
          snd (syncSubmissions r h (sid st)
            (snd (syncContests r (snd (getUserStats r h (snd (validateHandle r h w))))))))"
  | (no_changes) stats n e where
      "\<not> isl (fst (getUserInfo r h w))"
      "fst (getUserStats r h (snd (validateHandle r h w))) = Inr stats"
      "fst (syncSubmissions r h (sid st)
         (snd (syncContests r (snd (getUserStats r h (snd (validateHandle r h w))))))) = Inr n"
      "fst (syncRatingChanges h (sid st) (st_ratingChanges stats)
         (snd (syncSubmissions r h (sid st)
            (snd (syncContests r (snd (getUserStats r h (snd (validateHandle r h w))))))))) = Inl e"
      "syncHandle_steps r h st w =
         (syncFailed h e,
          snd (syncRatingChanges h (sid st) (st_ratingChanges stats)
            (snd (syncSubmissions r h (sid st)
               (snd (syncContests r (snd (getUserStats r h (snd (validateHandle r h w))))))))))"
  | (reached_save) stats n m w5 where
      "\<not> isl (fst (getUserInfo r h w))"
      "fst (getUserStats r h (snd (validateHandle r h w))) = Inr stats"
      "fst (syncSubmissions r h (sid st)
         (snd (syncContests r (snd (getUserStats r h (snd (validateHandle r h w))))))) = Inr n"
      "syncRatingChanges h (sid st) (st_ratingChanges stats)
         (snd (syncSubmissions r h (sid st)
            (snd (syncContests r (snd (getUserStats r h (snd (validateHandle r h w))))))))
       = (Inr m, w5)"
      "syncHandle_steps r h st w =
         (case Student_save st (st\<lparr>lastDataUpdate := Some (now w5)\<rparr>)
                 (updateStudentRatings (sid st) (st_user stats) w5) of
            Inl e \<Rightarrow> (syncFailed h e, updateStudentRatings (sid st) (st_user stats) w5)
          | Inr w7 \<Rightarrow>
              (\<lparr> success = True, message = ''Synced '' @ quoted h @ '' successfully'',
                 data = Some \<lparr> submissionsAdded = n, ratingChangesAdded = m,
                   contestsAdded = fst (syncContests r (snd (getUserStats r h (snd (validateHandle r h w))))),
                   sum_currentRating = u_rating (st_user stats),
                   sum_maxRating = u_maxRating (st_user stats) \<rparr>,
                 error = None \<rparr>, w7))"
proof -
  obtain w1 where w1: "w1 = snd (validateHandle r h w)" by simp
  obtain w2 where w2: "w2 = snd (getUserStats r h w1)" by simp
  obtain c w3 where c: "syncContests r w2 = (c, w3)" by (cases "syncContests r w2")
  obtain s w4 where s: "syncSubmissions r h (sid st) w3 = (s, w4)"
    by (cases "syncSubmissions r h (sid st) w3")
  have v: "validateHandle r h w = (\<not> isl (fst (getUserInfo r h w)), w1)"
    unfolding w1 by (simp add: validateHandle_eq)
  obtain g where g: "getUserStats r h w1 = (g, w2)"
    unfolding w2 by (metis prod.collapse)
  have w3: "w3 = snd (syncContests r w2)" "c = fst (syncContests r w2)" using c by simp_all
  have w4: "w4 = snd (syncSubmissions r h (sid st) w3)" "s = fst (syncSubmissions r h (sid st) w3)"
    using s by simp_all
  show thesis
  proof (cases "isl (fst (getUserInfo r h w))")
    case True
    then have "syncHandle_steps r h st w =
        (\<lparr> success = False, message = ''Invalid handle '' @ quoted h, data = None, error = None \<rparr>, w1)"
      using v by (simp add: syncHandle_steps_def)
    then show thesis using True invalid unfolding w1 by blast
  next
    case ok: False
    then have v1: "validateHandle r h w = (True, w1)" using v by simp
    show thesis
    proof (cases g)
      case (Inl e)
      then have "syncHandle_steps r h st w = (syncFailed h e, w2)"
        using v1 g by (simp add: syncHandle_steps_def)
      moreover have "fst (getUserStats r h w1) = Inl e" using g Inl by simp
      ultimately show thesis using no_stats [of e] ok unfolding w2 w1 by blast
    next
      case stats: (Inr stats)
      have gs: "fst (getUserStats r h w1) = Inr stats" using g stats by simp
      show thesis
      proof (cases s)
        case (Inl e)
        then have "syncHandle_steps r h st w = (syncFailed h e, w4)"
          using v1 g stats c s by (simp add: syncHandle_steps_def)
        moreover have "fst (syncSubmissions r h (sid st) w3) = Inl e" using s Inl by simp
        ultimately show thesis
          using no_subs [of stats e] ok gs unfolding w4 w3 w2 w1 by blast
      next
        case n: (Inr n)
        have sn: "fst (syncSubmissions r h (sid st) w3) = Inr n" using s n by simp
        obtain m w5 where rc: "syncRatingChanges h (sid st) (st_ratingChanges stats) w4 = (m, w5)"
          by (cases "syncRatingChanges h (sid st) (st_ratingChanges stats) w4")
        show thesis
        proof (cases m)
          case (Inl e)
          then have "syncHandle_steps r h st w = (syncFailed h e, w5)"
            using v1 g stats c s n rc by (simp add: syncHandle_steps_def)
          moreover have "fst (syncRatingChanges h (sid st) (st_ratingChanges stats) w4) = Inl e"
              "w5 = snd (syncRatingChanges h (sid st) (st_ratingChanges stats) w4)"
            using rc Inl by simp_all
          ultimately show thesis
            using no_changes [of stats n e] ok gs sn unfolding w4 w3 w2 w1 by blast
        next
          case m': (Inr m')
          have nw: "now (updateStudentRatings (sid st) (st_user stats) w5) = now w5"
            by simp
          have "syncHandle_steps r h st w =
             (case Student_save st (st\<lparr>lastDataUpdate := Some (now w5)\<rparr>)
                   (updateStudentRatings (sid st) (st_user stats) w5) of
              Inl e \<Rightarrow> (syncFailed h e, updateStudentRatings (sid st) (st_user stats) w5)
            | Inr w7 \<Rightarrow>
                (\<lparr> success = True, message = ''Synced '' @ quoted h @ '' successfully'',
                   data = Some \<lparr> submissionsAdded = n, ratingChangesAdded = m',
                     contestsAdded = c,
                     sum_currentRating = u_rating (st_user stats),
                     sum_maxRating = u_maxRating (st_user stats) \<rparr>,
                   error = None \<rparr>, w7))"
            using v1 g stats c s n rc m' nw by (simp add: syncHandle_steps_def Let_def)
          moreover have "syncRatingChanges h (sid st) (st_ratingChanges stats) w4 = (Inr m', w5)"
            using rc m' by simp
          ultimately show thesis
            using reached_save [of stats n m' w5] ok gs sn unfolding w4 w3 w2 w1 by blast
        qed
      qed
    qed
  qed
qed

lemma getUserStats_Inl:
  "fst (getUserStats r h w) = Inl e \<longleftrightarrow>
     isl (fst (getUserInfo r h w)) \<and> e = ''User '' @ quoted h @ '' not found''"
  by (cases "fst (getUserInfo r h w)") (auto simp: getUserStats_fst)

lemma getUserStats_Inr:
  "fst (getUserStats r h w) = Inr stats \<Longrightarrow> \<not> isl (fst (getUserInfo r h w))"
  by (cases "fst (getUserInfo r h w)") (auto simp: getUserStats_fst)

lemma getUserStats_user:
  "fst (getUserStats r h w) = Inr stats \<Longrightarrow> fst (getUserInfo r h w) = Inr (st_user stats)"
  by (cases "fst (getUserInfo r h w)") (auto simp: getUserStats_fst)

text \<open>Which requests decide the outcome of a sync, and what is reported.\<close>

lemma syncHandle_outcome:
  "(isl (fst (getUserInfo r h w)) \<longrightarrow>
        fst (syncHandle r h (Some st) w) =
          \<lparr> success = False, message = ''Invalid handle '' @ quoted h, data = None, error = None \<rparr>)
   \<and> (\<not> isl (fst (getUserInfo r h w))
        \<and> isl (fst (getUserInfo r h (snd (validateHandle r h w)))) \<longrightarrow>
        fst (syncHandle r h (Some st) w) = syncFailed h (''User '' @ quoted h @ '' not found''))
   \<and> (\<forall>e. \<not> isl (fst (getUserInfo r h w))
        \<and> \<not> isl (fst (getUserInfo r h (snd (validateHandle r h w))))
        \<and> fst (getUserSubmissions r h None None
               (snd (syncContests r (snd (getUserStats r h (snd (validateHandle r h w))))))) = Inl e
        \<longrightarrow> fst (syncHandle r h (Some st) w) = syncFailed h e)
   \<and> (\<forall>stats subs. \<not> isl (fst (getUserInfo r h w))
        \<and> fst (getUserStats r h (snd (validateHandle r h w))) = Inr stats
        \<and> fst (getUserSubmissions r h None None
               (snd (syncContests r (snd (getUserStats r h (snd (validateHandle r h w))))))) = Inr subs
        \<longrightarrow> (success (fst (syncHandle r h (Some st) w)) \<longleftrightarrow>
               \<not> isl (fst (syncSubmissions_loop h (sid st) subs (submissions w) 0))
             \<and> \<not> isl (fst (syncRatingChanges_loop h (sid st) (st_ratingChanges stats)
                              (ratingChanges w) 0))
             \<and> Student_validate st
             \<and> sid st \<in> set (map sid (students w))))
   \<and> (success (fst (syncHandle r h (Some st) w)) \<longrightarrow>
         \<not> isl (fst (getUserInfo r h w))
       \<and> \<not> isl (fst (getUserInfo r h (snd (validateHandle r h w))))
       \<and> \<not> isl (fst (getUserSubmissions r h None None
               (snd (syncContests r (snd (getUserStats r h (snd (validateHandle r h w)))))))))"
proof -
  obtain w1 where w1: "w1 = snd (validateHandle r h w)" by simp
  obtain w3 where w3: "w3 = snd (syncContests r (snd (getUserStats r h w1)))" by simp
  obtain w4 where w4: "w4 = snd (syncSubmissions r h (sid st) w3)" by simp
  obtain A0 where A0: "A0 = fst (getUserInfo r h w)" by simp
  obtain A1 where A1: "A1 = fst (getUserInfo r h w1)" by simp
  obtain G where G: "G = fst (getUserStats r h w1)" by simp
  obtain F where F: "F = fst (getUserSubmissions r h None None w3)" by simp
  obtain R where R: "R = fst (syncHandle r h (Some st) w)" by simp
  have top: "syncHandle r h (Some st) w = syncHandle_steps r h st w"
    by (simp add: syncHandle_def)
  have sub3: "submissions w3 = submissions w" "students w3 = students w"
      "ratingChanges w3 = ratingChanges w"
    unfolding w3 w1 by (simp_all add: validateHandle_eq)
  have st4: "students w4 = students w" "ratingChanges w4 = ratingChanges w"
    unfolding w4 using sub3 by simp_all
  have S: "fst (syncSubmissions r h (sid st) w3) =
     (case F of Inl e \<Rightarrow> Inl e
      | Inr subs \<Rightarrow> fst (syncSubmissions_loop h (sid st) subs (submissions w) 0))"
    unfolding F using sub3(1) by (simp add: syncSubmissions_fst cong: sum.case_cong)
  have GA: "\<And>e. G = Inl e \<longleftrightarrow> isl A1 \<and> e = ''User '' @ quoted h @ '' not found''"
      "\<And>stats. G = Inr stats \<Longrightarrow> \<not> isl A1"
    unfolding G A1 by (simp_all add: getUserStats_Inl getUserStats_Inr)
  have goal: "(isl A0 \<longrightarrow>
        R = \<lparr> success = False, message = ''Invalid handle '' @ quoted h, data = None, error = None \<rparr>)
   \<and> (\<not> isl A0 \<and> isl A1 \<longrightarrow> R = syncFailed h (''User '' @ quoted h @ '' not found''))
   \<and> (\<forall>e. \<not> isl A0 \<and> \<not> isl A1 \<and> F = Inl e \<longrightarrow> R = syncFailed h e)
   \<and> (\<forall>stats subs. \<not> isl A0 \<and> G = Inr stats \<and> F = Inr subs
        \<longrightarrow> (success R \<longleftrightarrow>
               \<not> isl (fst (syncSubmissions_loop h (sid st) subs (submissions w) 0))
             \<and> \<not> isl (fst (syncRatingChanges_loop h (sid st) (st_ratingChanges stats)
                              (ratingChanges w) 0))
             \<and> Student_validate st
             \<and> sid st \<in> set (map sid (students w))))
   \<and> (success R \<longrightarrow> \<not> isl A0 \<and> \<not> isl A1 \<and> \<not> isl F)"
  proof (cases rule: syncHandle_steps_cases [of r h w st])
    case invalid
    then have "isl A0"
        "R = \<lparr> success = False, message = ''Invalid handle '' @ quoted h, data = None, error = None \<rparr>"
      unfolding A0 R top by simp_all
    then show ?thesis by simp
  next
    case (no_stats e)
    then have "\<not> isl A0" "G = Inl e" "R = syncFailed h e"
      unfolding A0 G R top w1 by simp_all
    then show ?thesis using GA(1) [of e] by (auto simp: syncFailed_def)
  next
    case (no_subs stats e)
    then have f: "\<not> isl A0" "G = Inr stats" "fst (syncSubmissions r h (sid st) w3) = Inl e"
        "R = syncFailed h e"
      unfolding A0 G R top w3 w1 by simp_all
    have na: "\<not> isl A1" using GA(2) f(2) by blast
    show ?thesis
    proof (cases F)
      case (Inl e')
      then have "e' = e" using S f(3) by simp
      then show ?thesis using f na Inl by (simp add: syncFailed_def)
    next
      case (Inr subs)
      then have "fst (syncSubmissions_loop h (sid st) subs (submissions w) 0) = Inl e"
        using S f(3) by simp
      then show ?thesis using f na Inr by (simp add: syncFailed_def)
    qed
  next
    case (no_changes stats n e)
    then have f: "\<not> isl A0" "G = Inr stats" "fst (syncSubmissions r h (sid st) w3) = Inr n"
        "fst (syncRatingChanges h (sid st) (st_ratingChanges stats) w4) = Inl e"
        "R = syncFailed h e"
      unfolding A0 G R top w4 w3 w1 by simp_all
    have na: "\<not> isl A1" using GA(2) f(2) by blast
    have rcf: "fst (syncRatingChanges_loop h (sid st) (st_ratingChanges stats) (ratingChanges w) 0)
                 = Inl e"
      using f(4) st4(2) by (simp add: syncRatingChanges_fst)
    show ?thesis
    proof (cases F)
      case (Inl e')
      then show ?thesis using S f(3) by simp
    next
      case (Inr subs)
      then show ?thesis using f na rcf by (simp add: syncFailed_def)
    qed
  next
    case (reached_save stats n m w5)
    then have f: "\<not> isl A0" "G = Inr stats" "fst (syncSubmissions r h (sid st) w3) = Inr n"
        "syncRatingChanges h (sid st) (st_ratingChanges stats) w4 = (Inr m, w5)"
      unfolding A0 G w4 w3 w1 by simp_all
    have na: "\<not> isl A1" using GA(2) f(2) by blast
    have rcf: "fst (syncRatingChanges_loop h (sid st) (st_ratingChanges stats) (ratingChanges w) 0)
                 = Inr m"
      using f(4) st4(2) syncRatingChanges_fst [of h "sid st" "st_ratingChanges stats" w4] by simp
    have "w5 = snd (syncRatingChanges h (sid st) (st_ratingChanges stats) w4)"
      using f(4) by simp
    then have s5: "students w5 = students w"
      using st4(1) by simp
    obtain w6 where w6: "w6 = updateStudentRatings (sid st) (st_user stats) w5" by simp
    have sids: "map sid (students w6) = map sid (students w)"
      unfolding w6 using s5 by simp
    have saved: "isl (Student_save st (st\<lparr>lastDataUpdate := Some (now w5)\<rparr>) w6)
                   \<longleftrightarrow> \<not> Student_validate st \<or> sid st \<notin> set (map sid (students w))"
      using sids by (simp add: Student_save_isl)
    have Rk: "success R \<longleftrightarrow> Student_validate st \<and> sid st \<in> set (map sid (students w))"
      using reached_save(5) saved unfolding R top w6
      by (cases "Student_save st (st\<lparr>lastDataUpdate := Some (now w5)\<rparr>)
                   (updateStudentRatings (sid st) (st_user stats) w5)")
         (simp_all add: syncFailed_def)
    show ?thesis
    proof (cases F)
      case (Inl e')
      then show ?thesis using S f(3) by simp
    next
      case (Inr subs)
      then have "fst (syncSubmissions_loop h (sid st) subs (submissions w) 0) = Inr n"
        using S f(3) by simp
      then show ?thesis using f(1,2) na rcf Rk Inr by simp
    qed
  qed
  show ?thesis
    using goal unfolding R F G A1 A0 w3 w1 .
qed

lemma syncHandle_success_world:
  assumes "success (fst (syncHandle r h (Some st) w))"
  shows "\<exists>u w5. fst (getUserInfo r h (snd (validateHandle r h w))) = Inr u
           \<and> students w5 = students w \<and> now w5 = now w + 5 * int REQUEST_DELAY
           \<and> requests w5 = requests w + 7
           \<and> Student_save st (st\<lparr>lastDataUpdate := Some (now w5)\<rparr>)
                (updateStudentRatings (sid st) u w5) = Inr (snd (syncHandle r h (Some st) w))"
proof -
  have top: "syncHandle r h (Some st) w = syncHandle_steps r h st w"
    by (simp add: syncHandle_def)
  show ?thesis
  proof (cases rule: syncHandle_steps_cases [of r h w st])
    case invalid
    then show ?thesis using assms top by simp
  next
    case (no_stats e)
    then show ?thesis using assms top by (simp add: syncFailed_def)
  next
    case (no_subs stats e)
    then show ?thesis using assms top by (simp add: syncFailed_def)
  next
    case (no_changes stats n e)
    then show ?thesis using assms top by (simp add: syncFailed_def)
  next
    case (reached_save stats n m w5)
    obtain w1 where w1: "w1 = snd (validateHandle r h w)" by simp
    obtain w4 where w4:
      "w4 = snd (syncSubmissions r h (sid st) (snd (syncContests r (snd (getUserStats r h w1)))))"
      by simp
    have u: "fst (getUserInfo r h w1) = Inr (st_user stats)"
      using reached_save(2) unfolding w1 by (rule getUserStats_user)
    have w5: "w5 = snd (syncRatingChanges h (sid st) (st_ratingChanges stats) w4)"
      using reached_save(4) unfolding w4 w1 by simp
    have s5: "students w5 = students w"
      unfolding w5 w4 w1 by simp
    have n5: "now w5 = now w + 5 * int REQUEST_DELAY"
      unfolding w5 w4 using u by (simp add: getUserStats_now w1)
    have r5: "requests w5 = requests w + 7"
      unfolding w5 w4 using u by (simp add: getUserStats_requests w1)
    have "Student_save st (st\<lparr>lastDataUpdate := Some (now w5)\<rparr>)
                (updateStudentRatings (sid st) (st_user stats) w5)
            = Inr (snd (syncHandle r h (Some st) w))"
      using reached_save(5) assms top
      by (cases "Student_save st (st\<lparr>lastDataUpdate := Some (now w5)\<rparr>)
                (updateStudentRatings (sid st) (st_user stats) w5)") (simp_all add: syncFailed_def)
    then show ?thesis
      using u s5 n5 r5 unfolding w1 by blast
  qed
qed


subsection \<open>Evaluating the sample data\<close>

lemma getUserRatingChanges_fst:
  "fst (getUserRatingChanges r h w) =
     (case makeRequest_try (user_rating r (requests w) (''/user.rating?handle='' @ h)) of
        Inl e \<Rightarrow> if str_includes (makeRequest_catch e) ''not found''
                     \<or> str_includes (makeRequest_catch e) ''rating'' then Inr []
                  else Inl (makeRequest_catch e)
      | Inr None \<Rightarrow> Inr []
      | Inr (Some cs) \<Rightarrow> Inr cs)"
  by (simp add: getUserRatingChanges_def makeRequest_eq split: sum.splits option.splits)

lemma ex_change_valid:
  "RatingChange_validate (RatingChange_doc ''tourist'' i (ex_change n))"
  by (simp add: RatingChange_validate_def RatingChange_doc_def ex_change_def)

lemma ex_student_valid:
  "Student_validate ex_student" "Student_validate stale_student" "Student_validate fresh_student"
  by (simp_all add: Student_validate_def ex_student_def stale_student_def fresh_student_def
        matches_email_def matches_phone_def matches_handle_def rating_in_range_def
        digits_def letters_def whitespace_def Let_def upt_rec)


lemma ex_stats:
  assumes "user_info r (Suc (requests w)) ''/user.info?handles=tourist''
             = HttpResponse ''OK'' None (Some [ex_user])"
      and "user_rating r (Suc (Suc (requests w))) ''/user.rating?handle=tourist''
             = HttpResponse ''OK'' None (Some [ex_change 1])"
  shows "\<exists>stats. fst (getUserStats r ''tourist'' (snd (validateHandle r ''tourist'' w))) = Inr stats
           \<and> st_user stats = ex_user \<and> st_ratingChanges stats = [ex_change 1]"
  using assms
  by (simp add: getUserStats_fst getUserInfo_fst getUserRatingChanges_fst validateHandle_eq
        getUserInfo_world)

lemma ex_sync_success:
  assumes ui: "user_info r = user_info ex_remote"
      and ur: "user_rating r = user_rating ex_remote"
      and us: "user_status r = user_status ex_remote"
      and valid: "Student_validate st"
      and stored: "sid st \<in> set (map sid (students w))"
  shows "success (fst (syncHandle r ''tourist'' (Some st) w))"
proof -
  obtain w3 where w3: "w3 = snd (syncContests r (snd (getUserStats r ''tourist''
       (snd (validateHandle r ''tourist'' w)))))" by simp
  have A0: "\<not> isl (fst (getUserInfo r ''tourist'' w))"
    by (simp add: getUserInfo_fst ui ex_remote_def)
  have "\<exists>stats. fst (getUserStats r ''tourist'' (snd (validateHandle r ''tourist'' w))) = Inr stats
           \<and> st_user stats = ex_user \<and> st_ratingChanges stats = [ex_change 1]"
    by (rule ex_stats) (simp_all add: ui ur ex_remote_def)
  then obtain stats where G:
      "fst (getUserStats r ''tourist'' (snd (validateHandle r ''tourist'' w))) = Inr stats"
      and rc: "st_ratingChanges stats = [ex_change 1]"
    by (elim exE conjE)
  have F: "fst (getUserSubmissions r ''tourist'' None None w3)
             = Inr [ex_submission 10, ex_submission 11]"
    by (simp add: getUserSubmissions_fst us ex_remote_def)
  have L1: "\<not> isl (fst (syncSubmissions_loop ''tourist'' (sid st)
                [ex_submission 10, ex_submission 11] (submissions w) 0))"
    by (rule syncSubmissions_loop_valid) (simp add: ex_submission_valid)
  have L2: "\<not> isl (fst (syncRatingChanges_loop ''tourist'' (sid st) (st_ratingChanges stats)
                (ratingChanges w) 0))"
    unfolding rc by (rule syncRatingChanges_loop_valid) (simp add: ex_change_valid)
  note c4 = conjunct1 [OF conjunct2 [OF conjunct2 [OF conjunct2
              [OF syncHandle_outcome [of r "''tourist''" w st]]]]]
  show ?thesis
    using c4 [rule_format, of stats "[ex_submission 10, ex_submission 11]"]
      A0 G F [unfolded w3] L1 L2 valid stored
    by blast
qed

lemma unjudged_loop:
  "syncSubmissions_loop ''tourist'' ex_id
          [(ex_submission 11)\<lparr>s_verdict := []\<rparr>, ex_submission 12]
          [Submission_doc ''tourist'' ex_id (ex_submission 10)] 0
        = (Inl SubmissionValidationFailed, [Submission_doc ''tourist'' ex_id (ex_submission 10)])"
proof -
  have ne: "\<not> Submission_exists 11 [Submission_doc ''tourist'' ex_id (ex_submission 10)]"
    by (simp add: Submission_exists_def Submission_doc_def ex_submission_def)
  have bad: "Submission_create ''tourist'' ex_id ((ex_submission 11)\<lparr>s_verdict := []\<rparr>)
               = Inl SubmissionValidationFailed"
    by (simp add: Submission_create_def Submission_validate_def Submission_doc_def)
  show ?thesis
    using ne bad by (simp add: ex_submission_def)
qed

text \<open>
  C2, as stated, fails: with a remote whose contest-list request is answered by HTTP 503
  while every other request succeeds, \<^verbatim>\<open>syncContests\<close> catches the error and the sync
  of the user goes on to report success.
\<close>

theorem contest_list_failure_does_not_abort:
  "fst (getContests no_contests_remote (Some False)
          (snd (getUserStats no_contests_remote ''tourist''
             (snd (validateHandle no_contests_remote ''tourist'' ex_world)))))
     = Inl ''Codeforces API is temporarily unavailable''
   \<and> success (fst (syncHandle no_contests_remote ''tourist'' (Some ex_student) ex_world))"
proof -
  have A: "fst (getContests no_contests_remote (Some False)
            (snd (getUserStats no_contests_remote ''tourist''
               (snd (validateHandle no_contests_remote ''tourist'' ex_world)))))
        = Inl ''Codeforces API is temporarily unavailable''"
    by (simp add: getContests_fst no_contests_remote_def)
  have B: "success (fst (syncHandle no_contests_remote ''tourist'' (Some ex_student) ex_world))"
    by (rule ex_sync_success)
       (simp_all add: no_contests_remote_def ex_student_valid ex_world_def)
  show ?thesis using A B by (rule conjI)
qed

text \<open>
  C2, amended. Let the document of the user be passed in. A failure of the profile request
  of \<^verbatim>\<open>validateHandle\<close> is reported as \<^verbatim>\<open>Invalid handle\<close> without an error text, a
  failure of the profile request of \<^verbatim>\<open>getUserStats\<close> as a failed sync with the error
  \<^verbatim>\<open>User '...' not found\<close>, and a failure of the submissions request of
  \<^verbatim>\<open>syncSubmissions\<close> as a failed sync carrying the message of that error. When all
  three yield a result, the sync succeeds exactly when no fetched submission and no fetched
  rating change that has to be stored is rejected by the validators of its schema, the
  student document passes the validators of the student schema, and the document is still
  stored. A successful sync has had all three requests answered. The contest-list request,
  the rating-history request and the two submission requests of \<^verbatim>\<open>getUserStats\<close> do
  not occur in the condition: their errors are swallowed.
\<close>

theorem remote_errors_that_abort:
  "(isl (fst (getUserInfo r h w)) \<longrightarrow>
        fst (syncHandle r h (Some st) w) =
          \<lparr> success = False, message = ''Invalid handle '' @ quoted h, data = None, error = None \<rparr>)
   \<and> (\<not> isl (fst (getUserInfo r h w))
        \<and> isl (fst (getUserInfo r h (snd (validateHandle r h w)))) \<longrightarrow>
        fst (syncHandle r h (Some st) w) = syncFailed h (''User '' @ quoted h @ '' not found''))
   \<and> (\<forall>e. \<not> isl (fst (getUserInfo r h w))
        \<and> \<not> isl (fst (getUserInfo r h (snd (validateHandle r h w))))
        \<and> fst (getUserSubmissions r h None None
               (snd (syncContests r (snd (getUserStats r h (snd (validateHandle r h w))))))) = Inl e
        \<longrightarrow> fst (syncHandle r h (Some st) w) = syncFailed h e)
   \<and> (\<forall>stats subs. \<not> isl (fst (getUserInfo r h w))
        \<and> fst (getUserStats r h (snd (validateHandle r h w))) = Inr stats
        \<and> fst (getUserSubmissions r h None None
               (snd (syncContests r (snd (getUserStats r h (snd (validateHandle r h w))))))) = Inr subs
        \<longrightarrow> (success (fst (syncHandle r h (Some st) w)) \<longleftrightarrow>
               \<not> isl (fst (syncSubmissions_loop h (sid st) subs (submissions w) 0))
             \<and> \<not> isl (fst (syncRatingChanges_loop h (sid st) (st_ratingChanges stats)
                              (ratingChanges w) 0))
             \<and> Student_validate st
             \<and> sid st \<in> set (map sid (students w))))
   \<and> (success (fst (syncHandle r h (Some st) w)) \<longrightarrow>
         \<not> isl (fst (getUserInfo r h w))
       \<and> \<not> isl (fst (getUserInfo r h (snd (validateHandle r h w))))
       \<and> \<not> isl (fst (getUserSubmissions r h None None
               (snd (syncContests r (snd (getUserStats r h (snd (validateHandle r h w)))))))))"
  by (rule syncHandle_outcome)

theorem remote_errors_that_abort_witness:
  "isl (fst (getUserInfo no_profile_remote ''tourist'' ex_world))
   \<and> fst (syncHandle no_profile_remote ''tourist'' (Some ex_student) ex_world)
       = \<lparr> success = False, message = ''Invalid handle '' @ quoted ''tourist'', data = None,
           error = None \<rparr>
   \<and> \<not> isl (fst (getUserInfo late_profile_remote ''tourist'' ex_world))
   \<and> isl (fst (getUserInfo late_profile_remote ''tourist''
              (snd (validateHandle late_profile_remote ''tourist'' ex_world))))
   \<and> fst (syncHandle late_profile_remote ''tourist'' (Some ex_student) ex_world)
       = syncFailed ''tourist'' (''User '' @ quoted ''tourist'' @ '' not found'')
   \<and> fst (getUserSubmissions no_status_remote ''tourist'' None None
            (snd (syncContests no_status_remote (snd (getUserStats no_status_remote ''tourist''
               (snd (validateHandle no_status_remote ''tourist'' ex_world)))))))
       = Inl ''Codeforces API is temporarily unavailable''
   \<and> fst (syncHandle no_status_remote ''tourist'' (Some ex_student) ex_world)
       = syncFailed ''tourist'' ''Codeforces API is temporarily unavailable''
   \<and> fst (getUserSubmissions unjudged_remote ''tourist'' None None
            (snd (syncContests unjudged_remote (snd (getUserStats unjudged_remote ''tourist''
               (snd (validateHandle unjudged_remote ''tourist'' ex_world)))))))
       = Inr [(ex_submission 11)\<lparr>s_verdict := []\<rparr>, ex_submission 12]
   \<and> isl (fst (syncSubmissions_loop ''tourist'' (sid ex_student)
            [(ex_submission 11)\<lparr>s_verdict := []\<rparr>, ex_submission 12] (submissions ex_world) 0))
   \<and> \<not> success (fst (syncHandle unjudged_remote ''tourist'' (Some ex_student) ex_world))"
proof -
  have a: "isl (fst (getUserInfo no_profile_remote ''tourist'' ex_world))"
    by (simp add: getUserInfo_fst no_profile_remote_def ex_remote_def)
  have b: "\<not> isl (fst (getUserInfo late_profile_remote ''tourist'' ex_world))"
      "isl (fst (getUserInfo late_profile_remote ''tourist''
              (snd (validateHandle late_profile_remote ''tourist'' ex_world))))"
    by (simp_all add: getUserInfo_fst late_profile_remote_def ex_remote_def ex_world_def)
  have c: "\<not> isl (fst (getUserInfo no_status_remote ''tourist'' ex_world))"
      "\<not> isl (fst (getUserInfo no_status_remote ''tourist''
              (snd (validateHandle no_status_remote ''tourist'' ex_world))))"
      "fst (getUserSubmissions no_status_remote ''tourist'' None None
            (snd (syncContests no_status_remote (snd (getUserStats no_status_remote ''tourist''
               (snd (validateHandle no_status_remote ''tourist'' ex_world)))))))
       = Inl ''Codeforces API is temporarily unavailable''"
    by (simp_all add: getUserInfo_fst getUserSubmissions_fst getUserStats_requests
          no_status_remote_def ex_remote_def ex_world_def)
  have d1: "\<not> isl (fst (getUserInfo unjudged_remote ''tourist'' ex_world))"
    by (simp add: getUserInfo_fst unjudged_remote_def ex_remote_def)
  have d2: "fst (getUserSubmissions unjudged_remote ''tourist'' None None
            (snd (syncContests unjudged_remote (snd (getUserStats unjudged_remote ''tourist''
               (snd (validateHandle unjudged_remote ''tourist'' ex_world)))))))
       = Inr [(ex_submission 11)\<lparr>s_verdict := []\<rparr>, ex_submission 12]"
    by (simp add: unjudged_fetch)
  have "\<exists>stats. fst (getUserStats unjudged_remote ''tourist''
                   (snd (validateHandle unjudged_remote ''tourist'' ex_world))) = Inr stats
           \<and> st_user stats = ex_user \<and> st_ratingChanges stats = [ex_change 1]"
    by (rule ex_stats) (simp_all add: unjudged_remote_def ex_remote_def)
  then obtain stats where G:
      "fst (getUserStats unjudged_remote ''tourist''
         (snd (validateHandle unjudged_remote ''tourist'' ex_world))) = Inr stats"
    by (elim exE conjE)
  have e: "isl (fst (syncSubmissions_loop ''tourist'' (sid ex_student)
            [(ex_submission 11)\<lparr>s_verdict := []\<rparr>, ex_submission 12] (submissions ex_world) 0))"
    using unjudged_loop
    by (simp add: ex_world_def ex_student_def del: syncSubmissions_loop.simps)
  note A = conjunct1 [OF remote_errors_that_abort
             [of no_profile_remote "''tourist''" ex_world ex_student]]
  note B = conjunct1 [OF conjunct2 [OF remote_errors_that_abort
             [of late_profile_remote "''tourist''" ex_world ex_student]]]
  note C = conjunct1 [OF conjunct2 [OF conjunct2 [OF remote_errors_that_abort
             [of no_status_remote "''tourist''" ex_world ex_student]]]]
  note D = conjunct1 [OF conjunct2 [OF conjunct2 [OF conjunct2 [OF remote_errors_that_abort
             [of unjudged_remote "''tourist''" ex_world ex_student]]]]]
  have ra: "fst (syncHandle no_profile_remote ''tourist'' (Some ex_student) ex_world)
       = \<lparr> success = False, message = ''Invalid handle '' @ quoted ''tourist'', data = None,
           error = None \<rparr>"
    using A a by (rule mp)
  have rb: "fst (syncHandle late_profile_remote ''tourist'' (Some ex_student) ex_world)
       = syncFailed ''tourist'' (''User '' @ quoted ''tourist'' @ '' not found'')"
    using B b by blast
  have rc: "fst (syncHandle no_status_remote ''tourist'' (Some ex_student) ex_world)
       = syncFailed ''tourist'' ''Codeforces API is temporarily unavailable''"
    using C [rule_format, of "''Codeforces API is temporarily unavailable''"] c by blast
  have rd: "\<not> success (fst (syncHandle unjudged_remote ''tourist'' (Some ex_student) ex_world))"
    using D [rule_format, of stats "[(ex_submission 11)\<lparr>s_verdict := []\<rparr>, ex_submission 12]"]
      d1 d2 G e by blast
  show ?thesis
    by (intro conjI a ra b rb c(3) rc d2 e rd)
qed

lemma stale_success:
  "success (fst (syncHandle ex_remote ''tourist'' (Some stale_student) stale_world))"
  by (rule ex_sync_success) (simp_all add: ex_student_valid stale_world_def)


text \<open>
  C5 at a student stored with current rating 1500 and no maximum, when the remote profile
  has rating 1600 and maximum 1700: the sync succeeds, \<^verbatim>\<open>updateStudentRatings\<close>
  stores 1600 and 1700, and the save that follows runs the pre-save hook on the document
  as it was loaded, which sets the maximum to the old current rating 1500 and writes it
  over the fetched 1700.
\<close>

theorem stale_document_overrides_fetched_maxRating:
  "success (fst (syncHandle ex_remote ''tourist'' (Some stale_student) stale_world))
   \<and> u_maxRating ex_user = Some 1700
   \<and> students (snd (syncHandle ex_remote ''tourist'' (Some stale_student) stale_world))
       = [\<lparr> sid = ''64b7f0000000000000000001'', name = ''Gennady'',
            email = ''gennady@example.com'', phoneNumber = ''+375291234567'',
            codeforcesHandle = ''tourist'',
            currentRating = Some 1600, maxRating = Some 1500,
            lastDataUpdate = Some 1700000001000,
            emailNotificationsEnabled = True, reminderEmailCount = 0 \<rparr>]"
proof -
  have "\<exists>u w5. fst (getUserInfo ex_remote ''tourist''
                     (snd (validateHandle ex_remote ''tourist'' stale_world))) = Inr u
           \<and> students w5 = students stale_world
           \<and> now w5 = now stale_world + 5 * int REQUEST_DELAY
           \<and> requests w5 = requests stale_world + 7
           \<and> Student_save stale_student (stale_student\<lparr>lastDataUpdate := Some (now w5)\<rparr>)
                (updateStudentRatings (sid stale_student) u w5)
               = Inr (snd (syncHandle ex_remote ''tourist'' (Some stale_student) stale_world))"
    using stale_success by (rule syncHandle_success_world)
  then obtain u w5 where u: "fst (getUserInfo ex_remote ''tourist''
           (snd (validateHandle ex_remote ''tourist'' stale_world))) = Inr u"
      and s5: "students w5 = students stale_world"
      and n5: "now w5 = now stale_world + 5 * int REQUEST_DELAY"
      and r5: "requests w5 = requests stale_world + 7"
      and save: "Student_save stale_student (stale_student\<lparr>lastDataUpdate := Some (now w5)\<rparr>)
                (updateStudentRatings (sid stale_student) u w5)
             = Inr (snd (syncHandle ex_remote ''tourist'' (Some stale_student) stale_world))"
    by (elim exE conjE)
  have "u = ex_user"
    using u by (simp add: getUserInfo_fst ex_remote_def)
  then have "students (snd (syncHandle ex_remote ''tourist'' (Some stale_student) stale_world))
       = [\<lparr> sid = ''64b7f0000000000000000001'', name = ''Gennady'',
            email = ''gennady@example.com'', phoneNumber = ''+375291234567'',
            codeforcesHandle = ''tourist'',
            currentRating = Some 1600, maxRating = Some 1500,
            lastDataUpdate = Some 1700000001000,
            emailNotificationsEnabled = True, reminderEmailCount = 0 \<rparr>]"
    using Student_save_students [OF save] s5 n5
    by (simp add: updateStudentRatings_def preSave_def truthy_def js_num_def
          ex_user_def stale_world_def stale_student_def ex_student_def ex_world_def ex_id_def
          REQUEST_DELAY_def)
  then show ?thesis
    using stale_success by (simp add: ex_user_def)
qed




section \<open>Properties of the batch run\<close>

lemma syncAllStudents_loop_append:
  "syncAllStudents_loop r (xs @ ys) acc w =
     syncAllStudents_loop r ys (fst (syncAllStudents_loop r xs acc w))
       (snd (syncAllStudents_loop r xs acc w))"
proof (induction xs arbitrary: acc w)
  case Nil
  then show ?case by simp
next
  case (Cons st sts)
  obtain res ok failed where acc: "acc = (res, ok, failed)" by (cases acc)
  show ?case
    unfolding acc by (simp add: split_beta Let_def Cons.IH)
qed

lemma syncAllStudents_loop_take_Suc:
  assumes "i < length sts"
  shows "syncAllStudents_loop r (take (Suc i) sts) acc w =
     ((fst (fst (syncAllStudents_loop r (take i sts) acc w))
         @ [\<lparr> e_studentId = sid (sts ! i), e_handle = codeforcesHandle (sts ! i),
              e_result = fst (syncHandle r (codeforcesHandle (sts ! i)) (Some (sts ! i))
                               (snd (syncAllStudents_loop r (take i sts) acc w))) \<rparr>],
       (if success (fst (syncHandle r (codeforcesHandle (sts ! i)) (Some (sts ! i))
                               (snd (syncAllStudents_loop r (take i sts) acc w))))
        then fst (snd (fst (syncAllStudents_loop r (take i sts) acc w))) + 1
        else fst (snd (fst (syncAllStudents_loop r (take i sts) acc w)))),
       (if success (fst (syncHandle r (codeforcesHandle (sts ! i)) (Some (sts ! i))
                               (snd (syncAllStudents_loop r (take i sts) acc w))))
        then snd (snd (fst (syncAllStudents_loop r (take i sts) acc w)))
        else snd (snd (fst (syncAllStudents_loop r (take i sts) acc w))) + 1)),
      delay STUDENT_DELAY_MS
        (snd (syncHandle r (codeforcesHandle (sts ! i)) (Some (sts ! i))
                (snd (syncAllStudents_loop r (take i sts) acc w)))))"
proof -
  obtain res ok failed w' where L:
      "syncAllStudents_loop r (take i sts) acc w = ((res, ok, failed), w')"
    by (cases "syncAllStudents_loop r (take i sts) acc w") auto
  have "take (Suc i) sts = take i sts @ [sts ! i]"
    using assms by (rule take_Suc_conv_app_nth)
  then show ?thesis
    by (simp add: syncAllStudents_loop_append L split_beta Let_def)
qed

lemma syncAllStudents_loop_prefix:
  "k \<le> length sts \<Longrightarrow>
     length (fst (fst (syncAllStudents_loop r (take k sts) ([], 0, 0) w))) = k
   \<and> (\<forall>i<k. fst (fst (syncAllStudents_loop r (take k sts) ([], 0, 0) w)) ! i =
         \<lparr> e_studentId = sid (sts ! i), e_handle = codeforcesHandle (sts ! i),
           e_result = fst (syncHandle r (codeforcesHandle (sts ! i)) (Some (sts ! i))
                        (snd (syncAllStudents_loop r (take i sts) ([], 0, 0) w))) \<rparr>)"
proof (induction k)
  case 0
  then show ?case by simp
next
  case (Suc k)
  then have k: "k < length sts" and IH:
      "length (fst (fst (syncAllStudents_loop r (take k sts) ([], 0, 0) w))) = k"
      "\<forall>i<k. fst (fst (syncAllStudents_loop r (take k sts) ([], 0, 0) w)) ! i =
         \<lparr> e_studentId = sid (sts ! i), e_handle = codeforcesHandle (sts ! i),
           e_result = fst (syncHandle r (codeforcesHandle (sts ! i)) (Some (sts ! i))
                        (snd (syncAllStudents_loop r (take i sts) ([], 0, 0) w))) \<rparr>"
    by simp_all
  show ?case
    unfolding syncAllStudents_loop_take_Suc [OF k]
    using IH by (simp add: nth_append less_Suc_eq)
qed

lemma syncAllStudents_loop_entries:
  "\<exists>new ok' failed' w'.
      syncAllStudents_loop r sts (res, ok, failed) w = ((res @ new, ok', failed'), w')
    \<and> map e_studentId new = map sid sts
    \<and> map e_handle new = map codeforcesHandle sts
    \<and> ok' = ok + length (filter (\<lambda>e. success (e_result e)) new)
    \<and> failed' = failed + length (filter (\<lambda>e. \<not> success (e_result e)) new)"
proof (induction sts arbitrary: res ok failed w)
  case Nil
  then show ?case by simp
next
  case (Cons st sts)
  obtain x w1 where x: "syncHandle r (codeforcesHandle st) (Some st) w = (x, w1)"
    by (cases "syncHandle r (codeforcesHandle st) (Some st) w")
  let ?e = "\<lparr> e_studentId = sid st, e_handle = codeforcesHandle st, e_result = x \<rparr>"
  let ?ok = "if success x then ok + 1 else ok"
  let ?failed = "if success x then failed else failed + 1"
  obtain new ok' failed' w' where IH:
      "syncAllStudents_loop r sts (res @ [?e], ?ok, ?failed) (delay STUDENT_DELAY_MS w1)
         = (((res @ [?e]) @ new, ok', failed'), w')"
      "map e_studentId new = map sid sts"
      "map e_handle new = map codeforcesHandle sts"
      "ok' = ?ok + length (filter (\<lambda>e. success (e_result e)) new)"
      "failed' = ?failed + length (filter (\<lambda>e. \<not> success (e_result e)) new)"
    using Cons.IH [of "res @ [?e]" ?ok ?failed "delay STUDENT_DELAY_MS w1"] by blast
  have "syncAllStudents_loop r (st # sts) (res, ok, failed) w = ((res @ (?e # new), ok', failed'), w')"
    using x IH(1) by simp
  moreover have "map e_studentId (?e # new) = map sid (st # sts)"
    using IH(2) by simp
  moreover have "map e_handle (?e # new) = map codeforcesHandle (st # sts)"
    using IH(3) by simp
  moreover have "ok' = ok + length (filter (\<lambda>e. success (e_result e)) (?e # new))"
    using IH(4) by simp
  moreover have "failed' = failed + length (filter (\<lambda>e. \<not> success (e_result e)) (?e # new))"
    using IH(5) by simp
  ultimately show ?case by blast
qed

text \<open>The stores in which the batch run starts the sync of each student, and the one in
  which it ends.\<close>

lemma syncAllStudents_run:
  "\<exists>ws. length ws = Suc (length (students w)) \<and> ws ! 0 = w
      \<and> snd (syncAllStudents r w) = ws ! length (students w)
      \<and> (\<forall>i<length (students w).
            results (fst (syncAllStudents r w)) ! i =
              \<lparr> e_studentId = sid (students w ! i),
                e_handle = codeforcesHandle (students w ! i),
                e_result = fst (syncHandle r (codeforcesHandle (students w ! i))
                                  (Some (students w ! i)) (ws ! i)) \<rparr>
          \<and> ws ! Suc i = delay STUDENT_DELAY_MS
                (snd (syncHandle r (codeforcesHandle (students w ! i))
                        (Some (students w ! i)) (ws ! i))))"
proof -
  obtain sts where sts: "sts = students w" by simp
  obtain ws where ws:
      "ws = map (\<lambda>k. snd (syncAllStudents_loop r (take k sts) ([], 0, 0) w)) [0..<Suc (length sts)]"
    by simp
  have nth: "\<And>k. k \<le> length sts \<Longrightarrow>
               ws ! k = snd (syncAllStudents_loop r (take k sts) ([], 0, 0) w)"
    unfolding ws by (simp del: upt_Suc)
  have len: "length ws = Suc (length sts)"
    unfolding ws by (simp del: upt_Suc)
  have zero: "ws ! 0 = w"
    using nth [of 0] by simp
  have S: "syncAllStudents r w =
      (\<lparr> totalStudents = length sts,
         successfulSyncs = fst (snd (fst (syncAllStudents_loop r sts ([], 0, 0) w))),
         failedSyncs = snd (snd (fst (syncAllStudents_loop r sts ([], 0, 0) w))),
         results = fst (fst (syncAllStudents_loop r sts ([], 0, 0) w)) \<rparr>,
       snd (syncAllStudents_loop r sts ([], 0, 0) w))"
    unfolding sts by (simp add: syncAllStudents_def Let_def split_beta)
  have fin: "snd (syncAllStudents r w) = ws ! length sts"
    using nth [of "length sts"] S by simp
  have P: "\<forall>i<length sts. fst (fst (syncAllStudents_loop r (take (length sts) sts) ([], 0, 0) w)) ! i =
         \<lparr> e_studentId = sid (sts ! i), e_handle = codeforcesHandle (sts ! i),
           e_result = fst (syncHandle r (codeforcesHandle (sts ! i)) (Some (sts ! i))
                        (snd (syncAllStudents_loop r (take i sts) ([], 0, 0) w))) \<rparr>"
    using syncAllStudents_loop_prefix [of "length sts" sts r w] by simp
  have step: "\<forall>i<length sts.
            results (fst (syncAllStudents r w)) ! i =
              \<lparr> e_studentId = sid (sts ! i), e_handle = codeforcesHandle (sts ! i),
                e_result = fst (syncHandle r (codeforcesHandle (sts ! i)) (Some (sts ! i))
                                  (ws ! i)) \<rparr>
          \<and> ws ! Suc i = delay STUDENT_DELAY_MS
                (snd (syncHandle r (codeforcesHandle (sts ! i)) (Some (sts ! i)) (ws ! i)))"
  proof (intro allI impI)
    fix i assume i: "i < length sts"
    have a: "ws ! i = snd (syncAllStudents_loop r (take i sts) ([], 0, 0) w)"
      using nth [of i] i by simp
    have b: "ws ! Suc i = snd (syncAllStudents_loop r (take (Suc i) sts) ([], 0, 0) w)"
      using nth [of "Suc i"] i by simp
    have c: "results (fst (syncAllStudents r w)) ! i =
              \<lparr> e_studentId = sid (sts ! i), e_handle = codeforcesHandle (sts ! i),
                e_result = fst (syncHandle r (codeforcesHandle (sts ! i)) (Some (sts ! i))
                                  (ws ! i)) \<rparr>"
      unfolding a using P i S by simp
    have d: "ws ! Suc i = delay STUDENT_DELAY_MS
                (snd (syncHandle r (codeforcesHandle (sts ! i)) (Some (sts ! i)) (ws ! i)))"
      unfolding b a syncAllStudents_loop_take_Suc [OF i] by simp
    show "results (fst (syncAllStudents r w)) ! i =
              \<lparr> e_studentId = sid (sts ! i), e_handle = codeforcesHandle (sts ! i),
                e_result = fst (syncHandle r (codeforcesHandle (sts ! i)) (Some (sts ! i))
                                  (ws ! i)) \<rparr>
          \<and> ws ! Suc i = delay STUDENT_DELAY_MS
                (snd (syncHandle r (codeforcesHandle (sts ! i)) (Some (sts ! i)) (ws ! i)))"
      using c d by (rule conjI)
  qed
  show ?thesis
    by (rule exI [of _ ws]) (intro conjI len [unfolded sts] zero fin [unfolded sts] step [unfolded sts])
qed

lemma syncAllStudents_counts:
  "totalStudents (fst (syncAllStudents r w)) = length (students w)
   \<and> successfulSyncs (fst (syncAllStudents r w)) + failedSyncs (fst (syncAllStudents r w))
       = totalStudents (fst (syncAllStudents r w))
   \<and> length (results (fst (syncAllStudents r w))) = length (students w)
   \<and> map e_studentId (results (fst (syncAllStudents r w))) = map sid (students w)
   \<and> map e_handle (results (fst (syncAllStudents r w))) = map codeforcesHandle (students w)
   \<and> successfulSyncs (fst (syncAllStudents r w))
       = length (filter (\<lambda>e. success (e_result e)) (results (fst (syncAllStudents r w))))
   \<and> failedSyncs (fst (syncAllStudents r w))
       = length (filter (\<lambda>e. \<not> success (e_result e)) (results (fst (syncAllStudents r w))))"
proof -
  obtain new ok' failed' w' where L:
      "syncAllStudents_loop r (students w) ([], 0, 0) w = (([] @ new, ok', failed'), w')"
      "map e_studentId new = map sid (students w)"
      "map e_handle new = map codeforcesHandle (students w)"
      "ok' = 0 + length (filter (\<lambda>e. success (e_result e)) new)"
      "failed' = 0 + length (filter (\<lambda>e. \<not> success (e_result e)) new)"
    using syncAllStudents_loop_entries [of r "students w" "[]" 0 0 w] by blast
  have S: "fst (syncAllStudents r w) =
      \<lparr> totalStudents = length (students w), successfulSyncs = ok', failedSyncs = failed',
        results = new \<rparr>"
    using L(1) by (simp add: syncAllStudents_def Let_def)
  have len: "length new = length (students w)"
    using L(2) by (metis length_map)
  have "ok' + failed' = length new"
    unfolding L(4) L(5) using sum_length_filter_compl [of "\<lambda>e. success (e_result e)" new] by simp
  then show ?thesis
    unfolding S using L(2,3,4,5) len by simp
qed

text \<open>
  C3. Whatever the remote answers, \<^verbatim>\<open>syncAllStudents\<close> syncs every stored student in
  turn: there are stores \<open>ws ! 0\<close>, ..., \<open>ws ! n\<close>, the first the store of the call
  and the last the store it returns, such that the result recorded at position \<open>i\<close>
  carries the id and the handle of student \<open>i\<close> and is the result of
  \<^verbatim>\<open>syncHandle\<close> for that student from \<open>ws ! i\<close>, whether the syncs before it
  failed or not, and \<open>ws ! (i + 1)\<close> is the store that sync leaves, after the wait
  between students. There is one result per student; the two counters count the
  successful and the failed results, and they add up to \<^verbatim>\<open>totalStudents\<close>, the number
  of students.
\<close>

theorem syncAllStudents_totals:
  "(\<exists>ws. length ws = Suc (length (students w)) \<and> ws ! 0 = w
      \<and> snd (syncAllStudents r w) = ws ! length (students w)
      \<and> (\<forall>i<length (students w).
            results (fst (syncAllStudents r w)) ! i =
              \<lparr> e_studentId = sid (students w ! i),
                e_handle = codeforcesHandle (students w ! i),
                e_result = fst (syncHandle r (codeforcesHandle (students w ! i))
                                  (Some (students w ! i)) (ws ! i)) \<rparr>
          \<and> ws ! Suc i = delay STUDENT_DELAY_MS
                (snd (syncHandle r (codeforcesHandle (students w ! i))
                        (Some (students w ! i)) (ws ! i)))))
   \<and> totalStudents (fst (syncAllStudents r w)) = length (students w)
   \<and> successfulSyncs (fst (syncAllStudents r w)) + failedSyncs (fst (syncAllStudents r w))
       = totalStudents (fst (syncAllStudents r w))
   \<and> length (results (fst (syncAllStudents r w))) = length (students w)
   \<and> map e_studentId (results (fst (syncAllStudents r w))) = map sid (students w)
   \<and> map e_handle (results (fst (syncAllStudents r w))) = map codeforcesHandle (students w)
   \<and> successfulSyncs (fst (syncAllStudents r w))
       = length (filter (\<lambda>e. success (e_result e)) (results (fst (syncAllStudents r w))))
   \<and> failedSyncs (fst (syncAllStudents r w))
       = length (filter (\<lambda>e. \<not> success (e_result e)) (results (fst (syncAllStudents r w))))"
  using syncAllStudents_run [of w r] syncAllStudents_counts [of r w] by (rule conjI)

theorem syncAllStudents_totals_witness:
  "results (fst (syncAllStudents ex_remote ex_world))
     = [\<lparr> e_studentId = ex_id, e_handle = ''tourist'',
          e_result = fst (syncHandle ex_remote ''tourist'' (Some ex_student) ex_world) \<rparr>]
   \<and> successfulSyncs (fst (syncAllStudents ex_remote ex_world)) = 1
   \<and> failedSyncs (fst (syncAllStudents ex_remote ex_world)) = 0"
proof -
  note T = syncAllStudents_totals [of ex_world ex_remote]
  have sts: "students ex_world = [ex_student]" by (simp add: ex_world_def)
  have "\<exists>ws. length ws = Suc (length (students ex_world)) \<and> ws ! 0 = ex_world
      \<and> snd (syncAllStudents ex_remote ex_world) = ws ! length (students ex_world)
      \<and> (\<forall>i<length (students ex_world).
            results (fst (syncAllStudents ex_remote ex_world)) ! i =
              \<lparr> e_studentId = sid (students ex_world ! i),
                e_handle = codeforcesHandle (students ex_world ! i),
                e_result = fst (syncHandle ex_remote (codeforcesHandle (students ex_world ! i))
                                  (Some (students ex_world ! i)) (ws ! i)) \<rparr>
          \<and> ws ! Suc i = delay STUDENT_DELAY_MS
                (snd (syncHandle ex_remote (codeforcesHandle (students ex_world ! i))
                        (Some (students ex_world ! i)) (ws ! i))))"
    by (rule conjunct1 [OF T])
  then obtain ws where z: "ws ! 0 = ex_world"
      and st: "\<forall>i<length (students ex_world).
            results (fst (syncAllStudents ex_remote ex_world)) ! i =
              \<lparr> e_studentId = sid (students ex_world ! i),
                e_handle = codeforcesHandle (students ex_world ! i),
                e_result = fst (syncHandle ex_remote (codeforcesHandle (students ex_world ! i))
                                  (Some (students ex_world ! i)) (ws ! i)) \<rparr>
          \<and> ws ! Suc i = delay STUDENT_DELAY_MS
                (snd (syncHandle ex_remote (codeforcesHandle (students ex_world ! i))
                        (Some (students ex_world ! i)) (ws ! i)))"
    by (elim exE conjE)
  have r0: "results (fst (syncAllStudents ex_remote ex_world)) ! 0 =
      \<lparr> e_studentId = ex_id, e_handle = ''tourist'',
        e_result = fst (syncHandle ex_remote ''tourist'' (Some ex_student) ex_world) \<rparr>"
    using st [rule_format, of 0] z by (simp add: sts) (simp add: ex_student_def)
  have len: "length (results (fst (syncAllStudents ex_remote ex_world))) = 1"
    using T by (simp add: sts)
  have res: "results (fst (syncAllStudents ex_remote ex_world))
     = [\<lparr> e_studentId = ex_id, e_handle = ''tourist'',
          e_result = fst (syncHandle ex_remote ''tourist'' (Some ex_student) ex_world) \<rparr>]"
    using r0 len
    by (cases "results (fst (syncAllStudents ex_remote ex_world))") simp_all
  have ok: "success (fst (syncHandle ex_remote ''tourist'' (Some ex_student) ex_world))"
    by (rule ex_sync_success) (simp_all add: ex_student_valid ex_world_def)
  have "successfulSyncs (fst (syncAllStudents ex_remote ex_world))
       = length (filter (\<lambda>e. success (e_result e))
           (results (fst (syncAllStudents ex_remote ex_world))))"
      "failedSyncs (fst (syncAllStudents ex_remote ex_world))
       = length (filter (\<lambda>e. \<not> success (e_result e))
           (results (fst (syncAllStudents ex_remote ex_world))))"
    using T by blast+
  then show ?thesis
    unfolding res using ok by simp
qed

section \<open>Properties of the trace\<close>



lemma paced_request [simp]: "paced [Delay REQUEST_DELAY, Get u]"
  by simp




lemma paced_step_now [simp]: "paced_step w (w'\<lparr>now := t\<rparr>) = paced_step w w'"
  by (simp add: paced_step_def)



















section \<open>Properties of the pre-save hook\<close>

text \<open>For a current rating other than 0 the hook does leave a maximum that is at least the
  current rating.\<close>

lemma preSave_raises_nonzero:
  assumes "currentRating d = Some c" "c \<noteq> 0"
  shows "\<exists>m. maxRating (preSave d) = Some m \<and> c \<le> m"
proof (cases "maxRating d")
  case None
  then show ?thesis using assms by (simp add: preSave_def truthy_def)
next
  case (Some m)
  then show ?thesis using assms by (auto simp: preSave_def truthy_def js_num_def)
qed

text \<open>
  C9 at a document with current rating 0 and no maximum: 0 is falsy, the hook leaves the
  document as it is and the maximum stays unset.
\<close>

theorem preSave_skips_zero_rating:
  "preSave (ex_student\<lparr>currentRating := Some 0\<rparr>) = ex_student\<lparr>currentRating := Some 0\<rparr>
   \<and> maxRating (preSave (ex_student\<lparr>currentRating := Some 0\<rparr>)) = None"
  by (simp add: preSave_def truthy_def ex_student_def)

theorem preSave_skips_zero_rating_witness:
  "\<not> truthy (maxRating (ex_student\<lparr>currentRating := Some 0\<rparr>))
   \<and> currentRating (preSave (ex_student\<lparr>currentRating := Some 0\<rparr>)) = Some 0
   \<and> maxRating (preSave (ex_student\<lparr>currentRating := Some 0\<rparr>)) = None"
  using preSave_skips_zero_rating by (simp add: truthy_def ex_student_def)

section \<open>Properties of the scheduler\<close>


lemma executeSync_running:
  "isRunning (jobStatus sys) \<Longrightarrow> executeSync r hrs f sys = [sys]"
  by (simp add: executeSync_def)

text \<open>The states of a run that starts: the first has the flag raised, those in which the
  loop is suspended differ from it in the store only, and the last has the flag lowered.\<close>

lemma executeSync_shape:
  assumes "\<not> isRunning (jobStatus sys)"
  shows "\<exists>ws fin. executeSync r hrs f sys =
            map (\<lambda>w. sys\<lparr>db := w, jobStatus := (jobStatus sys)\<lparr>isRunning := True,
                                     lastRun := Some (now (db sys))\<rparr>\<rparr>) (db sys # ws) @ [fin]
          \<and> \<not> isRunning (jobStatus fin)"
proof -
  obtain sys1 where sys1:
      "sys1 = sys\<lparr>jobStatus := (jobStatus sys)\<lparr>isRunning := True, lastRun := Some (now (db sys))\<rparr>\<rparr>"
    by simp
  have m: "\<And>w. sys\<lparr>db := w, jobStatus := (jobStatus sys)\<lparr>isRunning := True,
                                     lastRun := Some (now (db sys))\<rparr>\<rparr> = sys1\<lparr>db := w\<rparr>"
    unfolding sys1 by simp
  have h: "sys1\<lparr>db := db sys\<rparr> = sys1"
    unfolding sys1 by simp
  obtain q where q: "q = (if f then getAllStudents sys1 else getStudentsNeedingUpdate hrs sys1)"
    by simp
  have E: "executeSync r hrs f sys = sys1 #
            (case q of
               Inl e \<Rightarrow>
                 [executeSync_finally
                    (sys1\<lparr>jobStatus := (jobStatus sys1)\<lparr>lastResult := Some
                       \<lparr> lr_success = False, studentsProcessed = 0, errors = 1,
                         duration = now (db sys1) - now (db sys) \<rparr>\<rparr>\<rparr>)]
             | Inr studentsNeedingUpdate \<Rightarrow>
                 if length studentsNeedingUpdate = 0
                 then [executeSync_finally
                         (sys1\<lparr>jobStatus := (jobStatus sys1)\<lparr>lastResult := Some
                            \<lparr> lr_success = True, studentsProcessed = 0, errors = 0,
                              duration = now (db sys1) - now (db sys) \<rparr>\<rparr>\<rparr>)]
                 else
                   (let ((processed, errs), ws) =
                          executeSync_loop r studentsNeedingUpdate (0, 0) (db sys1);
                        w' = last (db sys1 # ws)
                    in map (\<lambda>w. sys1\<lparr>db := w\<rparr>) ws @
                       [executeSync_finally
                          (sys1\<lparr>db := w',
                                jobStatus := (jobStatus sys1)\<lparr>lastResult := Some
                                  \<lparr> lr_success = (errs = 0), studentsProcessed = processed,
                                    errors = errs, duration = now w' - now (db sys) \<rparr>\<rparr>\<rparr>)]))"
    using assms unfolding q sys1 by (simp add: executeSync_def Let_def)
  have "\<exists>ws fin. executeSync r hrs f sys = map (\<lambda>w. sys1\<lparr>db := w\<rparr>) (db sys # ws) @ [fin]
          \<and> \<not> isRunning (jobStatus fin)"
  proof (cases q)
    case (Inl e)
    have "executeSync r hrs f sys = map (\<lambda>w. sys1\<lparr>db := w\<rparr>) (db sys # []) @
             [executeSync_finally
                    (sys1\<lparr>jobStatus := (jobStatus sys1)\<lparr>lastResult := Some
                       \<lparr> lr_success = False, studentsProcessed = 0, errors = 1,
                         duration = now (db sys1) - now (db sys) \<rparr>\<rparr>\<rparr>)]"
      unfolding E Inl using h by simp
    moreover have "\<not> isRunning (jobStatus (executeSync_finally
                    (sys1\<lparr>jobStatus := (jobStatus sys1)\<lparr>lastResult := Some
                       \<lparr> lr_success = False, studentsProcessed = 0, errors = 1,
                         duration = now (db sys1) - now (db sys) \<rparr>\<rparr>\<rparr>)))"
      by (simp add: executeSync_finally_def)
    ultimately show ?thesis by blast
  next
    case (Inr sel)
    show ?thesis
    proof (cases "length sel = 0")
      case True
      have "executeSync r hrs f sys = map (\<lambda>w. sys1\<lparr>db := w\<rparr>) (db sys # []) @
             [executeSync_finally
                         (sys1\<lparr>jobStatus := (jobStatus sys1)\<lparr>lastResult := Some
                            \<lparr> lr_success = True, studentsProcessed = 0, errors = 0,
                              duration = now (db sys1) - now (db sys) \<rparr>\<rparr>\<rparr>)]"
        unfolding E Inr using h True by simp
      moreover have "\<not> isRunning (jobStatus (executeSync_finally
                         (sys1\<lparr>jobStatus := (jobStatus sys1)\<lparr>lastResult := Some
                            \<lparr> lr_success = True, studentsProcessed = 0, errors = 0,
                              duration = now (db sys1) - now (db sys) \<rparr>\<rparr>\<rparr>)))"
        by (simp add: executeSync_finally_def)
      ultimately show ?thesis by blast
    next
      case False
      obtain p e ws where l: "executeSync_loop r sel (0, 0) (db sys1) = ((p, e), ws)"
        by (metis prod.collapse)
      obtain fin where fin: "fin = executeSync_finally
                          (sys1\<lparr>db := last (db sys1 # ws),
                                jobStatus := (jobStatus sys1)\<lparr>lastResult := Some
                                  \<lparr> lr_success = (e = 0), studentsProcessed = p,
                                    errors = e,
                                    duration = now (last (db sys1 # ws)) - now (db sys) \<rparr>\<rparr>\<rparr>)"
        by simp
      have "executeSync r hrs f sys = map (\<lambda>w. sys1\<lparr>db := w\<rparr>) (db sys # ws) @ [fin]"
        unfolding E Inr fin using h False l by (simp add: Let_def)
      moreover have "\<not> isRunning (jobStatus fin)"
        unfolding fin by (simp add: executeSync_finally_def)
      ultimately show ?thesis by blast
    qed
  qed
  then show ?thesis
    unfolding m .
qed

lemma executeSync_query_fails:
  assumes "\<not> isRunning (jobStatus sys)" "findError sys = Some e"
  shows "executeSync r hrs f sys =
           [sys\<lparr>jobStatus := (jobStatus sys)\<lparr>isRunning := True, lastRun := Some (now (db sys))\<rparr>\<rparr>,
            sys\<lparr>jobStatus := (jobStatus sys)\<lparr>isRunning := False, lastRun := Some (now (db sys)),
                   lastResult := Some \<lparr> lr_success = False, studentsProcessed = 0, errors = 1,
                                       duration = 0 \<rparr>\<rparr>\<rparr>]"
  using assms
  by (simp add: executeSync_def Let_def getAllStudents_def getStudentsNeedingUpdate_def
        executeSync_finally_def)

lemma executeSync_flag:
  assumes "\<not> isRunning (jobStatus sys)"
  shows "2 \<le> length (executeSync r hrs f sys)
       \<and> (\<forall>s \<in> set (butlast (executeSync r hrs f sys)).
             isRunning (jobStatus s)
           \<and> (\<forall>r' hrs' f' w'. executeSync r' hrs' f' (s\<lparr>db := w'\<rparr>) = [s\<lparr>db := w'\<rparr>]))
       \<and> \<not> isRunning (jobStatus (last (executeSync r hrs f sys)))"
proof -
  have "\<exists>ws fin. executeSync r hrs f sys =
            map (\<lambda>w. sys\<lparr>db := w, jobStatus := (jobStatus sys)\<lparr>isRunning := True,
                                     lastRun := Some (now (db sys))\<rparr>\<rparr>) (db sys # ws) @ [fin]
          \<and> \<not> isRunning (jobStatus fin)"
    using assms by (rule executeSync_shape)
  then obtain ws fin where run: "executeSync r hrs f sys =
            map (\<lambda>w. sys\<lparr>db := w, jobStatus := (jobStatus sys)\<lparr>isRunning := True,
                                     lastRun := Some (now (db sys))\<rparr>\<rparr>) (db sys # ws) @ [fin]"
      and fin: "\<not> isRunning (jobStatus fin)"
    by (elim exE conjE)
  have a: "2 \<le> length (executeSync r hrs f sys)"
    unfolding run by simp
  have b: "\<forall>s \<in> set (butlast (executeSync r hrs f sys)).
             isRunning (jobStatus s)
           \<and> (\<forall>r' hrs' f' w'. executeSync r' hrs' f' (s\<lparr>db := w'\<rparr>) = [s\<lparr>db := w'\<rparr>])"
    unfolding run butlast_snoc by (auto simp: executeSync_running)
  have c: "\<not> isRunning (jobStatus (last (executeSync r hrs f sys)))"
    unfolding run using fin by simp
  show ?thesis
    by (intro conjI a b c)
qed

text \<open>
  C10. \<^verbatim>\<open>executeSync\<close> is followed through the states in which it is suspended. When
  the job status says a run is in progress, it returns at once in the state in which it
  was called: no student is processed. Otherwise it is suspended at least once, in each
  state in which it is suspended \<^verbatim>\<open>isRunning\<close> is true, so that a call of
  \<^verbatim>\<open>executeSync\<close> arriving in such a state, whatever the store has become, returns at
  once, and it returns with \<^verbatim>\<open>isRunning\<close> false; also when the student query throws,
  in which case the result records one error.
\<close>

theorem executeSync_never_overlaps:
  "(isRunning (jobStatus sys) \<longrightarrow> executeSync r hrs f sys = [sys])
   \<and> (\<not> isRunning (jobStatus sys) \<longrightarrow>
        2 \<le> length (executeSync r hrs f sys)
      \<and> (\<forall>s \<in> set (butlast (executeSync r hrs f sys)).
            isRunning (jobStatus s)
          \<and> (\<forall>r' hrs' f' w'. executeSync r' hrs' f' (s\<lparr>db := w'\<rparr>) = [s\<lparr>db := w'\<rparr>]))
      \<and> \<not> isRunning (jobStatus (last (executeSync r hrs f sys))))
   \<and> (\<not> isRunning (jobStatus sys) \<and> findError sys = Some e \<longrightarrow>
        executeSync r hrs f sys =
          [sys\<lparr>jobStatus := (jobStatus sys)\<lparr>isRunning := True, lastRun := Some (now (db sys))\<rparr>\<rparr>,
           sys\<lparr>jobStatus := (jobStatus sys)\<lparr>isRunning := False, lastRun := Some (now (db sys)),
                  lastResult := Some \<lparr> lr_success = False, studentsProcessed = 0, errors = 1,
                                      duration = 0 \<rparr>\<rparr>\<rparr>])"
proof (intro conjI impI)
  assume "isRunning (jobStatus sys)"
  then show "executeSync r hrs f sys = [sys]" by (rule executeSync_running)
next
  assume a: "\<not> isRunning (jobStatus sys)"
  show "2 \<le> length (executeSync r hrs f sys)"
    using executeSync_flag [OF a, of r hrs f] by (rule conjunct1)
  show "\<forall>s \<in> set (butlast (executeSync r hrs f sys)).
            isRunning (jobStatus s)
          \<and> (\<forall>r' hrs' f' w'. executeSync r' hrs' f' (s\<lparr>db := w'\<rparr>) = [s\<lparr>db := w'\<rparr>])"
    using executeSync_flag [OF a, of r hrs f] by (rule conjunct1 [OF conjunct2])
  show "\<not> isRunning (jobStatus (last (executeSync r hrs f sys)))"
    using executeSync_flag [OF a, of r hrs f] by (rule conjunct2 [OF conjunct2])
next
  assume "\<not> isRunning (jobStatus sys) \<and> findError sys = Some e"
  then show "executeSync r hrs f sys =
          [sys\<lparr>jobStatus := (jobStatus sys)\<lparr>isRunning := True, lastRun := Some (now (db sys))\<rparr>\<rparr>,
           sys\<lparr>jobStatus := (jobStatus sys)\<lparr>isRunning := False, lastRun := Some (now (db sys)),
                  lastResult := Some \<lparr> lr_success = False, studentsProcessed = 0, errors = 1,
                                      duration = 0 \<rparr>\<rparr>\<rparr>]"
    using executeSync_query_fails by blast
qed

lemma hd_in_butlast: "2 \<le> length xs \<Longrightarrow> hd xs \<in> set (butlast xs)"
  by (cases xs) auto

theorem executeSync_never_overlaps_witness:
  "isRunning (jobStatus busy_sys) \<and> executeSync ex_remote 24 True busy_sys = [busy_sys]
   \<and> \<not> isRunning (jobStatus fresh_sys)
   \<and> isRunning (jobStatus (hd (executeSync ex_remote 24 True fresh_sys)))
   \<and> executeSync ex_remote 24 False (hd (executeSync ex_remote 24 True fresh_sys))
       = [hd (executeSync ex_remote 24 True fresh_sys)]
   \<and> \<not> isRunning (jobStatus (last (executeSync ex_remote 24 True fresh_sys)))
   \<and> \<not> isRunning (jobStatus faulty_sys) \<and> findError faulty_sys = Some ''connection lost''
   \<and> lastResult (jobStatus (last (executeSync ex_remote 24 False faulty_sys)))
       = Some \<lparr> lr_success = False, studentsProcessed = 0, errors = 1, duration = 0 \<rparr>
   \<and> \<not> isRunning (jobStatus (last (executeSync ex_remote 24 False faulty_sys)))"
proof -
  have b: "isRunning (jobStatus busy_sys)"
    by (simp add: busy_sys_def idle_def)
  have i: "\<not> isRunning (jobStatus fresh_sys)"
    by (simp add: fresh_sys_def idle_def)
  have f: "\<not> isRunning (jobStatus faulty_sys)" "findError faulty_sys = Some ''connection lost''"
    by (simp_all add: faulty_sys_def fresh_sys_def idle_def)
  note B = executeSync_never_overlaps [of busy_sys ex_remote 24 True "''connection lost''"]
  note I = executeSync_never_overlaps [of fresh_sys ex_remote 24 True "''connection lost''"]
  note F = executeSync_never_overlaps [of faulty_sys ex_remote 24 False "''connection lost''"]
  have rb: "executeSync ex_remote 24 True busy_sys = [busy_sys]"
    using B b by blast
  have len: "2 \<le> length (executeSync ex_remote 24 True fresh_sys)"
    using I i by blast
  have mid: "\<forall>s \<in> set (butlast (executeSync ex_remote 24 True fresh_sys)).
            isRunning (jobStatus s)
          \<and> (\<forall>r' hrs' f' w'. executeSync r' hrs' f' (s\<lparr>db := w'\<rparr>) = [s\<lparr>db := w'\<rparr>])"
    using I i by blast
  have fin: "\<not> isRunning (jobStatus (last (executeSync ex_remote 24 True fresh_sys)))"
    using I i by blast
  obtain s where s: "s = hd (executeSync ex_remote 24 True fresh_sys)" by simp
  have "s \<in> set (butlast (executeSync ex_remote 24 True fresh_sys))"
    unfolding s using len by (rule hd_in_butlast)
  then have hs: "isRunning (jobStatus s)"
      "\<forall>r' hrs' f' w'. executeSync r' hrs' f' (s\<lparr>db := w'\<rparr>) = [s\<lparr>db := w'\<rparr>]"
    using mid by blast+
  have "executeSync ex_remote 24 False (s\<lparr>db := db s\<rparr>) = [s\<lparr>db := db s\<rparr>]"
    using hs(2) by blast
  then have again: "executeSync ex_remote 24 False s = [s]"
    by simp
  have rf: "executeSync ex_remote 24 False faulty_sys =
     [faulty_sys\<lparr>jobStatus := (jobStatus faulty_sys)\<lparr>isRunning := True,
                   lastRun := Some (now (db faulty_sys))\<rparr>\<rparr>,
      faulty_sys\<lparr>jobStatus := (jobStatus faulty_sys)\<lparr>isRunning := False,
                   lastRun := Some (now (db faulty_sys)),
                   lastResult := Some \<lparr> lr_success = False, studentsProcessed = 0, errors = 1,
                                      duration = 0 \<rparr>\<rparr>\<rparr>]"
    using F f by blast
  have lf: "lastResult (jobStatus (last (executeSync ex_remote 24 False faulty_sys)))
       = Some \<lparr> lr_success = False, studentsProcessed = 0, errors = 1, duration = 0 \<rparr>"
      "\<not> isRunning (jobStatus (last (executeSync ex_remote 24 False faulty_sys)))"
    unfolding rf by simp_all
  show ?thesis
    by (intro conjI b rb i hs(1) [unfolded s] again [unfolded s] fin f lf)
qed






end
